(* ===== verification/Prelude.thy ===== *)
theory Prelude
  imports Complex_Main "HOL-Library.State_Monad" "HOL-Library.AList" "HOL-Library.Word"
begin

text \<open>
  Shared vocabulary of the development.

  \<^item> The state monad of the library, with three predicates over a stateful program: \<open>keeps P m\<close>
    (running \<open>m\<close> preserves the state predicate \<open>P\<close>), \<open>relates R m\<close> (the states before and after \<open>m\<close>
    are related by \<open>R\<close>) and \<open>triple P m Q\<close> (from a state with \<open>P\<close>, result and final state satisfy \<open>Q\<close>).
    Their composition rules are collected in \<open>keeps_intros\<close>, \<open>relates_intros\<close> and \<open>triple_intros\<close>, so
    that a handler written in do-notation is verified by following its syntax.
  \<^item> Go maps as association lists with distinct keys, and tables as lists of rows.
  \<^item> Bounded tails (\<open>l = l[len(l)-n:]\<close>) and transition systems, stated once as locales.
  \<^item> Go integers: \<open>int64\<close> values that can wrap are \<open>64 word\<close>, and \<open>go_quot\<close> is Go's division, which
    truncates towards zero.
\<close>

named_theorems keeps_intros
named_theorems relates_intros
named_theorems triple_intros

subsection \<open>Stateful programs\<close>

abbreviation ret :: "'a \<Rightarrow> ('s, 'a) state" where
  "ret x \<equiv> State_Monad.return x"

definition gets :: "('s \<Rightarrow> 'a) \<Rightarrow> ('s, 'a) state" where
  "gets f = State (\<lambda>s. (f s, s))"

definition modify :: "('s \<Rightarrow> 's) \<Rightarrow> ('s, unit) state" where
  "modify f = State (\<lambda>s. ((), f s))"

lemma run_gets [simp]: "run_state (gets f) s = (f s, s)"
  by (simp add: gets_def)

lemma run_modify [simp]: "run_state (modify f) s = ((), f s)"
  by (simp add: modify_def)

primrec each :: "'a list \<Rightarrow> ('a \<Rightarrow> ('s, unit) state) \<Rightarrow> ('s, unit) state" where
  "each [] f = ret ()"
| "each (x # xs) f = do { f x; each xs f }"

text \<open>Run a program on a component of the state: \<open>g\<close> reads the component, \<open>p\<close> writes it back.\<close>

definition zoom :: "('t \<Rightarrow> 's) \<Rightarrow> ('s \<Rightarrow> 't \<Rightarrow> 't) \<Rightarrow> ('s, 'a) state \<Rightarrow> ('t, 'a) state" where
  "zoom g p m = State (\<lambda>t. case run_state m (g t) of (a, s) \<Rightarrow> (a, p s t))"

lemma run_zoom: "run_state (zoom g p m) t = (case run_state m (g t) of (a, s) \<Rightarrow> (a, p s t))"
  by (simp add: zoom_def)

definition keeps :: "('s \<Rightarrow> bool) \<Rightarrow> ('s, 'a) state \<Rightarrow> bool" where
  "keeps P m \<longleftrightarrow> (\<forall>s. P s \<longrightarrow> P (snd (run_state m s)))"

lemma keepsI: "(\<And>s. P s \<Longrightarrow> P (snd (run_state m s))) \<Longrightarrow> keeps P m"
  by (simp add: keeps_def)

lemma keepsD: "keeps P m \<Longrightarrow> P s \<Longrightarrow> P (snd (run_state m s))"
  by (simp add: keeps_def)

lemma keeps_return [keeps_intros]: "keeps P (ret x)"
  by (simp add: keeps_def)

lemma keeps_gets [keeps_intros]: "keeps P (gets f)"
  by (simp add: keeps_def)

lemma keeps_modify [keeps_intros]: "(\<And>s. P s \<Longrightarrow> P (f s)) \<Longrightarrow> keeps P (modify f)"
  by (simp add: keeps_def)

lemma keeps_bind [keeps_intros]:
  "keeps P m \<Longrightarrow> (\<And>a. keeps P (f a)) \<Longrightarrow> keeps P (m \<bind> f)"
  by (fastforce simp: keeps_def split: prod.splits)

lemma keeps_if [keeps_intros]:
  "(b \<Longrightarrow> keeps P m) \<Longrightarrow> (\<not> b \<Longrightarrow> keeps P n) \<Longrightarrow> keeps P (if b then m else n)"
  by simp

lemma keeps_case_sum [keeps_intros]:
  "(\<And>e. x = Inl e \<Longrightarrow> keeps P (f e)) \<Longrightarrow> (\<And>a. x = Inr a \<Longrightarrow> keeps P (g a)) \<Longrightarrow>
   keeps P (case x of Inl e \<Rightarrow> f e | Inr a \<Rightarrow> g a)"
  by (simp split: sum.splits)

lemma keeps_case_option [keeps_intros]:
  "(x = None \<Longrightarrow> keeps P f) \<Longrightarrow> (\<And>a. x = Some a \<Longrightarrow> keeps P (g a)) \<Longrightarrow>
   keeps P (case x of None \<Rightarrow> f | Some a \<Rightarrow> g a)"
  by (simp split: option.splits)

lemma keeps_case_prod [keeps_intros]:
  "(\<And>a b. x = (a, b) \<Longrightarrow> keeps P (f a b)) \<Longrightarrow> keeps P (case x of (a, b) \<Rightarrow> f a b)"
  by (simp split: prod.splits)

lemma keeps_let [keeps_intros]: "(\<And>y. y = x \<Longrightarrow> keeps P (f y)) \<Longrightarrow> keeps P (let y = x in f y)"
  by simp

lemma keeps_each [keeps_intros]: "(\<And>x. x \<in> set xs \<Longrightarrow> keeps P (f x)) \<Longrightarrow> keeps P (each xs f)"
  by (induction xs) (auto intro: keeps_intros)

lemma keeps_zoom [keeps_intros]:
  assumes "keeps Q m" and "\<And>t. P t \<Longrightarrow> Q (g t)" and "\<And>s t. P t \<Longrightarrow> Q s \<Longrightarrow> P (p s t)"
  shows "keeps P (zoom g p m)"
  using assms by (fastforce simp: keeps_def run_zoom split: prod.splits)

text \<open>
  Triples, for programs whose postcondition mentions the result: from every state with \<open>P\<close>, \<open>m\<close> ends
  with a result \<open>a\<close> and a state \<open>t\<close> such that \<open>Q a t\<close>.
\<close>

definition triple :: "('s \<Rightarrow> bool) \<Rightarrow> ('s, 'a) state \<Rightarrow> ('a \<Rightarrow> 's \<Rightarrow> bool) \<Rightarrow> bool" where
  "triple P m Q \<longleftrightarrow> (\<forall>s. P s \<longrightarrow> Q (fst (run_state m s)) (snd (run_state m s)))"

lemma tripleI: "(\<And>s a t. P s \<Longrightarrow> run_state m s = (a, t) \<Longrightarrow> Q a t) \<Longrightarrow> triple P m Q"
  by (simp add: triple_def)

lemma tripleD: "triple P m Q \<Longrightarrow> P s \<Longrightarrow> run_state m s = (a, t) \<Longrightarrow> Q a t"
  by (fastforce simp: triple_def)

lemma triple_keeps: "keeps P m \<longleftrightarrow> triple P m (\<lambda>_. P)"
  by (simp add: keeps_def triple_def)

lemma triple_bind [triple_intros]:
  assumes "triple P m Q" and "\<And>a. triple (Q a) (f a) R"
  shows "triple P (m \<bind> f) R"
proof (rule tripleI)
  fix s b u assume "P s" and run: "run_state (m \<bind> f) s = (b, u)"
  obtain a t where m: "run_state m s = (a, t)" by fastforce
  have "Q a t" by (rule tripleD [OF assms(1) \<open>P s\<close> m])
  moreover have "run_state (f a) t = (b, u)" using run m by simp
  ultimately show "R b u" by (rule tripleD [OF assms(2)])
qed

lemma triple_return: "(\<And>s. P s \<Longrightarrow> Q x s) \<Longrightarrow> triple P (ret x) Q"
  by (simp add: triple_def)

lemma triple_gets: "(\<And>s. P s \<Longrightarrow> Q (f s) s) \<Longrightarrow> triple P (gets f) Q"
  by (simp add: triple_def)

lemma triple_modify: "(\<And>s. P s \<Longrightarrow> Q () (f s)) \<Longrightarrow> triple P (modify f) Q"
  by (simp add: triple_def)

lemma triple_if [triple_intros]:
  "(b \<Longrightarrow> triple P m Q) \<Longrightarrow> (\<not> b \<Longrightarrow> triple P n Q) \<Longrightarrow> triple P (if b then m else n) Q"
  by simp

lemma triple_case_sum [triple_intros]:
  "(\<And>e. x = Inl e \<Longrightarrow> triple P (f e) Q) \<Longrightarrow> (\<And>a. x = Inr a \<Longrightarrow> triple P (g a) Q) \<Longrightarrow>
   triple P (case x of Inl e \<Rightarrow> f e | Inr a \<Rightarrow> g a) Q"
  by (simp split: sum.splits)

lemma triple_case_option [triple_intros]:
  "(x = None \<Longrightarrow> triple P f Q) \<Longrightarrow> (\<And>a. x = Some a \<Longrightarrow> triple P (g a) Q) \<Longrightarrow>
   triple P (case x of None \<Rightarrow> f | Some a \<Rightarrow> g a) Q"
  by (simp split: option.splits)

lemma triple_case_prod [triple_intros]:
  "(\<And>a b. x = (a, b) \<Longrightarrow> triple P (f a b) Q) \<Longrightarrow> triple P (case x of (a, b) \<Rightarrow> f a b) Q"
  by (simp split: prod.splits)

lemma triple_weaken: "triple P' m Q' \<Longrightarrow> (\<And>s. P s \<Longrightarrow> P' s) \<Longrightarrow> (\<And>a s. Q' a s \<Longrightarrow> Q a s) \<Longrightarrow> triple P m Q"
  by (simp add: triple_def)

lemma triple_each: "(\<And>x. x \<in> set xs \<Longrightarrow> triple P (f x) (\<lambda>_. P)) \<Longrightarrow> triple P (each xs f) (\<lambda>_. P)"
  unfolding triple_keeps [symmetric] by (rule keeps_each)

definition relates :: "('s \<Rightarrow> 's \<Rightarrow> bool) \<Rightarrow> ('s, 'a) state \<Rightarrow> bool" where
  "relates R m \<longleftrightarrow> (\<forall>s. R s (snd (run_state m s)))"

lemma relatesI: "(\<And>s. R s (snd (run_state m s))) \<Longrightarrow> relates R m"
  by (simp add: relates_def)

lemma relatesD: "relates R m \<Longrightarrow> R s (snd (run_state m s))"
  by (simp add: relates_def)

lemma relates_return [relates_intros]: "reflp R \<Longrightarrow> relates R (ret x)"
  by (simp add: relates_def reflpD)

lemma relates_gets [relates_intros]: "reflp R \<Longrightarrow> relates R (gets f)"
  by (simp add: relates_def reflpD)

lemma relates_modify [relates_intros]: "(\<And>s. R s (f s)) \<Longrightarrow> relates R (modify f)"
  by (simp add: relates_def)

lemma relates_bind [relates_intros]:
  assumes "transp R" and "relates R m" and "\<And>a. relates R (f a)"
  shows "relates R (m \<bind> f)"
proof (rule relatesI)
  fix s
  obtain a t where m: "run_state m s = (a, t)" by fastforce
  have "R s t" using relatesD [OF assms(2), of s] m by simp
  moreover have "R t (snd (run_state (f a) t))" by (rule relatesD [OF assms(3)])
  ultimately show "R s (snd (run_state (m \<bind> f) s))"
    using m transpD [OF assms(1)] by auto
qed

lemma relates_if [relates_intros]:
  "(b \<Longrightarrow> relates R m) \<Longrightarrow> (\<not> b \<Longrightarrow> relates R n) \<Longrightarrow> relates R (if b then m else n)"
  by simp

lemma relates_case_sum [relates_intros]:
  "(\<And>e. x = Inl e \<Longrightarrow> relates R (f e)) \<Longrightarrow> (\<And>a. x = Inr a \<Longrightarrow> relates R (g a)) \<Longrightarrow>
   relates R (case x of Inl e \<Rightarrow> f e | Inr a \<Rightarrow> g a)"
  by (simp split: sum.splits)

lemma relates_case_option [relates_intros]:
  "(x = None \<Longrightarrow> relates R f) \<Longrightarrow> (\<And>a. x = Some a \<Longrightarrow> relates R (g a)) \<Longrightarrow>
   relates R (case x of None \<Rightarrow> f | Some a \<Rightarrow> g a)"
  by (simp split: option.splits)

lemma relates_case_prod [relates_intros]:
  "(\<And>a b. x = (a, b) \<Longrightarrow> relates R (f a b)) \<Longrightarrow> relates R (case x of (a, b) \<Rightarrow> f a b)"
  by (simp split: prod.splits)

lemma relates_let [relates_intros]:
  "(\<And>y. y = x \<Longrightarrow> relates R (f y)) \<Longrightarrow> relates R (let y = x in f y)"
  by simp

lemma relates_each [relates_intros]:
  assumes "reflp R" and "transp R" and "\<And>x. x \<in> set xs \<Longrightarrow> relates R (f x)"
  shows "relates R (each xs f)"
  using assms(3) by (induction xs) (auto intro: relates_intros assms(1,2))

lemma relates_zoom [relates_intros]:
  assumes "relates Q m" and "\<And>s t. Q (g t) s \<Longrightarrow> R t (p s t)"
  shows "relates R (zoom g p m)"
proof (rule relatesI)
  fix t
  obtain a s where m: "run_state m (g t) = (a, s)" by fastforce
  have "Q (g t) s" using relatesD [OF assms(1), of "g t"] m by simp
  then show "R t (snd (run_state (zoom g p m) t))" using m assms(2) by (simp add: run_zoom)
qed

subsection \<open>Tables and maps\<close>

text \<open>The rows of a table that satisfy a condition, updated in place (SQL's \<open>UPDATE .. WHERE\<close>).\<close>

definition upd_where :: "('r \<Rightarrow> bool) \<Rightarrow> ('r \<Rightarrow> 'r) \<Rightarrow> 'r list \<Rightarrow> 'r list" where
  "upd_where p g rs = map (\<lambda>r. if p r then g r else r) rs"

lemma length_upd_where [simp]: "length (upd_where p g rs) = length rs"
  by (simp add: upd_where_def)

lemma set_upd_where: "set (upd_where p g rs) = (\<lambda>r. if p r then g r else r) ` set rs"
  by (simp add: upd_where_def)

lemma upd_where_map_same [simp]:
  "(\<And>r. k (g r) = k r) \<Longrightarrow> map k (upd_where p g rs) = map k rs"
  by (simp add: upd_where_def)

lemma upd_where_image_same: "(\<And>r. k (g r) = k r) \<Longrightarrow> k ` set (upd_where p g rs) = k ` set rs"
  by (simp only: set_map [symmetric] upd_where_map_same)

lemma upd_where_none: "\<forall>r \<in> set rs. \<not> p r \<Longrightarrow> upd_where p g rs = rs"
  by (induction rs) (auto simp: upd_where_def)

lemma filter_upd_where_same:
  "(\<And>r. p r \<Longrightarrow> q (g r) = False) \<Longrightarrow> (\<And>r. p r \<Longrightarrow> q r = False) \<Longrightarrow>
   filter q (upd_where p g rs) = filter q rs"
  by (induction rs) (auto simp: upd_where_def)

lemma distinct_map_filter [simp]: "distinct (map k rs) \<Longrightarrow> distinct (map k (filter p rs))"
  by (induction rs) auto

lemma distinct_map_eqD: "distinct (map k rs) \<Longrightarrow> x \<in> set rs \<Longrightarrow> y \<in> set rs \<Longrightarrow> k x = k y \<Longrightarrow> x = y"
  by (auto simp: distinct_map dest: inj_onD)

lemma keyed_filter_single:
  "distinct (map k rs) \<Longrightarrow> r \<in> set rs \<Longrightarrow> filter (\<lambda>x. k x = k r) rs = [r]"
proof (induction rs)
  case (Cons a rs)
  show ?case
  proof (cases "a = r")
    case True
    with Cons.prems show ?thesis by (auto simp: filter_empty_conv image_iff)
  next
    case False
    with Cons show ?thesis by (auto simp: image_iff)
  qed
qed simp

lemma image_filter_subset: "f ` set rs \<subseteq> A \<Longrightarrow> f ` set (filter q rs) \<subseteq> A"
  by auto

text \<open>\<open>ON DELETE CASCADE\<close> and \<open>ON DELETE SET NULL\<close>, for keys \<open>k\<close> of which those with \<open>p\<close> go.\<close>

lemma cascade_refs:
  assumes "f ` set rs \<subseteq> k ` set ks"
  shows "f ` set (filter (\<lambda>r. f r \<notin> k ` set (filter p ks)) rs) \<subseteq> k ` set (filter (\<lambda>x. \<not> p x) ks)"
  using assms by auto

lemma set_null_refs:
  assumes "f ` set rs \<subseteq> insert None (Some ` k ` set ks)" and "\<And>r. f (g r) = None"
  shows "f ` set (upd_where (\<lambda>r. f r \<in> Some ` k ` set (filter p ks)) g rs)
    \<subseteq> insert None (Some ` k ` set (filter (\<lambda>x. \<not> p x) ks))"
proof (rule image_subsetI)
  fix r assume "r \<in> set (upd_where (\<lambda>r. f r \<in> Some ` k ` set (filter p ks)) g rs)"
  then obtain r' where r': "r' \<in> set rs" "r = (if f r' \<in> Some ` k ` set (filter p ks) then g r' else r')"
    unfolding set_upd_where by blast
  have "f r' \<in> insert None (Some ` k ` set ks)" using r'(1) assms(1) by blast
  moreover have "Some ` k ` set ks \<subseteq> Some ` k ` set (filter p ks) \<union> Some ` k ` set (filter (\<lambda>x. \<not> p x) ks)"
    by auto
  ultimately show "f r \<in> insert None (Some ` k ` set (filter (\<lambda>x. \<not> p x) ks))"
    using r'(2) assms(2) by (cases "f r' \<in> Some ` k ` set (filter p ks)") auto
qed

abbreviation adel :: "'k \<Rightarrow> ('k \<times> 'v) list \<Rightarrow> ('k \<times> 'v) list" where
  "adel k m \<equiv> AList.delete k m"

abbreviation aput :: "'k \<Rightarrow> 'v \<Rightarrow> ('k \<times> 'v) list \<Rightarrow> ('k \<times> 'v) list" where
  "aput k v m \<equiv> AList.update k v m"

lemma map_of_aput [simp]: "map_of (aput k v m) = (map_of m)(k \<mapsto> v)"
  by (rule AList.update_conv')

lemma map_of_adel [simp]: "map_of (adel k m) = (map_of m)(k := None)"
  by (rule AList.delete_conv')

lemma distinct_aput [simp]: "distinct (map fst m) \<Longrightarrow> distinct (map fst (aput k v m))"
  by (rule AList.distinct_update)

lemma distinct_adel [simp]: "distinct (map fst m) \<Longrightarrow> distinct (map fst (adel k m))"
  by (rule AList.distinct_delete)

text \<open>
  \<open>INSERT .. ON CONFLICT (key) DO UPDATE\<close>: \<open>put a\<close> writes the row with key \<open>target a\<close> and leaves the
  rows with other keys as they are. Four tables of the program are written this way.
\<close>

locale upsert_table =
  fixes key :: "'r \<Rightarrow> 'k" and put :: "'a \<Rightarrow> 'r list \<Rightarrow> 'r list" and target :: "'a \<Rightarrow> 'k"
  assumes put_keys: "map key (put a rs) =
      (if target a \<in> set (map key rs) then map key rs else map key rs @ [target a])"
    and put_other: "key r \<noteq> target a \<Longrightarrow> r \<in> set (put a rs) \<longleftrightarrow> r \<in> set rs"
begin

lemma put_distinct: "distinct (map key rs) \<Longrightarrow> distinct (map key (put a rs))"
  unfolding put_keys by auto

lemma put_key_set: "key ` set (put a rs) = insert (target a) (key ` set rs)"
  unfolding set_map [symmetric] put_keys by auto

lemma puts_distinct: "distinct (map key rs) \<Longrightarrow> distinct (map key (fold put as rs))"
  by (induction as arbitrary: rs) (simp_all add: put_distinct)

lemma puts_key_set: "key ` set (fold put as rs) = target ` set as \<union> key ` set rs"
  by (induction as arbitrary: rs) (auto simp: put_key_set)

lemma puts_other: "key r \<notin> target ` set as \<Longrightarrow> r \<in> set (fold put as rs) \<longleftrightarrow> r \<in> set rs"
  by (induction as arbitrary: rs) (auto simp: put_other)

end

subsection \<open>Bounded tails\<close>

text \<open>
  A ring of recent lines: push at the end, keep at most \<open>cap\<close>. The hub's worker log and the
  adapter's output tail are both written this way.
\<close>

locale bounded_tail =
  fixes push :: "'x \<Rightarrow> 'x list \<Rightarrow> 'x list" and cap :: nat
  assumes push_tail: "push x l = drop (length l + 1 - cap) (l @ [x])"
begin

lemma push_length: "length l \<le> cap \<Longrightarrow> length (push x l) \<le> cap"
  by (simp add: push_tail)

lemma pushes_tail:
  "length l \<le> cap \<Longrightarrow> fold push xs l = drop (length l + length xs - cap) (l @ xs)"
proof (induction xs arbitrary: l)
  case Nil
  then show ?case by simp
next
  case (Cons x xs)
  let ?n = "length l + 1 - cap"
  have "fold push (x # xs) l = drop (length (push x l) + length xs - cap) (push x l @ xs)"
    using Cons.IH [of "push x l"] push_length [OF Cons.prems] by simp
  also have "push x l @ xs = drop ?n ((l @ [x]) @ xs)"
    unfolding push_tail drop_append [of _ "l @ [x]"] by simp
  also have "drop (length (push x l) + length xs - cap) (drop ?n ((l @ [x]) @ xs))
    = drop ((length (push x l) + length xs - cap) + ?n) ((l @ [x]) @ xs)"
    by (rule drop_drop)
  also have "(length (push x l) + length xs - cap) + ?n = length l + length (x # xs) - cap"
    using Cons.prems by (simp add: push_tail)
  finally show ?case by simp
qed

lemma pushes_length: "length l \<le> cap \<Longrightarrow> length (fold push xs l) \<le> cap"
  by (simp add: pushes_tail)

lemma pushes_recent: "length xs \<ge> cap \<Longrightarrow> fold push xs [] = drop (length xs - cap) xs"
  by (simp add: pushes_tail)

end

subsection \<open>Transition systems\<close>

locale transition_system =
  fixes start :: "'s \<Rightarrow> bool" and move :: "'s \<Rightarrow> 's \<Rightarrow> bool" and good :: "'s \<Rightarrow> bool"
  assumes start_good: "start s \<Longrightarrow> good s"
    and move_good: "good s \<Longrightarrow> move s t \<Longrightarrow> good t"
begin

lemma moves_good: "move\<^sup>*\<^sup>* s t \<Longrightarrow> good s \<Longrightarrow> good t"
  by (induction rule: rtranclp_induct) (auto intro: move_good)

lemma reachable_good: "start s \<Longrightarrow> move\<^sup>*\<^sup>* s t \<Longrightarrow> good t"
  by (auto intro: moves_good start_good)

end

subsection \<open>Go integers\<close>

type_synonym i64 = "64 word"

definition go_quot :: "int \<Rightarrow> int \<Rightarrow> int" where
  "go_quot a b = sgn a * sgn b * (\<bar>a\<bar> div \<bar>b\<bar>)"

lemma go_quot_nonneg: "0 \<le> a \<Longrightarrow> 0 < b \<Longrightarrow> go_quot a b = a div b"
  by (cases "a = 0") (simp_all add: go_quot_def)

text \<open>Times are in nanoseconds.\<close>

definition second :: int where
  "second = 1000000000"

definition minute :: int where
  "minute = 60 * second"

definition hour :: int where
  "hour = 60 * minute"

end
