(* ===== verification/GoStrings.thy ===== *)
theory GoStrings
  imports Prelude
begin

text \<open>
  The functions of Go's \<open>strings\<close> package that the program uses, on byte strings (a Go string is a
  byte sequence; a HOL \<open>char\<close> is one byte). \<open>TrimSpace\<close> removes the UTF-8 encodings of exactly the
  runes for which \<open>unicode.IsSpace\<close> holds. \<open>ToUpper\<close> and \<open>ToLower\<close> are exact on ASCII strings; on
  other strings Go maps runes through the Unicode tables, which are the parameter \<open>uni\<close>.
\<close>

definition has_prefix :: "string \<Rightarrow> string \<Rightarrow> bool" where
  "has_prefix p s \<longleftrightarrow> take (length p) s = p"

definition has_suffix :: "string \<Rightarrow> string \<Rightarrow> bool" where
  "has_suffix p s \<longleftrightarrow> has_prefix (rev p) (rev s)"

definition trim_prefix :: "string \<Rightarrow> string \<Rightarrow> string" where
  "trim_prefix p s = (if has_prefix p s then drop (length p) s else s)"

definition trim_suffix :: "string \<Rightarrow> string \<Rightarrow> string" where
  "trim_suffix p s = (if has_suffix p s then take (length s - length p) s else s)"

lemma has_prefix_iff: "has_prefix p s \<longleftrightarrow> (\<exists>t. s = p @ t)"
  unfolding has_prefix_def by (metis append_eq_conv_conj append_take_drop_id)

lemma has_prefix_append [simp]: "has_prefix p (p @ s)"
  by (simp add: has_prefix_def)

lemma has_prefix_Nil [simp]: "has_prefix [] s"
  by (simp add: has_prefix_def)

lemma has_prefix_Nil2 [simp]: "has_prefix p [] \<longleftrightarrow> p = []"
  by (auto simp: has_prefix_def)

lemma has_prefix_Cons [simp]: "has_prefix (a # p) (b # s) \<longleftrightarrow> a = b \<and> has_prefix p s"
  by (auto simp: has_prefix_def)

lemma has_prefix_trans: "has_prefix p q \<Longrightarrow> has_prefix q s \<Longrightarrow> has_prefix p s"
  by (auto simp: has_prefix_iff)

subsection \<open>TrimSpace\<close>

definition utf8_spaces :: "string list" where
  "utf8_spaces = map (map char_of)
     [[9], [10], [11], [12], [13], [32 :: nat], [194, 133], [194, 160], [225, 154, 128],
      [226, 128, 128], [226, 128, 129], [226, 128, 130], [226, 128, 131], [226, 128, 132],
      [226, 128, 133], [226, 128, 134], [226, 128, 135], [226, 128, 136], [226, 128, 137],
      [226, 128, 138], [226, 128, 168], [226, 128, 169], [226, 128, 175], [226, 129, 159],
      [227, 128, 128]]"

function strip :: "string list \<Rightarrow> string \<Rightarrow> string" where
  "strip ps s = (case find (\<lambda>p. p \<noteq> [] \<and> has_prefix p s) ps of
     None \<Rightarrow> s | Some p \<Rightarrow> strip ps (drop (length p) s))"
  by pat_completeness auto
termination
  by (relation "measure (\<lambda>(ps, s). length s)")
    (auto simp: find_Some_iff has_prefix_iff Suc_le_eq)

declare strip.simps [simp del]

definition TrimSpace :: "string \<Rightarrow> string" where
  "TrimSpace s = rev (strip (map rev utf8_spaces) (rev (strip utf8_spaces s)))"

definition clean :: "string list \<Rightarrow> string \<Rightarrow> bool" where
  "clean ps s \<longleftrightarrow> (\<forall>p \<in> set ps. p = [] \<or> \<not> has_prefix p s)"

lemma strip_clean: "clean ps (strip ps s)"
proof (induction ps s rule: strip.induct)
  case (1 ps s)
  show ?case
  proof (cases "find (\<lambda>p. p \<noteq> [] \<and> has_prefix p s) ps")
    case None
    then have "strip ps s = s" by (simp add: strip.simps [of ps s])
    with None show ?thesis by (auto simp: clean_def find_None_iff)
  next
    case (Some p)
    with 1 show ?thesis by (simp add: strip.simps [of ps s])
  qed
qed

lemma strip_id: "clean ps s \<Longrightarrow> strip ps s = s"
proof -
  assume "clean ps s"
  then have "find (\<lambda>p. p \<noteq> [] \<and> has_prefix p s) ps = None"
    by (auto simp: clean_def find_None_iff)
  then show ?thesis by (simp add: strip.simps [of ps s])
qed

lemma strip_suffix: "\<exists>t. s = t @ strip ps s"
proof (induction ps s rule: strip.induct)
  case (1 ps s)
  show ?case
  proof (cases "find (\<lambda>p. p \<noteq> [] \<and> has_prefix p s) ps")
    case None
    then show ?thesis by (simp add: strip.simps [of ps s])
  next
    case (Some p)
    then obtain t where "drop (length p) s = t @ strip ps (drop (length p) s)"
      using 1 by blast
    then have "s = (take (length p) s @ t) @ strip ps (drop (length p) s)"
      by (metis append_assoc append_take_drop_id)
    moreover have "strip ps s = strip ps (drop (length p) s)"
      using Some by (simp add: strip.simps [of ps s])
    ultimately show ?thesis by metis
  qed
qed

lemma clean_prefix: "clean ps s \<Longrightarrow> has_prefix r s \<Longrightarrow> clean ps r"
  by (auto simp: clean_def dest: has_prefix_trans)

lemma TrimSpace_prefix: "has_prefix (TrimSpace s) (strip utf8_spaces s)"
proof -
  obtain t where "rev (strip utf8_spaces s) =
      t @ strip (map rev utf8_spaces) (rev (strip utf8_spaces s))"
    using strip_suffix by blast
  then have "strip utf8_spaces s = TrimSpace s @ rev t"
    unfolding TrimSpace_def by (metis rev_append rev_rev_ident)
  then show ?thesis by (simp add: has_prefix_iff)
qed

lemma TrimSpace_clean: "clean utf8_spaces (TrimSpace s)"
  by (rule clean_prefix [OF strip_clean TrimSpace_prefix])

lemma TrimSpace_clean_right: "clean (map rev utf8_spaces) (rev (TrimSpace s))"
  by (simp add: TrimSpace_def strip_clean)

lemma TrimSpace_idem [simp]: "TrimSpace (TrimSpace s) = TrimSpace s"
proof -
  have "strip utf8_spaces (TrimSpace s) = TrimSpace s"
    by (rule strip_id [OF TrimSpace_clean])
  then show ?thesis
    using strip_id [OF TrimSpace_clean_right, of s] by (simp add: TrimSpace_def [of "TrimSpace s"])
qed

lemma TrimSpace_id:
  "clean utf8_spaces s \<Longrightarrow> clean (map rev utf8_spaces) (rev s) \<Longrightarrow> TrimSpace s = s"
  by (simp add: TrimSpace_def strip_id)

text \<open>Printable ASCII is left alone.\<close>

definition printable :: "char \<Rightarrow> bool" where
  "printable c \<longleftrightarrow> (let n = of_char c :: nat in 33 \<le> n \<and> n < 127)"

lemma utf8_spaces_ends: "p \<in> set utf8_spaces \<Longrightarrow> p \<noteq> [] \<and> \<not> printable (hd p) \<and> \<not> printable (List.last p)"
  by (auto simp: utf8_spaces_def printable_def)

lemma printable_clean:
  assumes "list_all printable s"
  shows "clean utf8_spaces s \<and> clean (map rev utf8_spaces) (rev s)"
proof -
  have in_prefix: "hd p \<in> set t" if "p \<noteq> []" "has_prefix p t" for p t
    using that by (cases p) (auto simp: has_prefix_iff)
  have "\<not> has_prefix p s" if "p \<in> set utf8_spaces" for p
    using in_prefix [of p s] utf8_spaces_ends [OF that] assms by (auto simp: list_all_iff)
  moreover have "\<not> has_prefix (rev p) (rev s)" if "p \<in> set utf8_spaces" for p
    using in_prefix [of "rev p" "rev s"] utf8_spaces_ends [OF that] assms by (auto simp: list_all_iff hd_rev)
  ultimately show ?thesis by (auto simp: clean_def)
qed

lemma TrimSpace_printable: "list_all printable s \<Longrightarrow> TrimSpace s = s"
  using printable_clean by (intro TrimSpace_id) auto

subsection \<open>Case mapping\<close>

definition is_ascii :: "string \<Rightarrow> bool" where
  "is_ascii s \<longleftrightarrow> list_all (\<lambda>c. of_char c < (128 :: nat)) s"

definition upper_char :: "char \<Rightarrow> char" where
  "upper_char c = (let n = of_char c :: nat in if 97 \<le> n \<and> n \<le> 122 then char_of (n - 32) else c)"

definition lower_char :: "char \<Rightarrow> char" where
  "lower_char c = (let n = of_char c :: nat in if 65 \<le> n \<and> n \<le> 90 then char_of (n + 32) else c)"

definition ToUpper :: "(string \<Rightarrow> string) \<Rightarrow> string \<Rightarrow> string" where
  "ToUpper uni s = (if is_ascii s then map upper_char s else uni s)"

definition ToLower :: "(string \<Rightarrow> string) \<Rightarrow> string \<Rightarrow> string" where
  "ToLower uni s = (if is_ascii s then map lower_char s else uni s)"

lemma of_upper_char:
  "(of_char (upper_char c) :: nat) =
     (let n = of_char c in if 97 \<le> n \<and> n \<le> 122 then n - 32 else n)"
  by (auto simp: upper_char_def Let_def)

lemma upper_char_idem [simp]: "upper_char (upper_char c) = upper_char c"
  unfolding upper_char_def [of "upper_char c"] by (auto simp: of_upper_char Let_def)

lemma is_ascii_upper: "is_ascii (map upper_char s) \<longleftrightarrow> is_ascii s"
  by (induction s) (auto simp: is_ascii_def of_upper_char Let_def)

lemma ToUpper_ascii: "is_ascii s \<Longrightarrow> ToUpper uni s = map upper_char s"
  by (simp add: ToUpper_def)

subsection \<open>Searching and replacing\<close>

fun index_of :: "string \<Rightarrow> string \<Rightarrow> nat option" where
  "index_of p [] = (if p = [] then Some 0 else None)"
| "index_of p (c # s) = (if has_prefix p (c # s) then Some 0 else map_option Suc (index_of p s))"

definition contains :: "string \<Rightarrow> string \<Rightarrow> bool" where
  "contains p s \<longleftrightarrow> index_of p s \<noteq> None"

text \<open>\<open>strings.ReplaceAll\<close> with a non-empty \<open>old\<close>: leftmost, non-overlapping.\<close>

function replace_all :: "string \<Rightarrow> string \<Rightarrow> string \<Rightarrow> string" where
  "replace_all old new [] = []"
| "replace_all old new (c # s) =
     (if old \<noteq> [] \<and> has_prefix old (c # s)
      then new @ replace_all old new (drop (length old) (c # s))
      else c # replace_all old new s)"
  by pat_completeness auto
termination
  by (relation "measure (\<lambda>(old, new, s). length s)") auto

definition replace_first :: "string \<Rightarrow> string \<Rightarrow> string \<Rightarrow> string" where
  "replace_first old new s = (case index_of old s of
     None \<Rightarrow> s | Some i \<Rightarrow> take i s @ new @ drop (i + length old) s)"

text \<open>\<open>strings.Split\<close> on a one-byte separator: never empty.\<close>

fun split_on :: "char \<Rightarrow> string \<Rightarrow> string list" where
  "split_on d [] = [[]]"
| "split_on d (c # s) =
     (if c = d then [] # split_on d s
      else case split_on d s of [] \<Rightarrow> [[c]] | w # ws \<Rightarrow> (c # w) # ws)"

lemma split_on_nonempty: "split_on d s \<noteq> []"
  by (cases s) (auto split: list.splits)

lemma split_on_absent: "d \<notin> set s \<Longrightarrow> split_on d s = [s]"
  by (induction s) auto

lemma split_on_parts: "w \<in> set (split_on d s) \<Longrightarrow> d \<notin> set w"
proof (induction s arbitrary: w)
  case Nil
  then show ?case by simp
next
  case (Cons c s)
  show ?case
  proof (cases "split_on d s")
    case Nil
    then show ?thesis using split_on_nonempty by blast
  next
    case (Cons v vs)
    then show ?thesis using Cons.prems Cons.IH [of v] Cons.IH [of w] by (auto split: if_splits)
  qed
qed

end
