(* ===== verification/Wallet.thy ===== *)
theory Wallet
  imports GoStrings
begin

text \<open>
  Payout address validation (internal/wallet/validate.go).

  Every pattern of the source is anchored on both sides and is an alternative of concatenations of
  literals and bounded repetitions of one character class, so a pattern is a list of alternatives,
  each a list of items; a single class without a repetition count is a repetition of exactly one.
  \<open>match_string\<close> is the meaning of \<open>MatchString\<close> on such a pattern. The table \<open>rules\<close> is the
  source's map, entry by entry.

  The lemmas bound the length and the alphabet of everything a pattern accepts, and from them
  which currencies have an acceptable address at all.
\<close>

subsection \<open>Patterns\<close>

datatype item = Lit string | Rep "(char \<times> char) list" nat "nat option"

type_synonym pattern = "item list list"

definition in_class :: "(char \<times> char) list \<Rightarrow> char \<Rightarrow> bool" where
  "in_class cl c \<longleftrightarrow>
     list_ex (\<lambda>(a, b). of_char a \<le> (of_char c :: nat) \<and> of_char c \<le> (of_char b :: nat)) cl"

definition len_in :: "nat \<Rightarrow> nat option \<Rightarrow> nat \<Rightarrow> bool" where
  "len_in lo hi n \<longleftrightarrow> lo \<le> n \<and> (case hi of None \<Rightarrow> True | Some h \<Rightarrow> n \<le> h)"

fun match_items :: "item list \<Rightarrow> string \<Rightarrow> bool" where
  "match_items [] s = (s = [])"
| "match_items (Lit l # is) s = (has_prefix l s \<and> match_items is (drop (length l) s))"
| "match_items (Rep cl lo hi # is) s =
     list_ex (\<lambda>k. len_in lo hi k \<and> list_all (in_class cl) (take k s) \<and> match_items is (drop k s))
       [0..<Suc (length s)]"

definition match_string :: "pattern \<Rightarrow> string \<Rightarrow> bool" where
  "match_string p s = list_ex (\<lambda>is. match_items is s) p"

definition base58 :: "(char \<times> char) list" where
  "base58 = [(CHR ''1'', CHR ''9''), (CHR ''A'', CHR ''H''), (CHR ''J'', CHR ''N''),
     (CHR ''P'', CHR ''Z''), (CHR ''a'', CHR ''k''), (CHR ''m'', CHR ''z'')]"

definition bech32 :: "(char \<times> char) list" where
  "bech32 = [(CHR ''0'', CHR ''0''), (CHR ''2'', CHR ''9''), (CHR ''a'', CHR ''a''),
     (CHR ''c'', CHR ''h''), (CHR ''j'', CHR ''n''), (CHR ''p'', CHR ''z'')]"

definition hexdigits :: "(char \<times> char) list" where
  "hexdigits = [(CHR ''0'', CHR ''9''), (CHR ''a'', CHR ''f''), (CHR ''A'', CHR ''F'')]"

subsection \<open>The rules and the validator\<close>

record rule =
  family :: string
  re :: pattern
  minL :: nat
  maxL :: nat

definition rules :: "(string \<times> rule) list" where
  "rules = [
     (''XMR'', \<lparr>family = ''cryptonote'', re =
       [[Rep [(CHR ''4'', CHR ''4''), (CHR ''8'', CHR ''8'')] 1 (Some 1), Rep base58 94 (Some 105)]],
       minL = 95, maxL = 106\<rparr>),
     (''ZEPH'', \<lparr>family = ''cryptonote'', re =
       [[Lit ''ZEPHYR'', Rep base58 90 (Some 110)]],
       minL = 95, maxL = 120\<rparr>),
     (''VTC'', \<lparr>family = ''btc-like'', re =
       [[Rep [(CHR ''3'', CHR ''3''), (CHR ''V'', CHR ''V'')] 1 (Some 1), Rep base58 25 (Some 39)],
        [Lit ''vtc1'', Rep bech32 8 (Some 87)]],
       minL = 26, maxL = 90\<rparr>),
     (''DASH'', \<lparr>family = ''btc-like'', re =
       [[Rep [(CHR ''X'', CHR ''X''), (CHR ''x'', CHR ''x''), (CHR ''7'', CHR ''7'')] 1 (Some 1), Rep base58 25 (Some 39)]],
       minL = 26, maxL = 42\<rparr>),
     (''DGB'', \<lparr>family = ''btc-like'', re =
       [[Rep [(CHR ''D'', CHR ''D''), (CHR ''S'', CHR ''S'')] 1 (Some 1), Rep base58 25 (Some 39)],
        [Lit ''dgb1'', Rep bech32 8 (Some 87)]],
       minL = 26, maxL = 90\<rparr>),
     (''BTG'', \<lparr>family = ''btc-like'', re =
       [[Rep [(CHR ''A'', CHR ''A''), (CHR ''G'', CHR ''G'')] 1 (Some 1), Rep base58 25 (Some 39)],
        [Lit ''btg1'', Rep bech32 8 (Some 87)]],
       minL = 26, maxL = 90\<rparr>),
     (''RVN'', \<lparr>family = ''raven'', re =
       [[Lit ''R'', Rep base58 25 (Some 39)]],
       minL = 26, maxL = 42\<rparr>),
     (''CLORE'', \<lparr>family = ''raven'', re =
       [[Rep [(CHR ''C'', CHR ''C''), (CHR ''A'', CHR ''A'')] 1 (Some 1), Rep base58 25 (Some 39)]],
       minL = 26, maxL = 42\<rparr>),
     (''ETC'', \<lparr>family = ''evm'', re =
       [[Lit ''0x'', Rep hexdigits 40 (Some 40)]],
       minL = 42, maxL = 42\<rparr>),
     (''OCTA'', \<lparr>family = ''evm'', re =
       [[Lit ''0x'', Rep hexdigits 40 (Some 40)]],
       minL = 42, maxL = 42\<rparr>),
     (''FLUX'', \<lparr>family = ''zcash-t'', re =
       [[Lit ''t1'', Rep base58 33 (Some 33)]],
       minL = 35, maxL = 35\<rparr>),
     (''ZEC'', \<lparr>family = ''zcash'', re =
       [[Lit ''t1'', Rep base58 33 (Some 33)],
        [Lit ''t3'', Rep base58 33 (Some 33)],
        [Lit ''zs1'', Rep bech32 75 (Some 75)],
        [Lit ''u1'', Rep bech32 20 None]],
       minL = 35, maxL = 160\<rparr>),
     (''ARRR'', \<lparr>family = ''zcash-sapling'', re =
       [[Lit ''zs1'', Rep bech32 75 (Some 75)]],
       minL = 78, maxL = 78\<rparr>),
     (''ERG'', \<lparr>family = ''ergo'', re =
       [[Lit ''9'', Rep base58 50 (Some 60)]],
       minL = 51, maxL = 61\<rparr>),
     (''KAS'', \<lparr>family = ''kaspa'', re =
       [[Lit ''kaspa:'', Rep bech32 61 (Some 63)]],
       minL = 67, maxL = 69\<rparr>),
     (''XEL'', \<lparr>family = ''xelis'', re =
       [[Lit ''xel:'', Rep bech32 20 (Some 80)]],
       minL = 24, maxL = 84\<rparr>),
     (''GRIN'', \<lparr>family = ''grin'', re =
       [[Lit ''grin1'', Rep bech32 20 (Some 70)]],
       minL = 26, maxL = 76\<rparr>),
     (''BEAM'', \<lparr>family = ''beam'', re =
       [[Rep hexdigits 64 (Some 80)],
        [Rep base58 60 (Some 90)]],
       minL = 60, maxL = 90\<rparr>),
     (''XCH'', \<lparr>family = ''chia'', re =
       [[Lit ''xch1'', Rep bech32 59 (Some 59)]],
       minL = 62, maxL = 62\<rparr>)]"

datatype wallet_error =
    NoRule string
  | BadLength string nat nat nat
  | BadFormat string string

definition Validate :: "(string \<Rightarrow> string) \<Rightarrow> string \<Rightarrow> string \<Rightarrow> wallet_error + unit" where
  "Validate uni symbol address =
     (let address = TrimSpace address in
      case map_of rules (ToUpper uni symbol) of
        None \<Rightarrow> Inl (NoRule symbol)
      | Some r \<Rightarrow>
          if length address < minL r \<or> length address > maxL r
          then Inl (BadLength symbol (length address) (minL r) (maxL r))
          else if \<not> match_string (re r) address then Inl (BadFormat symbol (family r))
          else Inr ())"

lemma Validate_ok_iff:
  "Validate uni symbol address = Inr () \<longleftrightarrow>
     (\<exists>r. map_of rules (ToUpper uni symbol) = Some r \<and> minL r \<le> length (TrimSpace address) \<and>
        length (TrimSpace address) \<le> maxL r \<and> match_string (re r) (TrimSpace address))"
  by (auto simp: Validate_def Let_def split: option.splits)

lemma Validate_trim [simp]: "Validate uni symbol (TrimSpace a) = Validate uni symbol a"
  by (simp add: Validate_def)

subsection \<open>What a pattern accepts\<close>

text \<open>The lengths a list of items can match.\<close>

fun item_min :: "item \<Rightarrow> nat" where
  "item_min (Lit l) = length l"
| "item_min (Rep cl lo hi) = lo"

fun item_max :: "item \<Rightarrow> nat option" where
  "item_max (Lit l) = Some (length l)"
| "item_max (Rep cl lo hi) = hi"

fun max_len :: "item list \<Rightarrow> nat option" where
  "max_len [] = Some 0"
| "max_len (i # is) = (case (item_max i, max_len is) of (Some a, Some b) \<Rightarrow> Some (a + b) | _ \<Rightarrow> None)"

lemma match_items_length:
  "match_items is s \<Longrightarrow> len_in (sum_list (map item_min is)) (max_len is) (length s)"
proof (induction "is" s rule: match_items.induct)
  case (1 s)
  then show ?case by (simp add: len_in_def)
next
  case (2 l "is" s)
  then show ?case by (auto simp: len_in_def has_prefix_iff split: option.splits)
next
  case (3 cl lo hi "is" s)
  then obtain k where k: "k \<le> length s" "len_in lo hi k" "match_items is (drop k s)"
    by (auto simp: list_ex_iff less_Suc_eq_le simp del: upt_Suc)
  have "len_in (sum_list (map item_min is)) (max_len is) (length (drop k s))"
    by (rule "3.IH" [of k]) (use k "3.prems" in \<open>auto simp: list_ex_iff less_Suc_eq_le\<close>)
  with k show ?case by (auto simp: len_in_def split: option.splits)
qed

text \<open>The characters a list of items can match.\<close>

fun item_chars :: "(char \<Rightarrow> bool) \<Rightarrow> item \<Rightarrow> bool" where
  "item_chars ok (Lit l) = (\<forall>c \<in> set l. ok c)"
| "item_chars ok (Rep cl lo hi) = (\<forall>c. in_class cl c \<longrightarrow> ok c)"

lemma match_items_chars:
  "match_items is s \<Longrightarrow> \<forall>i \<in> set is. item_chars ok i \<Longrightarrow> c \<in> set s \<Longrightarrow> ok c"
proof (induction "is" s rule: match_items.induct)
  case (1 s)
  then show ?case by simp
next
  case (2 l "is" s)
  then obtain t where t: "s = l @ t" by (auto simp: has_prefix_iff)
  with 2 show ?case by auto
next
  case (3 cl lo hi "is" s)
  then obtain k where k: "k < Suc (length s)" "list_all (in_class cl) (take k s)"
      "match_items is (drop k s)"
    by (auto simp: list_ex_iff simp del: upt_Suc)
  have "c \<in> set (take k s) \<or> c \<in> set (drop k s)"
    using "3.prems"(3) by (metis Un_iff append_take_drop_id set_append)
  then show ?case
  proof
    assume "c \<in> set (take k s)"
    with k "3.prems"(2) show ?thesis by (auto simp: list_all_iff)
  next
    assume "c \<in> set (drop k s)"
    moreover have "k \<in> set [0..<Suc (length s)]" using k(1) by (simp del: upt_Suc)
    ultimately show ?thesis
      using "3.IH" [of k] k "3.prems"(2) by (simp del: upt_Suc)
  qed
qed

text \<open>Building a match: a literal, or a run of class characters, in front of a match.\<close>

lemma match_items_Rep:
  assumes "len_in lo hi (length u)" and "list_all (in_class cl) u" and "match_items is t"
  shows "match_items (Rep cl lo hi # is) (u @ t)"
proof -
  have "length u \<in> set [0..<Suc (length (u @ t))]" by (simp del: upt_Suc)
  with assms show ?thesis by (auto simp: list_ex_iff simp del: upt_Suc)
qed

lemma match_items_Rep_last:
  "len_in lo hi (length u) \<Longrightarrow> list_all (in_class cl) u \<Longrightarrow> match_items [Rep cl lo hi] u"
  using match_items_Rep [of lo hi u cl "[]" "[]"] by simp

lemma match_items_Lit_last:
  "len_in lo hi (length u) \<Longrightarrow> list_all (in_class cl) u \<Longrightarrow> match_items [Lit l, Rep cl lo hi] (l @ u)"
  by (simp add: match_items_Rep_last del: match_items.simps(3))

lemma match_items_one_last:
  "in_class c1 c \<Longrightarrow> len_in lo hi (length u) \<Longrightarrow> list_all (in_class cl) u \<Longrightarrow>
   match_items [Rep c1 (Suc 0) (Some (Suc 0)), Rep cl lo hi] (c # u)"
  using match_items_Rep [of "Suc 0" "Some (Suc 0)" "[c]" c1 "[Rep cl lo hi]" u]
  by (simp add: match_items_Rep_last len_in_def del: match_items.simps(3))

text \<open>The characters of every rule: ASCII letters, digits and the colon.\<close>

definition addr_char :: "char \<Rightarrow> bool" where
  "addr_char c \<longleftrightarrow> (let n = of_char c :: nat in
     48 \<le> n \<and> n \<le> 58 \<or> 65 \<le> n \<and> n \<le> 90 \<or> 97 \<le> n \<and> n \<le> 122)"

lemma class_addr_chars:
  "in_class base58 c \<Longrightarrow> addr_char c"
  "in_class bech32 c \<Longrightarrow> addr_char c"
  "in_class hexdigits c \<Longrightarrow> addr_char c"
  by (auto simp: in_class_def base58_def bech32_def hexdigits_def addr_char_def Let_def)

lemma addr_literals:
  "list_all addr_char ''0123456789abcdefghijklmnopqrstuvwxyzABCDEFGHIJKLMNOPQRSTUVWXYZ:''"
  by (simp add: addr_char_def)

lemma rules_chars:
  assumes "(coin, r) \<in> set rules" and "is \<in> set (re r)" and "i \<in> set is"
  shows "item_chars addr_char i"
proof -
  have cls: "\<And>c. in_class [(a, a)] c \<longleftrightarrow> c = a"
    "\<And>c. in_class [(a, a), (b, b)] c \<longleftrightarrow> c = a \<or> c = b"
    "\<And>c. in_class [(a, a), (b, b), (d, d)] c \<longleftrightarrow> c = a \<or> c = b \<or> c = d" for a b d
    by (auto simp: in_class_def dest: le_antisym)
  have "list_all (\<lambda>(_, r). list_all (list_all (item_chars addr_char)) (re r)) rules"
    using addr_literals by (auto simp: rules_def class_addr_chars cls)
  with assms show ?thesis by (auto simp: list_all_iff)
qed

lemma utf8_space_ends:
  "p \<in> set utf8_spaces \<Longrightarrow> p \<noteq> [] \<and> \<not> addr_char (hd p) \<and> \<not> addr_char (hd (rev p))"
  by (auto simp: utf8_spaces_def addr_char_def Let_def)

lemma TrimSpace_addr: "\<forall>c \<in> set s. addr_char c \<Longrightarrow> TrimSpace s = s"
proof (rule TrimSpace_id)
  assume s: "\<forall>c \<in> set s. addr_char c"
  have hd_in: "has_prefix p u \<Longrightarrow> p \<noteq> [] \<Longrightarrow> hd p \<in> set u" for p u :: string
    by (auto simp: has_prefix_iff)
  show "clean utf8_spaces s"
    using s utf8_space_ends hd_in unfolding clean_def by metis
  show "clean (map rev utf8_spaces) (rev s)"
  proof (unfold clean_def, intro ballI)
    fix q assume "q \<in> set (map rev utf8_spaces)"
    then obtain p where "p \<in> set utf8_spaces" "q = rev p" by auto
    with utf8_space_ends [of p] show "q = [] \<or> \<not> has_prefix q (rev s)"
      using s hd_in [of q "rev s"] by auto
  qed
qed

lemma accepted_chars:
  assumes "Validate uni symbol a = Inr ()" and "c \<in> set (TrimSpace a)"
  shows "addr_char c"
proof -
  from assms(1) obtain r "is" where r: "(ToUpper uni symbol, r) \<in> set rules"
      and "is \<in> set (re r)" "match_items is (TrimSpace a)"
    by (auto simp: Validate_ok_iff match_string_def list_ex_iff dest: map_of_SomeD)
  with assms(2) show ?thesis using match_items_chars rules_chars by blast
qed

text \<open>
  An accepted address contains only ASCII letters, digits and the colon. In particular it has no
  dot, no brace, no white space and no quote, so the pool user name \<open>wallet.worker\<close>, the argument
  templates and the explorer links that are built from it cannot be broken by an address.
\<close>

theorem accepted_address_alphabet:
  assumes "Validate uni symbol a = Inr ()"
  shows "list_all addr_char (TrimSpace a) \<and> CHR ''.'' \<notin> set (TrimSpace a) \<and>
    CHR ''{'' \<notin> set (TrimSpace a)"
proof -
  have "\<not> addr_char CHR ''.''" "\<not> addr_char CHR ''{''" by (simp_all add: addr_char_def)
  with accepted_chars [OF assms] show ?thesis by (auto simp: list_all_iff)
qed

subsection \<open>Which currencies have an acceptable address\<close>

text \<open>The symbols of the seeded catalog (deploy/migrations/V2__seed_currencies.sql).\<close>

definition catalog :: "string list" where
  "catalog = [''XMR'', ''ZEPH'', ''RTM'', ''KAS'', ''XEL'', ''VTC'', ''ERG'', ''RVN'', ''ETC'', ''FLUX'',
     ''ZEC'', ''ARRR'', ''BTG'', ''GRIN'', ''BEAM'', ''CLORE'', ''OCTA'', ''DASH'', ''DGB'', ''XCH'']"

definition specimen :: "(string \<times> string) list" where
  "specimen = [
     (''XMR'', CHR ''4'' # replicate 94 CHR ''z''), (''ZEPH'', ''ZEPHYR'' @ replicate 90 CHR ''z''),
     (''KAS'', ''kaspa:'' @ replicate 61 CHR ''z''), (''XEL'', ''xel:'' @ replicate 20 CHR ''z''),
     (''VTC'', CHR ''V'' # replicate 25 CHR ''z''), (''ERG'', ''9'' @ replicate 50 CHR ''z''),
     (''RVN'', ''R'' @ replicate 25 CHR ''z''), (''ETC'', ''0x'' @ replicate 40 CHR ''a''),
     (''FLUX'', ''t1'' @ replicate 33 CHR ''z''), (''ZEC'', ''t1'' @ replicate 33 CHR ''z''),
     (''ARRR'', ''zs1'' @ replicate 75 CHR ''z''), (''BTG'', CHR ''G'' # replicate 25 CHR ''z''),
     (''GRIN'', ''grin1'' @ replicate 21 CHR ''z''), (''BEAM'', replicate 64 CHR ''a''),
     (''CLORE'', CHR ''C'' # replicate 25 CHR ''z''), (''OCTA'', ''0x'' @ replicate 40 CHR ''a''),
     (''DASH'', CHR ''X'' # replicate 25 CHR ''z''), (''DGB'', CHR ''D'' # replicate 25 CHR ''z'')]"

lemma specimen_chars: "(s, a) \<in> set specimen \<Longrightarrow> c \<in> set a \<Longrightarrow> addr_char c"
  by (auto simp: specimen_def addr_char_def)

lemma specimen_classes:
  "in_class base58 CHR ''z''" "in_class bech32 CHR ''z''" "in_class hexdigits CHR ''a''"
  by (simp_all add: in_class_def base58_def bech32_def hexdigits_def)

lemma in_class_Cons:
  "in_class ((a, b) # cl) c \<longleftrightarrow>
     of_char a \<le> (of_char c :: nat) \<and> of_char c \<le> (of_char b :: nat) \<or> in_class cl c"
  by (simp add: in_class_def)

lemmas specimen_match = match_items_Rep_last match_items_Lit_last match_items_one_last
  specimen_classes in_class_Cons len_in_def list_all_iff

definition accepts :: "string \<Rightarrow> string \<Rightarrow> bool" where
  "accepts s a \<longleftrightarrow> (case map_of rules s of None \<Rightarrow> False
     | Some r \<Rightarrow> minL r \<le> length a \<and> length a \<le> maxL r \<and> match_string (re r) a)"

lemma specimen_accepts: "list_all (\<lambda>(s, a). accepts s a) specimen"
  by (simp add: specimen_def accepts_def rules_def match_string_def specimen_match
      del: match_items.simps(3))

lemma specimen_accepted:
  assumes "(s, a) \<in> set specimen"
  shows "Validate uni s a = Inr ()"
proof -
  have "TrimSpace a = a" by (rule TrimSpace_addr) (use specimen_chars [OF assms] in blast)
  moreover have "map upper_char s = s \<and> is_ascii s"
    using assms by (auto simp: specimen_def is_ascii_def upper_char_def)
  moreover have "accepts s a" using specimen_accepts assms by (auto simp: list_all_iff)
  ultimately show ?thesis
    by (auto simp: Validate_ok_iff ToUpper_def accepts_def split: option.splits)
qed

lemma upper_XCH_RTM: "ToUpper uni ''XCH'' = ''XCH''" "ToUpper uni ''RTM'' = ''RTM''"
  by (simp_all add: ToUpper_def is_ascii_def upper_char_def)

lemma XCH_rejected: "Validate uni ''XCH'' a \<noteq> Inr ()"
proof
  assume "Validate uni ''XCH'' a = Inr ()"
  then have "match_items [Lit ''xch1'', Rep bech32 59 (Some 59)] (TrimSpace a)"
      and "length (TrimSpace a) \<le> 62"
    by (auto simp: Validate_ok_iff upper_XCH_RTM rules_def match_string_def
        simp del: match_items.simps)
  then show False
    using match_items_length [of "[Lit ''xch1'', Rep bech32 59 (Some 59)]" "TrimSpace a"]
    by (simp add: len_in_def del: match_items.simps)
qed

lemma RTM_rejected: "Validate uni ''RTM'' a \<noteq> Inr ()"
  by (simp add: Validate_ok_iff upper_XCH_RTM rules_def)

text \<open>
  C40. Of the twenty currencies of the catalog, exactly XCH and RTM have no acceptable payout address
  at all: the XCH pattern only matches 63 characters while the length window is 62, and RTM has no
  rule. Every other currency accepts some address.
\<close>

theorem wallet_creatable_iff:
  assumes "coin \<in> set catalog"
  shows "(\<exists>a. Validate uni coin a = Inr ()) \<longleftrightarrow> coin \<noteq> ''XCH'' \<and> coin \<noteq> ''RTM''"
proof (cases "coin = ''XCH'' \<or> coin = ''RTM''")
  case True
  then show ?thesis using XCH_rejected RTM_rejected by auto
next
  case False
  with assms have "coin \<in> fst ` set specimen" by (auto simp: catalog_def specimen_def)
  then have "\<exists>a. (coin, a) \<in> set specimen" by force
  with False show ?thesis using specimen_accepted by blast
qed

theorem wallet_creatable_iff_witness:
  "(\<exists>a. Validate id ''KAS'' a = Inr ()) \<and> \<not> (\<exists>a. Validate id ''XCH'' a = Inr ())"
  using wallet_creatable_iff [of "''KAS''" id] wallet_creatable_iff [of "''XCH''" id]
  by (simp add: catalog_def)

theorem accepted_address_alphabet_witness:
  "Validate id ''ETC'' (''0x'' @ replicate 40 CHR ''a'') = Inr () \<and>
   list_all addr_char (TrimSpace (''0x'' @ replicate 40 CHR ''a''))"
proof -
  have "Validate id ''ETC'' (''0x'' @ replicate 40 CHR ''a'') = Inr ()"
    by (rule specimen_accepted) (simp add: specimen_def)
  then show ?thesis using accepted_address_alphabet by blast
qed

end
