(* ===== verification/Events.thy ===== *)
theory Events
  imports GoStrings
begin

text \<open>
  The server-sent-events broker (internal/events/events.go).

  A broker maps each owner to the set of that owner's channels. A Go channel is a number; its
  buffer is \<open>queue b ch\<close>, at most 32 events, and \<open>closed b\<close> lists the closed ones. Sending on a
  closed channel and closing a channel twice panic in Go: the model records that in \<open>panicked\<close>
  instead of hiding it. \<open>next_chan\<close> numbers the channels that \<open>make\<close> creates.

  \<open>unsubscribe\<close> is two steps of the source: the removal, under the mutex, and the close, after it
  is released; other goroutines can run between the two. \<open>bus_step\<close> interleaves them with every
  other operation, and the invariant shows that no interleaving panics, no owner ever holds more
  than five channels and no buffer grows beyond 32.
\<close>

datatype evval = EStr string | ENum rat | EInt int | EBool bool

record event =
  ev_type :: string
  ev_data :: "(string \<times> evval) list"

record broker =
  subs :: "(string \<times> nat list) list"
  queue :: "nat \<Rightarrow> event list"
  closed :: "nat list"
  next_chan :: nat
  panicked :: bool

definition new_broker :: broker where
  "new_broker = \<lparr>subs = [], queue = (\<lambda>_. []), closed = [], next_chan = 0, panicked = False\<rparr>"

definition maxConnsPerUser :: nat where
  "maxConnsPerUser = 5"

definition chan_cap :: nat where
  "chan_cap = 32"

text \<open>\<open>b.subs[owner]\<close>: the nil map reads as the empty set.\<close>

definition subs_of :: "broker \<Rightarrow> string \<Rightarrow> nat list" where
  "subs_of b owner = (case map_of (subs b) owner of None \<Rightarrow> [] | Some chans \<Rightarrow> chans)"

definition Subscribe :: "string \<Rightarrow> broker \<Rightarrow> nat option \<times> broker" where
  "Subscribe owner b =
     (let ch = next_chan b;
          b1 = b\<lparr>next_chan := Suc ch\<rparr>;
          chans = subs_of b1 owner;
          b2 = (if map_of (subs b1) owner = None then b1\<lparr>subs := aput owner [] (subs b1)\<rparr> else b1)
      in if length chans \<ge> maxConnsPerUser then (None, b2)
         else (Some ch, b2\<lparr>subs := aput owner (ch # chans) (subs b2)\<rparr>))"

text \<open>The closure that \<open>Subscribe\<close> returns: first the locked part, then \<open>close(ch)\<close>.\<close>

definition unsub_delete :: "string \<Rightarrow> nat \<Rightarrow> broker \<Rightarrow> broker" where
  "unsub_delete owner ch b =
     (case map_of (subs b) owner of
        None \<Rightarrow> b
      | Some chans \<Rightarrow>
          (let rest = removeAll ch chans in
           if rest = [] then b\<lparr>subs := adel owner (subs b)\<rparr>
           else b\<lparr>subs := aput owner rest (subs b)\<rparr>))"

definition unsub_close :: "nat \<Rightarrow> broker \<Rightarrow> broker" where
  "unsub_close ch b =
     (if ch \<in> set (closed b) then b\<lparr>panicked := True\<rparr> else b\<lparr>closed := ch # closed b\<rparr>)"

definition unsubscribe :: "string \<Rightarrow> nat \<Rightarrow> broker \<Rightarrow> broker" where
  "unsubscribe owner ch b = unsub_close ch (unsub_delete owner ch b)"

text \<open>\<open>select { case ch <- e: default: }\<close>: a send that drops the event when the buffer is full.\<close>

definition try_send :: "event \<Rightarrow> nat \<Rightarrow> broker \<Rightarrow> broker" where
  "try_send e ch b =
     (if ch \<in> set (closed b) then b\<lparr>panicked := True\<rparr>
      else if length (queue b ch) < chan_cap
      then b\<lparr>queue := (queue b)(ch := queue b ch @ [e])\<rparr>
      else b)"

definition Publish :: "string \<Rightarrow> event \<Rightarrow> broker \<Rightarrow> broker" where
  "Publish owner e b = fold (try_send e) (subs_of b owner) b"

definition PublishAll :: "event \<Rightarrow> broker \<Rightarrow> broker" where
  "PublishAll e b = fold (\<lambda>(_, chans). fold (try_send e) chans) (subs b) b"

text \<open>\<open>ev, ok := <-ch\<close> in the stream handler: the oldest buffered event, if there is one.\<close>

definition receive :: "nat \<Rightarrow> broker \<Rightarrow> event option \<times> broker" where
  "receive ch b = (case queue b ch of [] \<Rightarrow> (None, b)
     | e # es \<Rightarrow> (Some e, b\<lparr>queue := (queue b)(ch := es)\<rparr>))"

text \<open>The wire format of one event; \<open>marshal\<close> stands for \<open>json.Marshal\<close> of the payload.\<close>

definition Marshal :: "((string \<times> evval) list \<Rightarrow> string option) \<Rightarrow> event \<Rightarrow> string option" where
  "Marshal marshal e = (case marshal (ev_data e) of None \<Rightarrow> None
     | Some payload \<Rightarrow> Some (''event: '' @ ev_type e @ ''\<newline>data: '' @ payload @ ''\<newline>\<newline>''))"

subsection \<open>Publishing, one channel at a time\<close>

text \<open>What one attempted send does to the channel it targets, and that it does nothing else.\<close>

definition offered :: "event list \<Rightarrow> event \<Rightarrow> event list" where
  "offered q e = (if length q < chan_cap then q @ [e] else q)"

lemma try_send_frame [simp]:
  "subs (try_send e ch b) = subs b" "closed (try_send e ch b) = closed b"
  "next_chan (try_send e ch b) = next_chan b"
  by (simp_all add: try_send_def)

lemma try_send_open:
  "ch \<notin> set (closed b) \<Longrightarrow> panicked (try_send e ch b) = panicked b"
  "ch \<notin> set (closed b) \<Longrightarrow> queue (try_send e ch b) = (queue b)(ch := offered (queue b ch) e)"
  by (auto simp: try_send_def offered_def)

lemma sends_frame [simp]:
  "subs (fold (try_send e) chs b) = subs b" "closed (fold (try_send e) chs b) = closed b"
  "next_chan (fold (try_send e) chs b) = next_chan b"
  by (induction chs arbitrary: b) simp_all

lemma sends_panicked:
  "set chs \<inter> set (closed b) = {} \<Longrightarrow> panicked (fold (try_send e) chs b) = panicked b"
  by (induction chs arbitrary: b) (auto simp: try_send_open)

lemma sends_queue:
  "set chs \<inter> set (closed b) = {} \<Longrightarrow> distinct chs \<Longrightarrow>
   queue (fold (try_send e) chs b) c = (if c \<in> set chs then offered (queue b c) e else queue b c)"
  by (induction chs arbitrary: b) (auto simp: try_send_open)

lemma sends_queue_other:
  "c \<notin> set chs \<Longrightarrow> queue (fold (try_send e) chs b) c = queue b c"
  by (induction chs arbitrary: b) (auto simp: try_send_def)

lemma offered_length: "length q \<le> chan_cap \<Longrightarrow> length (offered q e) \<le> chan_cap"
  by (simp add: offered_def)

lemma fold_offered: "length q \<le> chan_cap \<Longrightarrow> fold (\<lambda>e q. offered q e) es q = take chan_cap (q @ es)"
proof (induction es arbitrary: q)
  case Nil
  then show ?case by simp
next
  case (Cons e es)
  then show ?case by (cases "length q < chan_cap") (auto simp: offered_def take_Cons')
qed

lemma Publish_frame [simp]:
  "subs (Publish o' e b) = subs b" "closed (Publish o' e b) = closed b"
  "next_chan (Publish o' e b) = next_chan b" "subs_of (Publish o' e b) = subs_of b"
  by (simp_all add: Publish_def subs_of_def fun_eq_iff)

lemma PublishAll_frame [simp]:
  "subs (PublishAll e b) = subs b" "closed (PublishAll e b) = closed b"
  "next_chan (PublishAll e b) = next_chan b"
proof -
  have "subs (fold (\<lambda>(_, chans). fold (try_send e) chans) xs b) = subs b \<and>
      closed (fold (\<lambda>(_, chans). fold (try_send e) chans) xs b) = closed b \<and>
      next_chan (fold (\<lambda>(_, chans). fold (try_send e) chans) xs b) = next_chan b"
    for xs :: "(string \<times> nat list) list"
    by (induction xs arbitrary: b) auto
  then show "subs (PublishAll e b) = subs b" "closed (PublishAll e b) = closed b"
    "next_chan (PublishAll e b) = next_chan b" by (simp_all add: PublishAll_def)
qed

subsection \<open>The invariant of the broker\<close>

text \<open>
  A bus is a broker together with the subscribers: \<open>active\<close> holds the (owner, channel) pairs that
  \<open>Subscribe\<close> returned and whose \<open>unsubscribe\<close> has not started, \<open>closing\<close> those that are removed
  and not yet closed.
\<close>

record bus =
  brk :: broker
  active :: "(string \<times> nat) set"
  closing :: "(string \<times> nat) set"

definition bus_start :: "bus \<Rightarrow> bool" where
  "bus_start s \<longleftrightarrow> s = \<lparr>brk = new_broker, active = {}, closing = {}\<rparr>"

inductive bus_step :: "bus \<Rightarrow> bus \<Rightarrow> bool" where
  subscribe: "Subscribe owner (brk s) = (Some ch, b) \<Longrightarrow>
     bus_step s (s\<lparr>brk := b, active := insert (owner, ch) (active s)\<rparr>)"
| refuse: "Subscribe owner (brk s) = (None, b) \<Longrightarrow> bus_step s (s\<lparr>brk := b\<rparr>)"
| delete: "(owner, ch) \<in> active s \<Longrightarrow>
     bus_step s (s\<lparr>brk := unsub_delete owner ch (brk s), active := active s - {(owner, ch)},
       closing := insert (owner, ch) (closing s)\<rparr>)"
| close: "(owner, ch) \<in> closing s \<Longrightarrow>
     bus_step s (s\<lparr>brk := unsub_close ch (brk s), closing := closing s - {(owner, ch)}\<rparr>)"
| publish: "bus_step s (s\<lparr>brk := Publish owner e (brk s)\<rparr>)"
| publish_all: "bus_step s (s\<lparr>brk := PublishAll e (brk s)\<rparr>)"
| receive: "bus_step s (s\<lparr>brk := snd (receive ch (brk s))\<rparr>)"

text \<open>Every map entry is a non-empty, duplicate-free set of at most five channels.\<close>

definition entries_ok :: "broker \<Rightarrow> bool" where
  "entries_ok b \<longleftrightarrow> distinct (map fst (subs b)) \<and>
     (\<forall>owner chans. map_of (subs b) owner = Some chans \<longrightarrow>
        chans \<noteq> [] \<and> distinct chans \<and> length chans \<le> maxConnsPerUser)"

text \<open>Buffers are bounded, channels not made yet are empty, and nothing has panicked.\<close>

definition queues_ok :: "broker \<Rightarrow> bool" where
  "queues_ok b \<longleftrightarrow> (\<forall>c. length (queue b c) \<le> chan_cap) \<and>
     (\<forall>c \<ge> next_chan b. queue b c = []) \<and> \<not> panicked b"

definition bus_inv :: "bus \<Rightarrow> bool" where
  "bus_inv s \<longleftrightarrow> entries_ok (brk s) \<and> queues_ok (brk s) \<and>
     (\<forall>owner ch. ch \<in> set (subs_of (brk s) owner) \<longleftrightarrow> (owner, ch) \<in> active s) \<and>
     (\<forall>p \<in> active s \<union> closing s. snd p < next_chan (brk s) \<and> snd p \<notin> set (closed (brk s))) \<and>
     inj_on snd (active s \<union> closing s) \<and> active s \<inter> closing s = {} \<and>
     (\<forall>c \<in> set (closed (brk s)). c < next_chan (brk s))"

lemma subs_of_aput [simp]:
  "subs_of (b\<lparr>subs := aput owner chans (subs b)\<rparr>) =
     (\<lambda>o'. if o' = owner then chans else subs_of b o')"
  by (auto simp: subs_of_def fun_eq_iff)

lemma subs_of_aput_next [simp]:
  "subs_of (b\<lparr>next_chan := n, subs := aput owner chans (subs b)\<rparr>) =
     (\<lambda>o'. if o' = owner then chans else subs_of b o')"
  by (auto simp: subs_of_def fun_eq_iff)

lemma subs_of_adel [simp]:
  "subs_of (b\<lparr>subs := adel owner (subs b)\<rparr>) = (\<lambda>o'. if o' = owner then [] else subs_of b o')"
  by (auto simp: subs_of_def fun_eq_iff)

lemma subs_of_next_chan [simp]: "subs_of (b\<lparr>next_chan := n\<rparr>) = subs_of b"
  by (simp add: subs_of_def fun_eq_iff)

lemma Subscribe_Some_iff:
  "Subscribe owner b = (Some ch, b') \<longleftrightarrow>
     length (subs_of b owner) < maxConnsPerUser \<and> ch = next_chan b \<and>
     b' = b\<lparr>next_chan := Suc ch, subs := aput owner (ch # subs_of b owner) (subs b)\<rparr>"
  by (auto simp: Subscribe_def Let_def)

lemma Subscribe_None_iff:
  "Subscribe owner b = (None, b') \<longleftrightarrow>
     maxConnsPerUser \<le> length (subs_of b owner) \<and> b' = b\<lparr>next_chan := Suc (next_chan b)\<rparr>"
  by (auto simp: Subscribe_def Let_def subs_of_def maxConnsPerUser_def split: option.splits)

lemma subs_of_unsub_delete [simp]:
  "subs_of (unsub_delete owner ch b) =
     (\<lambda>o'. if o' = owner then removeAll ch (subs_of b owner) else subs_of b o')"
  by (auto simp: unsub_delete_def Let_def fun_eq_iff split: option.splits)
    (simp_all add: subs_of_def)

lemma unsub_delete_frame [simp]:
  "queue (unsub_delete owner ch b) = queue b" "closed (unsub_delete owner ch b) = closed b"
  "next_chan (unsub_delete owner ch b) = next_chan b"
  "panicked (unsub_delete owner ch b) = panicked b"
  by (auto simp: unsub_delete_def Let_def split: option.splits)

lemma entries_ok_unsub_delete: "entries_ok b \<Longrightarrow> entries_ok (unsub_delete owner ch b)"
  by (auto simp: entries_ok_def unsub_delete_def Let_def distinct_removeAll split: option.splits
      if_splits intro: order_trans [OF length_removeAll_less_eq] simp del: map_of_eq_Some_iff)

lemma unsub_close_frame [simp]:
  "subs (unsub_close ch b) = subs b" "queue (unsub_close ch b) = queue b"
  "next_chan (unsub_close ch b) = next_chan b" "subs_of (unsub_close ch b) = subs_of b"
  by (simp_all add: unsub_close_def subs_of_def fun_eq_iff)

lemma entries_ok_Subscribe:
  assumes "entries_ok b" and "ch \<notin> set (subs_of b owner)"
    and "length (subs_of b owner) < maxConnsPerUser"
  shows "entries_ok (b\<lparr>next_chan := n, subs := aput owner (ch # subs_of b owner) (subs b)\<rparr>)"
  using assms by (auto simp: entries_ok_def subs_of_def split: option.splits
      simp del: map_of_eq_Some_iff)

lemma queues_ok_Publish:
  assumes "queues_ok b" and "set chs \<inter> set (closed b) = {}" and "distinct chs"
    and "\<forall>c \<in> set chs. c < next_chan b"
  shows "queues_ok (fold (try_send e) chs b)"
  using assms by (auto simp: queues_ok_def sends_queue sends_panicked offered_length)

lemma queues_ok_PublishAll:
  assumes "queues_ok b"
    and "\<forall>(o', chs) \<in> set xs. set chs \<inter> set (closed b) = {} \<and> distinct chs \<and> (\<forall>c \<in> set chs. c < next_chan b)"
  shows "queues_ok (fold (\<lambda>(_, chans). fold (try_send e) chans) xs b)"
  using assms
proof (induction xs arbitrary: b)
  case Nil
  then show ?case by simp
next
  case (Cons x xs)
  obtain o' chs where x: "x = (o', chs)" by (cases x)
  have "queues_ok (fold (try_send e) chs b)"
    by (rule queues_ok_Publish) (use Cons.prems x in auto)
  then show ?case using Cons.IH [of "fold (try_send e) chs b"] Cons.prems x by simp
qed

lemma subs_of_cases: "subs_of b owner = [] \<or> map_of (subs b) owner = Some (subs_of b owner)"
  by (simp add: subs_of_def split: option.splits)

lemma subs_of_ok:
  "entries_ok b \<Longrightarrow> distinct (subs_of b owner) \<and> length (subs_of b owner) \<le> maxConnsPerUser"
  using subs_of_cases [of b owner] by (auto simp: entries_ok_def)

lemma entries_frame [simp]:
  "entries_ok (unsub_close ch b) = entries_ok b" "entries_ok (Publish o' e b) = entries_ok b"
  "entries_ok (PublishAll e b) = entries_ok b"
  by (simp_all add: entries_ok_def)

lemma bus_start_inv: "bus_start s \<Longrightarrow> bus_inv s"
  by (simp add: bus_start_def bus_inv_def new_broker_def entries_ok_def queues_ok_def subs_of_def)

lemma bus_inv_fresh:
  "bus_inv s \<Longrightarrow> (o', next_chan (brk s)) \<notin> active s \<union> closing s \<and>
     next_chan (brk s) \<notin> set (closed (brk s)) \<and> next_chan (brk s) \<notin> set (subs_of (brk s) o')"
  unfolding bus_inv_def by force

lemma bus_inv_sub:
  assumes "bus_inv s" and "c \<in> set (subs_of (brk s) o')"
  shows "c < next_chan (brk s)" and "c \<notin> set (closed (brk s))"
proof -
  have "(o', c) \<in> active s" using assms by (simp add: bus_inv_def)
  then show "c < next_chan (brk s)" and "c \<notin> set (closed (brk s))"
    using assms(1) unfolding bus_inv_def by force+
qed

lemma bus_inv_parts: "bus_inv s \<Longrightarrow> queues_ok (brk s)" "bus_inv s \<Longrightarrow> entries_ok (brk s)"
  by (simp_all add: bus_inv_def)

lemma bus_inv_entry:
  assumes "bus_inv s" and "(o', chs) \<in> set (subs (brk s))"
  shows "set chs \<inter> set (closed (brk s)) = {} \<and> distinct chs \<and> (\<forall>c \<in> set chs. c < next_chan (brk s))"
proof -
  have d: "distinct (map fst (subs (brk s)))"
    using assms(1) by (simp add: bus_inv_def entries_ok_def)
  then have m: "map_of (subs (brk s)) o' = Some chs" using assms(2) by simp
  then have "subs_of (brk s) o' = chs" by (simp add: subs_of_def)
  moreover have "distinct chs"
    using assms(1) m d unfolding bus_inv_def entries_ok_def by blast
  ultimately show ?thesis using bus_inv_sub [OF assms(1), of _ o'] by auto
qed

lemma bus_inv_subscribed:
  assumes inv: "bus_inv s" and s: "t = s\<lparr>brk := b, active := insert (owner, ch) (active s)\<rparr>"
    and sub: "Subscribe owner (brk s) = (Some ch, b)"
  shows "bus_inv t"
proof -
  note fresh = bus_inv_fresh [OF inv]
  have "entries_ok b"
    using inv s sub fresh unfolding Subscribe_Some_iff
    by (auto simp: bus_inv_def intro!: entries_ok_Subscribe)
  moreover have "queues_ok b"
    using inv s sub unfolding Subscribe_Some_iff by (auto simp: bus_inv_def queues_ok_def)
  moreover have "inj_on snd (active t \<union> closing t)"
    using inv s sub fresh unfolding Subscribe_Some_iff bus_inv_def
    by (auto simp: inj_on_insert image_iff)
  ultimately show ?thesis
    using inv s sub fresh unfolding Subscribe_Some_iff bus_inv_def
    by (auto simp: less_Suc_eq)
qed

lemma bus_inv_refused:
  assumes "bus_inv s" "t = s\<lparr>brk := b\<rparr>" "Subscribe owner (brk s) = (None, b)"
  shows "bus_inv t"
proof -
  from assms show ?thesis
    unfolding Subscribe_None_iff bus_inv_def queues_ok_def entries_ok_def
    by (auto simp: less_Suc_eq)
qed

lemma bus_inv_deleted:
  assumes inv: "bus_inv s" and mem: "(owner, ch) \<in> active s" and s: "t = s\<lparr>brk := unsub_delete owner ch (brk s), active := active s - {(owner, ch)},
       closing := insert (owner, ch) (closing s)\<rparr>"
  shows "bus_inv t"
proof -
  have un: "active t \<union> closing t = active s \<union> closing s" using mem s by auto
  have "entries_ok (brk t)" "queues_ok (brk t)" "active t \<inter> closing t = {}"
    using inv s by (auto simp: bus_inv_def entries_ok_unsub_delete queues_ok_def)
  moreover have "\<forall>owner ch. ch \<in> set (subs_of (brk t) owner) \<longleftrightarrow> (owner, ch) \<in> active t"
    using inv s by (auto simp: bus_inv_def)
  moreover have "next_chan (brk t) = next_chan (brk s)" "closed (brk t) = closed (brk s)"
    using s by simp_all
  ultimately show ?thesis
    using inv unfolding bus_inv_def un by presburger
qed

lemma bus_inv_closed:
  assumes inv: "bus_inv s" "(owner, ch) \<in> closing s"
    "t = s\<lparr>brk := unsub_close ch (brk s), closing := closing s - {(owner, ch)}\<rparr>"
  shows "bus_inv t"
proof -
  from assms have ch: "ch < next_chan (brk s) \<and> ch \<notin> set (closed (brk s))"
    unfolding bus_inv_def by (metis UnCI snd_conv)
  have other: "snd p \<noteq> ch" if "p \<in> active s \<union> (closing s - {(owner, ch)})" for p
    using that inv unfolding bus_inv_def inj_on_def by (metis Diff_iff IntI UnCI UnE empty_iff insertCI snd_conv)
  have sub: "active s \<union> (closing s - {(owner, ch)}) \<subseteq> active s \<union> closing s" by blast
  have "inj_on snd (active s \<union> closing s)" using inv by (simp add: bus_inv_def)
  from inj_on_subset [OF this sub] have "inj_on snd (active t \<union> closing t)"
    using inv by simp
  moreover have "entries_ok (brk t)" "subs_of (brk t) = subs_of (brk s)" "active t = active s"
      "next_chan (brk t) = next_chan (brk s)" "closing t = closing s - {(owner, ch)}"
    using inv by (simp_all add: bus_inv_def)
  moreover have "queues_ok (brk t)" "closed (brk t) = ch # closed (brk s)"
    using inv ch by (auto simp: bus_inv_def queues_ok_def unsub_close_def)
  ultimately show ?thesis
    using inv ch other unfolding bus_inv_def by auto
qed

lemma bus_inv_published:
  assumes inv: "bus_inv s" "t = s\<lparr>brk := Publish owner e (brk s)\<rparr>"
  shows "bus_inv t"
proof -
  have "queues_ok (Publish owner e (brk s))"
    unfolding Publish_def
  proof (rule queues_ok_Publish)
    note inv' = inv(1)
    show "queues_ok (brk s)" by (rule bus_inv_parts [OF inv'])
    show "distinct (subs_of (brk s) owner)"
      using subs_of_ok [OF bus_inv_parts(2) [OF inv']] by blast
    show "set (subs_of (brk s) owner) \<inter> set (closed (brk s)) = {}"
      using bus_inv_sub(2) [OF inv'] by blast
    show "\<forall>c \<in> set (subs_of (brk s) owner). c < next_chan (brk s)"
      using bus_inv_sub(1) [OF inv'] by blast
  qed
  with inv show ?thesis by (simp add: bus_inv_def)
qed

lemma bus_inv_broadcast:
  assumes inv: "bus_inv s" "t = s\<lparr>brk := PublishAll e (brk s)\<rparr>"
  shows "bus_inv t"
proof -
  have "queues_ok (PublishAll e (brk s))"
    unfolding PublishAll_def
  proof (rule queues_ok_PublishAll)
    note inv' = inv(1)
    show "queues_ok (brk s)" by (rule bus_inv_parts [OF inv'])
    show "\<forall>(o', chs) \<in> set (subs (brk s)). set chs \<inter> set (closed (brk s)) = {} \<and> distinct chs \<and>
        (\<forall>c \<in> set chs. c < next_chan (brk s))"
      using bus_inv_entry [OF inv'] by blast
  qed
  moreover have "subs_of (PublishAll e (brk s)) = subs_of (brk s)"
    by (simp add: subs_of_def fun_eq_iff)
  ultimately show ?thesis using inv by (simp add: bus_inv_def)
qed

lemma bus_inv_received:
  assumes "bus_inv s" "t = s\<lparr>brk := snd (receive ch (brk s))\<rparr>"
  shows "bus_inv t"
proof -
  from assms show ?thesis
    unfolding bus_inv_def queues_ok_def entries_ok_def receive_def
    by (auto simp: subs_of_def split: list.splits dest: spec [of _ ch])
qed

lemmas bus_inv_steps = bus_inv_subscribed bus_inv_refused bus_inv_deleted bus_inv_closed bus_inv_published bus_inv_broadcast bus_inv_received

lemma bus_step_inv: "bus_inv s \<Longrightarrow> bus_step s t \<Longrightarrow> bus_inv t"
  by (rotate_tac 1, induction rule: bus_step.induct) (blast intro: bus_inv_steps)+

interpretation bus: transition_system bus_start bus_step bus_inv
  by unfold_locales (auto intro: bus_start_inv bus_step_inv)

subsection \<open>What subscribers see\<close>

lemma Publish_queue:
  assumes "bus_inv s"
  shows "queue (Publish owner e (brk s)) c =
    (if c \<in> set (subs_of (brk s) owner) then offered (queue (brk s) c) e else queue (brk s) c)"
proof -
  have "set (subs_of (brk s) owner) \<inter> set (closed (brk s)) = {}"
    using bus_inv_sub(2) [OF assms] by blast
  then show ?thesis
    using subs_of_ok [OF bus_inv_parts(2) [OF assms]] by (simp add: Publish_def sends_queue)
qed

lemma Publish_many_queue:
  "bus_inv s \<Longrightarrow> queue (fold (Publish owner) es (brk s)) c =
    (if c \<in> set (subs_of (brk s) owner) then take chan_cap (queue (brk s) c @ es) else queue (brk s) c)"
proof (induction es arbitrary: s)
  case Nil
  then have "length (queue (brk s) c) \<le> chan_cap"
    using bus_inv_parts by (simp add: queues_ok_def)
  then show ?case by simp
next
  case (Cons e es)
  let ?t = "s\<lparr>brk := Publish owner e (brk s)\<rparr>"
  have "bus_inv ?t" by (rule bus_step_inv [OF Cons.prems bus_step.publish])
  note IH = Cons.IH [OF this]
  have len: "length (queue (brk s) c) \<le> chan_cap"
    using bus_inv_parts [OF Cons.prems] by (simp add: queues_ok_def)
  show ?case
    using IH len by (auto simp: Publish_queue [OF Cons.prems] offered_def take_Cons')
qed

text \<open>
  C24. No interleaving of subscribing, publishing, receiving and the two halves of unsubscribing
  sends on a closed channel or closes one twice, and in every reachable state each owner holds at
  most five channels, each with at most 32 buffered events.
\<close>

theorem broker_safe:
  assumes "bus_start s" and "bus_step\<^sup>*\<^sup>* s t"
  shows "\<not> panicked (brk t) \<and> length (subs_of (brk t) owner) \<le> maxConnsPerUser \<and>
    length (queue (brk t) ch) \<le> chan_cap"
proof -
  have "bus_inv t" by (rule bus.reachable_good [OF assms])
  then show ?thesis
    using bus_inv_parts subs_of_ok by (simp add: queues_ok_def)
qed

theorem broker_safe_witness:
  "\<not> panicked (unsubscribe ''o'' 0 (snd (Subscribe ''o'' new_broker)))"
proof -
  let ?s0 = "\<lparr>brk = new_broker, active = {}, closing = {}\<rparr>"
  let ?b1 = "snd (Subscribe ''o'' new_broker)"
  let ?s1 = "?s0\<lparr>brk := ?b1, active := {(''o'', 0)}\<rparr>"
  let ?s2 = "?s1\<lparr>brk := unsub_delete ''o'' 0 ?b1, active := {}, closing := {(''o'', 0)}\<rparr>"
  let ?s3 = "?s2\<lparr>brk := unsub_close 0 (brk ?s2), closing := {}\<rparr>"
  have b1: "Subscribe ''o'' new_broker = (Some 0, ?b1)"
    by (simp add: Subscribe_def new_broker_def subs_of_def maxConnsPerUser_def Let_def)
  have "bus_step ?s0 ?s1" using bus_step.subscribe [of "''o''" ?s0 0 ?b1] b1 by simp
  moreover have "bus_step ?s1 ?s2" using bus_step.delete [of "''o''" 0 ?s1] by simp
  moreover have "bus_step ?s2 ?s3" using bus_step.close [of "''o''" 0 ?s2] by simp
  ultimately have steps: "bus_step\<^sup>*\<^sup>* ?s0 ?s3"
    by (meson converse_rtranclp_into_rtranclp rtranclp.rtrancl_refl)
  show ?thesis
    using broker_safe [OF _ steps, of "''o''" 0] by (simp add: bus_start_def unsubscribe_def)
qed

text \<open>
  A stream is refused exactly when the owner already holds five open ones, so ending a stream
  always frees a slot.
\<close>

theorem Subscribe_refused_iff:
  assumes "bus_start s" and "bus_step\<^sup>*\<^sup>* s t"
  shows "fst (Subscribe owner (brk t)) = None \<longleftrightarrow> card {ch. (owner, ch) \<in> active t} = maxConnsPerUser"
proof -
  have inv: "bus_inv t" by (rule bus.reachable_good [OF assms])
  have "{ch. (owner, ch) \<in> active t} = set (subs_of (brk t) owner)"
    using inv by (auto simp: bus_inv_def)
  then have "card {ch. (owner, ch) \<in> active t} = length (subs_of (brk t) owner)"
    using subs_of_ok [OF bus_inv_parts(2) [OF inv]] by (simp add: distinct_card)
  moreover have "fst (Subscribe owner (brk t)) = None \<longleftrightarrow>
      maxConnsPerUser \<le> length (subs_of (brk t) owner)"
    by (simp add: Subscribe_def Let_def)
  ultimately show ?thesis
    using subs_of_ok [OF bus_inv_parts(2) [OF inv], of owner] by linarith
qed

theorem Subscribe_refused_iff_witness:
  "fst (Subscribe ''o'' new_broker) \<noteq> None"
  using Subscribe_refused_iff [of "\<lparr>brk = new_broker, active = {}, closing = {}\<rparr>"
      "\<lparr>brk = new_broker, active = {}, closing = {}\<rparr>" "''o''"]
  by (simp add: bus_start_def maxConnsPerUser_def)

text \<open>
  Delivery: after any sequence of events is published to an owner, each of the owner's channels
  holds the first 32 of what it held followed by the events, in order and without duplication (a
  slow consumer loses the newest events, not the oldest), and no other owner's channel changes.
\<close>

theorem Publish_delivery:
  assumes "bus_start s" and "bus_step\<^sup>*\<^sup>* s t"
  shows "queue (fold (Publish owner) es (brk t)) ch =
    (if (owner, ch) \<in> active t then take chan_cap (queue (brk t) ch @ es) else queue (brk t) ch)"
proof -
  have inv: "bus_inv t" by (rule bus.reachable_good [OF assms])
  then have "ch \<in> set (subs_of (brk t) owner) \<longleftrightarrow> (owner, ch) \<in> active t"
    by (simp add: bus_inv_def)
  with Publish_many_queue [OF inv, of owner es ch] show ?thesis by simp
qed

theorem Publish_delivery_witness:
  "queue (fold (Publish ''o'') [\<lparr>ev_type = ''x'', ev_data = []\<rparr>] (snd (Subscribe ''o'' new_broker))) 0 =
     [\<lparr>ev_type = ''x'', ev_data = []\<rparr>]"
proof -
  let ?s0 = "\<lparr>brk = new_broker, active = {}, closing = {}\<rparr>"
  let ?b1 = "snd (Subscribe ''o'' new_broker)"
  let ?s1 = "?s0\<lparr>brk := ?b1, active := {(''o'', 0)}\<rparr>"
  have b1: "Subscribe ''o'' new_broker = (Some 0, ?b1)"
    by (simp add: Subscribe_def new_broker_def subs_of_def maxConnsPerUser_def Let_def)
  have "bus_step ?s0 ?s1" using bus_step.subscribe [of "''o''" ?s0 0 ?b1] b1 by simp
  then have "bus_step\<^sup>*\<^sup>* ?s0 ?s1" by blast
  from Publish_delivery [OF _ this, of "''o''" "[\<lparr>ev_type = ''x'', ev_data = []\<rparr>]" 0]
  show ?thesis
    by (simp add: bus_start_def chan_cap_def Subscribe_def new_broker_def subs_of_def
        maxConnsPerUser_def Let_def)
qed

subsection \<open>Framing on the wire\<close>

text \<open>A stream is cut at line ends; a frame is an event line, a data line and an empty line.\<close>

fun sse_frames :: "string list \<Rightarrow> (string \<times> string) list" where
  "sse_frames (l1 # l2 # [] # ls) =
     (trim_prefix ''event: '' l1, trim_prefix ''data: '' l2) # sse_frames ls"
| "sse_frames _ = []"

definition sse_read :: "string \<Rightarrow> (string \<times> string) list" where
  "sse_read s = sse_frames (split_on CHR ''\<newline>'' s)"

lemma split_on_append: "d \<notin> set w \<Longrightarrow> split_on d (w @ d # s) = w # split_on d s"
  by (induction w) auto

lemma sse_read_frame:
  assumes "CHR ''\<newline>'' \<notin> set ty" and "CHR ''\<newline>'' \<notin> set pay"
  shows "sse_read (''event: '' @ ty @ ''\<newline>data: '' @ pay @ ''\<newline>\<newline>'' @ s) =
    (ty, pay) # sse_read s"
proof -
  have "split_on CHR ''\<newline>'' ((''event: '' @ ty) @ CHR ''\<newline>'' #
      ((''data: '' @ pay) @ CHR ''\<newline>'' # ([] @ CHR ''\<newline>'' # s))) =
      (''event: '' @ ty) # (''data: '' @ pay) # [] # split_on CHR ''\<newline>'' s"
    using assms by (subst split_on_append, simp)+ simp
  then show ?thesis by (simp add: sse_read_def trim_prefix_def)
qed

text \<open>
  C25. The event stream can be read back: the frames that \<open>Marshal\<close> writes, concatenated, decode to
  the event types and payloads in order, provided types and payloads contain no line feed (which
  \<open>json.Marshal\<close> documents for its output: control characters are escaped).
\<close>

theorem sse_roundtrip:
  assumes "\<forall>e \<in> set es. CHR ''\<newline>'' \<notin> set (ev_type e)"
    and "\<forall>d p. marshal d = Some p \<longrightarrow> CHR ''\<newline>'' \<notin> set p"
    and "\<forall>e \<in> set es. marshal (ev_data e) \<noteq> None"
  shows "sse_read (concat (map (\<lambda>e. the (Marshal marshal e)) es)) =
    map (\<lambda>e. (ev_type e, the (marshal (ev_data e)))) es"
  using assms(1,3)
proof (induction es)
  case Nil
  then show ?case by (simp add: sse_read_def)
next
  case (Cons e es)
  then obtain p where p: "marshal (ev_data e) = Some p" by auto
  with Cons assms(2) show ?case
    using sse_read_frame [of "ev_type e" p] by (simp add: Marshal_def)
qed

theorem sse_roundtrip_witness:
  "sse_read (concat (map (\<lambda>e. the (Marshal (\<lambda>_. Some ''{}'') e))
     [\<lparr>ev_type = ''worker_left'', ev_data = []\<rparr>, \<lparr>ev_type = ''miner_status'', ev_data = []\<rparr>])) =
   [(''worker_left'', ''{}''), (''miner_status'', ''{}'')]"
  using sse_roundtrip [of "[\<lparr>ev_type = ''worker_left'', ev_data = []\<rparr>,
      \<lparr>ev_type = ''miner_status'', ev_data = []\<rparr>]" "\<lambda>_. Some ''{}''"]
  by simp

end
