(* ===== verification/Tables.thy ===== *)
theory Tables
  imports GoStrings "HOL-Library.List_Lexorder" "HOL-Library.Char_ord" "HOL-Library.Multiset"
begin

text \<open>
  The database as the program sees it: the rows of every table of deploy/migrations/V1__init.sql as
  records, the environment the statements depend on, and the two primitives that run a statement.

  A statement either fails as a whole (no effect) or applies. What the program cannot control is a
  parameter, in \<open>db_env\<close>: which statements fail (\<open>fault\<close>: connection loss, cancelled contexts, any
  other error of the server), what \<open>now()\<close> returns (\<open>clock\<close>, in nanoseconds, as Go's durations), the
  uuids that \<open>gen_random_uuid()\<close> yields, which uuid a text parameter denotes (\<open>uuid_of\<close>; \<open>None\<close> is a
  malformed one, which is an error, not an empty result), the text form of a \<open>jsonb\<close> value
  (\<open>jsonb_text\<close>), pgcrypto's randomised encryption (\<open>pgp_sym_encrypt\<close>), and the order in which rows come back when a query has no \<open>ORDER BY\<close> (\<open>row_rank\<close>). All are indexed by \<open>tick\<close>, the number of statements run.

  Floating point and \<open>numeric\<close> values are rationals: no property depends on rounding.
\<close>

subsection \<open>Values\<close>

datatype json =
    JNull
  | JBool bool
  | JNum rat
  | JStr string
  | JArr "json list"
  | JObj "(string \<times> json) list"

text \<open>Errors of a statement, and of a store method.\<close>

datatype pgerr = NoRows | UniqueViolation | ForeignKeyViolation | CheckViolation | BadInput | Unavailable

datatype store_err = ErrNotFound | ErrConflict | PgErr pgerr

subsection \<open>Rows\<close>

record currency =
  cur_id :: string
  symbol :: string
  cur_name :: string
  algorithm :: string
  hardware_class :: string
  engine_strategy :: string
  adapter_config :: "json option"
  min_vram :: "int option"
  explorer_tx_tpl :: string
  explorer_addr_tpl :: string
  homepage :: string
  pools :: json
  enabled :: bool
  deferred_note :: "string option"

record wallet_row =
  w_id :: string
  w_owner :: string
  w_currency :: string
  w_address :: string
  w_label :: "string option"
  w_validated :: bool
  w_created :: int

record miner_row =
  m_id :: string
  m_owner :: string
  m_name :: string
  m_currency :: string
  m_wallet :: "string option"
  m_engine :: string
  m_pool :: string
  m_cpu :: int
  m_gpu :: int
  m_status :: string
  m_created :: int
  m_updated :: int

record run_row =
  r_id :: string
  r_miner :: string
  r_started :: int
  r_stopped :: "int option"
  r_reason :: "string option"
  r_avg :: "rat option"
  r_acc :: i64
  r_rej :: i64

record worker_row =
  k_id :: string
  k_owner :: string
  k_name :: string
  k_kind :: string
  k_os :: string
  k_arch :: string
  k_cpu :: string
  k_cores :: int
  k_gpu :: string
  k_vram :: int
  k_caps :: "json option"
  k_token :: string
  k_status :: string
  k_seen :: "int option"
  k_enrolled :: int
  k_revoked :: "int option"

record code_row =
  c_id :: string
  c_owner :: string
  c_hash :: string
  c_expires :: int
  c_consumed_by :: "string option"
  c_consumed_at :: "int option"
  c_created :: int

record job_row =
  j_id :: string
  j_miner :: string
  j_worker :: string
  j_assigned :: int
  j_ended :: "int option"
  j_status :: string

record sample_row =
  s_miner :: string
  s_worker :: "string option"
  s_ts :: int
  s_rate :: rat
  s_acc :: int
  s_rej :: int

record rollup_row =
  u_miner :: string
  u_bucket :: int
  u_avg :: rat
  u_max :: rat
  u_acc :: int
  u_rej :: int

record payout_row =
  p_id :: string
  p_owner :: string
  p_currency :: string
  p_wallet :: "string option"
  p_amount :: rat
  p_txid :: "string option"
  p_url :: "string option"
  p_pool :: "string option"
  p_verified :: bool
  p_paid :: "int option"
  p_detected :: int
  p_raw :: json

record curset_row =
  cs_owner :: string
  cs_currency :: string
  cs_pool :: "string option"
  cs_enabled :: bool
  cs_adapter :: "json option"

record exchange_row =
  x_owner :: string
  x_exchange :: string
  x_currencies :: "string list"
  x_key :: "string option"

record block_row =
  b_id :: string
  b_miner :: "string option"
  b_currency :: string
  b_height :: "int option"
  b_hash :: "string option"
  b_found :: "int option"
  b_source :: "string option"
  b_url :: "string option"

subsection \<open>The database and its statements\<close>

record db_env =
  fault :: "nat \<Rightarrow> bool"
  clock :: "nat \<Rightarrow> int"
  fresh_uuid :: "nat \<Rightarrow> string"
  uuid_of :: "string \<Rightarrow> string option"
  row_rank :: "nat \<Rightarrow> nat \<Rightarrow> nat"
  jsonb_text :: "json \<Rightarrow> string"
  pgp_sym_encrypt :: "nat \<Rightarrow> string \<Rightarrow> string \<Rightarrow> string"

record db =
  env :: db_env
  tick :: nat
  currencies :: "currency list"
  wallets :: "wallet_row list"
  miners :: "miner_row list"
  runs :: "run_row list"
  workers :: "worker_row list"
  codes :: "code_row list"
  jobs :: "job_row list"
  samples :: "sample_row list"
  rollups :: "rollup_row list"
  payouts :: "payout_row list"
  settings :: "((string \<times> string) \<times> json) list"
  curset :: "curset_row list"
  exchanges :: "exchange_row list"
  blocks :: "block_row list"

abbreviation bump :: "db \<Rightarrow> db" where
  "bump s \<equiv> s\<lparr>tick := Suc (tick s)\<rparr>"

definition db_now :: "db \<Rightarrow> int" where
  "db_now s = clock (env s) (tick s)"

definition new_uuid :: "db \<Rightarrow> string" where
  "new_uuid s = fresh_uuid (env s) (tick s)"

text \<open>One statement: it fails with no effect, or yields a result and the changed tables.\<close>

definition sql :: "(db \<Rightarrow> pgerr + ('a \<times> db)) \<Rightarrow> (db, pgerr + 'a) state" where
  "sql f = State (\<lambda>s. if fault (env s) (tick s) then (Inl Unavailable, bump s)
     else case f s of Inl e \<Rightarrow> (Inl e, bump s) | Inr (a, t) \<Rightarrow> (Inr a, bump t))"

definition query :: "(db \<Rightarrow> pgerr + 'a) \<Rightarrow> (db, pgerr + 'a) state" where
  "query f = sql (\<lambda>s. case f s of Inl e \<Rightarrow> Inl e | Inr a \<Rightarrow> Inr (a, s))"

text \<open>\<open>QueryRow(..).Scan(..)\<close> on a single-row result.\<close>

definition one_row :: "'a list \<Rightarrow> pgerr + 'a" where
  "one_row rs = (case rs of [] \<Rightarrow> Inl NoRows | r # _ \<Rightarrow> Inr r)"

definition chain :: "'e + 'a \<Rightarrow> ('a \<Rightarrow> 'e + 'b) \<Rightarrow> 'e + 'b" where
  "chain r k = (case r of Inl e \<Rightarrow> Inl e | Inr a \<Rightarrow> k a)"

definition require :: "bool \<Rightarrow> 'e \<Rightarrow> 'e + 'a \<Rightarrow> 'e + 'a" where
  "require b e r = (if b then r else Inl e)"

lemma chain_Inr: "chain r k = Inr b \<longleftrightarrow> (\<exists>a. r = Inr a \<and> k a = Inr b)"
  by (cases r) (simp_all add: chain_def)

lemma require_Inr: "require b e r = Inr a \<longleftrightarrow> b \<and> r = Inr a"
  by (simp add: require_def)

lemma one_row_Inr: "one_row rs = Inr r \<longleftrightarrow> (\<exists>rest. rs = r # rest)"
  by (cases rs) (simp_all add: one_row_def)

lemma one_row_Inl: "one_row rs = Inl e \<longleftrightarrow> rs = [] \<and> e = NoRows"
  by (cases rs) (auto simp: one_row_def)

text \<open>A text parameter bound to a uuid column.\<close>

definition with_uuid :: "db \<Rightarrow> string \<Rightarrow> (string \<Rightarrow> pgerr + 'a) \<Rightarrow> pgerr + 'a" where
  "with_uuid s x k = (case uuid_of (env s) x of None \<Rightarrow> Inl BadInput | Some u \<Rightarrow> k u)"

lemma with_uuid_Inr: "with_uuid s x k = Inr a \<longleftrightarrow> (\<exists>u. uuid_of (env s) x = Some u \<and> k u = Inr a)"
  by (auto simp: with_uuid_def split: option.splits)

text \<open>A uuid parameter that may be \<open>NULL\<close> (a nil pointer).\<close>

definition with_uuid_opt :: "db \<Rightarrow> string option \<Rightarrow> (string option \<Rightarrow> pgerr + 'a) \<Rightarrow> pgerr + 'a" where
  "with_uuid_opt s x k = (case x of None \<Rightarrow> k None | Some y \<Rightarrow> with_uuid s y (\<lambda>u. k (Some u)))"

lemma with_uuid_opt_Inr: "with_uuid_opt s x k = Inr a \<longleftrightarrow>
  (case x of None \<Rightarrow> k None = Inr a | Some y \<Rightarrow> (\<exists>u. uuid_of (env s) y = Some u \<and> k (Some u) = Inr a))"
  by (simp add: with_uuid_opt_def with_uuid_Inr split: option.splits)

lemma with_uuid_ex: "with_uuid s x k = Inr a \<Longrightarrow> \<exists>u. k u = Inr a"
  by (auto simp: with_uuid_Inr)

lemma with_uuid_opt_ex: "with_uuid_opt s x k = Inr a \<Longrightarrow> \<exists>w. k w = Inr a"
  by (auto simp: with_uuid_opt_Inr split: option.splits)

text \<open>A generated key: the primary key refuses one that is taken.\<close>

definition with_new_id :: "db \<Rightarrow> string list \<Rightarrow> (string \<Rightarrow> pgerr + 'a) \<Rightarrow> pgerr + 'a" where
  "with_new_id s taken k = (if new_uuid s \<in> set taken then Inl UniqueViolation else k (new_uuid s))"

lemma with_new_id_Inr: "with_new_id s taken k = Inr a \<longleftrightarrow> new_uuid s \<notin> set taken \<and> k (new_uuid s) = Inr a"
  by (simp add: with_new_id_def)

lemmas stmt_simps = chain_Inr require_Inr one_row_Inr with_uuid_Inr with_uuid_opt_Inr with_new_id_Inr

text \<open>Rows in no particular order: \<open>row_rank\<close> says where the row at each position comes.\<close>

definition unordered :: "db \<Rightarrow> 'r list \<Rightarrow> 'r list" where
  "unordered s rs = map snd (sort_key (\<lambda>p. row_rank (env s) (tick s) (fst p)) (enumerate 0 rs))"

lemma mset_unordered [simp]: "mset (unordered s rs) = mset rs"
proof -
  have "mset (unordered s rs) = image_mset snd (mset (enumerate 0 rs))"
    by (simp add: unordered_def)
  also have "\<dots> = mset (map snd (enumerate 0 rs))" by (simp only: mset_map)
  finally show ?thesis by simp
qed

lemma set_unordered [simp]: "set (unordered s rs) = set rs"
  using mset_eq_setD [OF mset_unordered] .

lemma length_unordered [simp]: "length (unordered s rs) = length rs"
  using mset_eq_length [OF mset_unordered] .

lemma unordered_Nil_iff [simp]: "unordered s rs = [] \<longleftrightarrow> rs = []"
  by (metis length_0_conv length_unordered)

lemma unordered_Nil [simp]: "unordered s [] = []"
  by simp

lemma unordered_single [simp]: "unordered s [r] = [r]"
  by (simp add: unordered_def)

text \<open>\<open>ORDER BY\<close>: rows with equal keys come in no particular order.\<close>

definition order_by :: "db \<Rightarrow> ('r \<Rightarrow> 'k::linorder) \<Rightarrow> 'r list \<Rightarrow> 'r list" where
  "order_by s k rs = sort_key k (unordered s rs)"

lemma set_order_by [simp]: "set (order_by s k rs) = set rs"
  by (simp add: order_by_def)

lemma mset_order_by [simp]: "mset (order_by s k rs) = mset rs"
  by (simp add: order_by_def)

lemma sorted_order_by [simp]: "sorted (map k (order_by s k rs))"
  by (simp add: order_by_def)

lemma order_by_single [simp]: "order_by s k [r] = [r]"
  by (simp add: order_by_def)

lemma order_by_Nil [simp]: "order_by s k [] = []"
  by (simp add: order_by_def)

text \<open>\<open>LIMIT\<close> and \<open>OFFSET\<close>: a negative count is an error of the server.\<close>

definition limit_offset :: "int \<Rightarrow> int \<Rightarrow> 'r list \<Rightarrow> pgerr + 'r list" where
  "limit_offset n m rs = (if n < 0 \<or> m < 0 then Inl BadInput else Inr (take (nat n) (drop (nat m) rs)))"

definition int4 :: "int \<Rightarrow> bool" where
  "int4 n \<longleftrightarrow> - (2 ^ 31) \<le> n \<and> n < 2 ^ 31"

text \<open>\<open>notFoundIfEmpty\<close> and the plain propagation of an error.\<close>

definition notFoundIfEmpty :: "pgerr \<Rightarrow> store_err" where
  "notFoundIfEmpty e = (if e = NoRows then ErrNotFound else PgErr e)"

definition isUniqueViolation :: "pgerr \<Rightarrow> bool" where
  "isUniqueViolation e \<longleftrightarrow> e = UniqueViolation"

definition on_err :: "('e \<Rightarrow> 'f) \<Rightarrow> ('s, 'e + 'a) state \<Rightarrow> ('s, 'f + 'a) state" where
  "on_err g m = do { r \<leftarrow> m; ret (map_sum g id r) }"

text \<open>Continue with the value, or return early with the error: \<open>if err != nil { return err }\<close>.\<close>

definition and_then :: "('s, 'e + 'a) state \<Rightarrow> ('a \<Rightarrow> ('s, 'e + 'b) state) \<Rightarrow> ('s, 'e + 'b) state" where
  "and_then m k = do { r \<leftarrow> m; case r of Inl e \<Rightarrow> ret (Inl e) | Inr a \<Rightarrow> k a }"

lemma run_sql:
  "run_state (sql f) s = (if fault (env s) (tick s) then (Inl Unavailable, bump s)
     else case f s of Inl e \<Rightarrow> (Inl e, bump s) | Inr (a, t) \<Rightarrow> (Inr a, bump t))"
  by (simp add: sql_def)

lemma run_query:
  "run_state (query f) s = (if fault (env s) (tick s) then Inl Unavailable else f s, bump s)"
  by (simp add: query_def run_sql split: sum.splits)

lemma run_on_err:
  "run_state (on_err g m) s = (case run_state m s of (r, t) \<Rightarrow> (map_sum g id r, t))"
  by (simp add: on_err_def)

lemma run_and_then:
  "run_state (and_then m k) s = (case run_state m s of
     (Inl e, t) \<Rightarrow> (Inl e, t) | (Inr a, t) \<Rightarrow> run_state (k a) t)"
  by (auto simp: and_then_def split: prod.splits sum.splits)

text \<open>Inversion of a successful run: what each statement found and did.\<close>

lemma sql_Inr: "run_state (sql f) s = (Inr a, t) \<longleftrightarrow>
  \<not> fault (env s) (tick s) \<and> (\<exists>u. f s = Inr (a, u) \<and> t = bump u)"
  by (auto simp: run_sql split: sum.splits)

lemma query_Inr: "run_state (query f) s = (Inr a, t) \<longleftrightarrow>
  \<not> fault (env s) (tick s) \<and> f s = Inr a \<and> t = bump s"
  by (auto simp: run_query)

lemma on_err_Inr: "run_state (on_err g m) s = (Inr a, t) \<longleftrightarrow> run_state m s = (Inr a, t)"
  by (cases "fst (run_state m s)") (auto simp: run_on_err split: prod.splits)

lemma and_then_Inr: "run_state (and_then m k) s = (Inr b, t) \<longleftrightarrow>
  (\<exists>a u. run_state m s = (Inr a, u) \<and> run_state (k a) u = (Inr b, t))"
  by (auto simp: run_and_then split: prod.splits sum.splits)

lemma on_err_Inl: "run_state (on_err g m) s = (Inl e, t) \<longleftrightarrow> (\<exists>d. run_state m s = (Inl d, t) \<and> e = g d)"
  by (cases "fst (run_state m s)") (auto simp: run_on_err split: prod.splits)

lemma and_then_Inl: "run_state (and_then m k) s = (Inl e, t) \<longleftrightarrow>
  run_state m s = (Inl e, t) \<or> (\<exists>a u. run_state m s = (Inr a, u) \<and> run_state (k a) u = (Inl e, t))"
  by (auto simp: run_and_then split: prod.splits sum.splits)

lemma sql_Inl: "run_state (sql f) s = (Inl e, t) \<longleftrightarrow> t = bump s \<and>
  (if fault (env s) (tick s) then e = Unavailable else f s = Inl e)"
  by (auto simp: run_sql split: sum.splits)

lemma query_Inl: "run_state (query f) s = (Inl e, t) \<longleftrightarrow> t = bump s \<and>
  (if fault (env s) (tick s) then e = Unavailable else f s = Inl e)"
  by (auto simp: run_query)

lemmas run_simps = run_on_err run_and_then run_sql run_query
lemmas inr_simps = sql_Inr query_Inr on_err_Inr and_then_Inr
lemmas inl_simps = sql_Inl query_Inl on_err_Inl and_then_Inl

subsection \<open>Predicates that statements preserve\<close>

text \<open>
  A predicate on databases that does not look at the statement counter is preserved by a query, and
  by a statement whose effect preserves it.
\<close>

lemma keeps_sql:
  assumes "\<And>s n. P s \<Longrightarrow> P (s\<lparr>tick := n\<rparr>)" and "\<And>s a t. P s \<Longrightarrow> f s = Inr (a, t) \<Longrightarrow> P t"
  shows "keeps P (sql f)"
proof (rule keepsI)
  fix s assume "P s"
  then show "P (snd (run_state (sql f) s))"
    using assms by (auto simp: run_sql split: sum.splits)
qed

lemma keeps_query:
  assumes "\<And>s n. P s \<Longrightarrow> P (s\<lparr>tick := n\<rparr>)"
  shows "keeps P (query f)"
  using assms by (simp add: keeps_def run_query)

lemma keeps_on_err [keeps_intros]: "keeps P m \<Longrightarrow> keeps P (on_err g m)"
  by (auto simp: on_err_def intro!: keeps_intros)

lemma keeps_and_then [keeps_intros]:
  "keeps P m \<Longrightarrow> (\<And>a. keeps P (k a)) \<Longrightarrow> keeps P (and_then m k)"
  by (auto simp: and_then_def intro!: keeps_intros)

lemma relates_sql:
  assumes "transp R" and "\<And>s n. R s (s\<lparr>tick := n\<rparr>)" and "\<And>s a t. f s = Inr (a, t) \<Longrightarrow> R s t"
  shows "relates R (sql f)"
proof (rule relatesI)
  fix s
  have "R s (bump t)" if "f s = Inr (a, t)" for a t
    using transpD [OF assms(1) assms(3) [OF that] assms(2)] .
  then show "R s (snd (run_state (sql f) s))"
    by (auto simp: run_sql assms(2) split: sum.splits)
qed

lemma relates_query:
  assumes "\<And>s n. R s (s\<lparr>tick := n\<rparr>)"
  shows "relates R (query f)"
  using assms by (simp add: relates_def run_query)

lemma relates_on_err [relates_intros]: "reflp R \<Longrightarrow> transp R \<Longrightarrow> relates R m \<Longrightarrow> relates R (on_err g m)"
  by (auto simp: on_err_def intro!: relates_intros)

lemma relates_and_then [relates_intros]:
  "reflp R \<Longrightarrow> transp R \<Longrightarrow> relates R m \<Longrightarrow> (\<And>a. relates R (k a)) \<Longrightarrow> relates R (and_then m k)"
  by (auto simp: and_then_def intro!: relates_intros)

end
