(* ===== verification/Store.thy ===== *)
theory Store
  imports Tables "HOL-Library.Product_Lexorder"
begin

text \<open>
  The methods of \<open>internal/store/store.go\<close>, in the order of the file: each is a state transformer over
  the database that runs the statements of the method and maps its errors. A \<open>SELECT\<close> with a join is
  a list comprehension over the tables; an \<open>INSERT\<close>, \<open>UPDATE\<close> or \<open>DELETE\<close> checks the constraints that
  V1__init.sql and V4__join_codes_consumed_by_set_null.sql declare and carries out their \<open>ON DELETE\<close>
  actions. The domain types of the file (\<open>Wallet\<close>, \<open>Miner\<close>, ...) are records of their own.
\<close>

subsection \<open>Currencies\<close>

definition ListCurrencies :: "(db, store_err + currency list) state" where
  "ListCurrencies = on_err PgErr (query (\<lambda>s. Inr (order_by s symbol (currencies s))))"

definition currency_rows :: "string \<Rightarrow> db \<Rightarrow> currency list" where
  "currency_rows sy s = filter (\<lambda>c. symbol c = sy) (currencies s)"

definition GetCurrency :: "string \<Rightarrow> (db, store_err + currency) state" where
  "GetCurrency sy = on_err notFoundIfEmpty (query (\<lambda>s. one_row (currency_rows sy s)))"

text \<open>\<open>COALESCE(x,'')\<close> and \<open>NULLIF(x,'')\<close>.\<close>

definition coalesce :: "'a option \<Rightarrow> 'a \<Rightarrow> 'a" where
  "coalesce x d = (case x of None \<Rightarrow> d | Some y \<Rightarrow> y)"

definition nullif_empty :: "string \<Rightarrow> string option" where
  "nullif_empty x = (if x = '''' then None else Some x)"

lemma coalesce_nullif [simp]: "coalesce (nullif_empty x) '''' = x"
  by (simp add: coalesce_def nullif_empty_def)

lemma coalesce_simps [simp]: "coalesce None d = d" "coalesce (Some x) d = x"
  by (simp_all add: coalesce_def)

subsection \<open>Wallets\<close>

record wallet =
  wa_id :: string
  wa_currency :: string
  wa_address :: string
  wa_label :: string
  wa_validated :: bool
  wa_created :: int

definition scanWallet :: "wallet_row \<Rightarrow> currency \<Rightarrow> wallet" where
  "scanWallet w c = \<lparr>wa_id = w_id w, wa_currency = symbol c, wa_address = w_address w,
     wa_label = coalesce (w_label w) '''', wa_validated = w_validated w, wa_created = w_created w\<rparr>"

definition ListWallets :: "string \<Rightarrow> (db, store_err + wallet list) state" where
  "ListWallets owner = on_err PgErr (query (\<lambda>s. Inr (order_by s wa_currency
     [scanWallet w c. w \<leftarrow> wallets s, c \<leftarrow> currencies s, cur_id c = w_currency w, w_owner w = owner])))"

definition insert_wallet :: "string \<Rightarrow> string \<Rightarrow> string \<Rightarrow> string \<Rightarrow> bool \<Rightarrow> db \<Rightarrow> pgerr + (wallet \<times> db)" where
  "insert_wallet owner sy address label validated s =
     chain (one_row (currency_rows sy s)) (\<lambda>c.
     with_new_id s (map w_id (wallets s)) (\<lambda>i.
     require (\<forall>w \<in> set (wallets s). \<not> (w_owner w = owner \<and> w_currency w = cur_id c)) UniqueViolation
     (let w = \<lparr>w_id = i, w_owner = owner, w_currency = cur_id c, w_address = address,
               w_label = nullif_empty label, w_validated = validated, w_created = db_now s\<rparr>
      in Inr (scanWallet w c, s\<lparr>wallets := wallets s @ [w]\<rparr>))))"

definition CreateWallet :: "string \<Rightarrow> string \<Rightarrow> string \<Rightarrow> string \<Rightarrow> bool \<Rightarrow> (db, store_err + wallet) state" where
  "CreateWallet owner sy address label validated =
     on_err (\<lambda>e. if isUniqueViolation e then ErrConflict else notFoundIfEmpty e)
       (sql (insert_wallet owner sy address label validated))"

text \<open>
  \<open>RowsAffected() == 0\<close> is \<open>ErrNotFound\<close>: the statement returns the number of rows it touched.
\<close>

definition affected :: "(db, pgerr + nat) state \<Rightarrow> (db, store_err + unit) state" where
  "affected m = and_then (on_err PgErr m) (\<lambda>n. ret (if n = 0 then Inl ErrNotFound else Inr ()))"

lemma affected_Inr: "run_state (affected m) s = (Inr x, t) \<longleftrightarrow> (\<exists>n. n \<noteq> 0 \<and> run_state m s = (Inr n, t))"
proof
  assume "run_state (affected m) s = (Inr x, t)"
  then obtain n u where n: "run_state m s = (Inr n, u)"
    and r: "run_state (ret (if n = 0 then Inl ErrNotFound else Inr ())) u = (Inr x, t)"
    unfolding affected_def and_then_Inr on_err_Inr by blast
  from r have "n \<noteq> 0 \<and> u = t" by (cases "n = 0") simp_all
  with n show "\<exists>n. n \<noteq> 0 \<and> run_state m s = (Inr n, t)" by blast
next
  assume "\<exists>n. n \<noteq> 0 \<and> run_state m s = (Inr n, t)"
  then obtain n where "n \<noteq> 0" "run_state m s = (Inr n, t)" by blast
  then show "run_state (affected m) s = (Inr x, t)"
    by (simp add: affected_def run_simps)
qed

definition delete_wallet :: "string \<Rightarrow> string \<Rightarrow> db \<Rightarrow> pgerr + (nat \<times> db)" where
  "delete_wallet owner wid s = with_uuid s wid (\<lambda>u.
     let hit = filter (\<lambda>w. w_id w = u \<and> w_owner w = owner) (wallets s) in
     require (\<forall>w \<in> set hit. (\<forall>m \<in> set (miners s). m_wallet m \<noteq> Some (w_id w)) \<and>
                             (\<forall>p \<in> set (payouts s). p_wallet p \<noteq> Some (w_id w))) ForeignKeyViolation
     (Inr (length hit, s\<lparr>wallets := filter (\<lambda>w. \<not> (w_id w = u \<and> w_owner w = owner)) (wallets s)\<rparr>)))"

definition DeleteWallet :: "string \<Rightarrow> string \<Rightarrow> (db, store_err + unit) state" where
  "DeleteWallet owner wid = affected (sql (delete_wallet owner wid))"

definition WalletAddress :: "string \<Rightarrow> string \<Rightarrow> (db, store_err + string) state" where
  "WalletAddress owner walletID = on_err notFoundIfEmpty (query (\<lambda>s. with_uuid s walletID (\<lambda>u.
     one_row [w_address w. w \<leftarrow> wallets s, w_id w = u, w_owner w = owner])))"

subsection \<open>Miners\<close>

record miner =
  mn_id :: string
  mn_name :: string
  mn_currency :: string
  mn_engine :: string
  mn_simulated :: bool
  mn_wallet :: "string option"
  mn_pool :: string
  mn_cpu :: int
  mn_gpu :: int
  mn_status :: string
  mn_rate :: rat
  mn_acc :: int
  mn_rej :: int
  mn_created :: int
  mn_updated :: int

definition scanMiner :: "miner_row \<Rightarrow> currency \<Rightarrow> miner" where
  "scanMiner m c = \<lparr>mn_id = m_id m, mn_name = m_name m, mn_currency = symbol c, mn_engine = m_engine m,
     mn_simulated = (m_engine m = ''simulated''), mn_wallet = m_wallet m, mn_pool = m_pool m,
     mn_cpu = m_cpu m, mn_gpu = m_gpu m, mn_status = m_status m, mn_rate = 0, mn_acc = 0, mn_rej = 0,
     mn_created = m_created m, mn_updated = m_updated m\<rparr>"

definition ListMiners :: "string \<Rightarrow> (db, store_err + miner list) state" where
  "ListMiners owner = on_err PgErr (query (\<lambda>s. Inr (order_by s mn_created
     [scanMiner m c. m \<leftarrow> miners s, c \<leftarrow> currencies s, cur_id c = m_currency m, m_owner m = owner])))"

definition miner_rows :: "string \<Rightarrow> string \<Rightarrow> db \<Rightarrow> (miner_row \<times> currency) list" where
  "miner_rows owner u s =
     [(m, c). m \<leftarrow> miners s, c \<leftarrow> currencies s, cur_id c = m_currency m, m_id m = u, m_owner m = owner]"

definition GetMiner :: "string \<Rightarrow> string \<Rightarrow> (db, store_err + miner) state" where
  "GetMiner owner mid = on_err notFoundIfEmpty (query (\<lambda>s. with_uuid s mid (\<lambda>u.
     map_sum id (\<lambda>(m, c). scanMiner m c) (one_row (miner_rows owner u s)))))"

record create_miner_params =
  cm_owner :: string
  cm_name :: string
  cm_currency :: string
  cm_wallet :: "string option"
  cm_engine :: string
  cm_pool :: string
  cm_cpu :: int
  cm_gpu :: int

text \<open>The \<open>CHECK\<close> constraints of the two percentages.\<close>

definition pct_ok :: "int \<Rightarrow> int \<Rightarrow> bool" where
  "pct_ok cpu gpu \<longleftrightarrow> 1 \<le> cpu \<and> cpu \<le> 100 \<and> 0 \<le> gpu \<and> gpu \<le> 100"

definition wallet_ref_ok :: "db \<Rightarrow> string option \<Rightarrow> bool" where
  "wallet_ref_ok s x = (case x of None \<Rightarrow> True | Some u \<Rightarrow> u \<in> w_id ` set (wallets s))"

definition insert_miner :: "create_miner_params \<Rightarrow> db \<Rightarrow> pgerr + (string \<times> db)" where
  "insert_miner p s =
     with_uuid_opt s (cm_wallet p) (\<lambda>wid.
     require (int4 (cm_cpu p) \<and> int4 (cm_gpu p)) BadInput
     (chain (one_row (currency_rows (cm_currency p) s)) (\<lambda>c.
     require (pct_ok (cm_cpu p) (cm_gpu p)) CheckViolation
     (with_new_id s (map m_id (miners s)) (\<lambda>i.
     require (wallet_ref_ok s wid) ForeignKeyViolation
     (Inr (i, s\<lparr>miners := miners s @ [\<lparr>m_id = i, m_owner = cm_owner p, m_name = cm_name p,
        m_currency = cur_id c, m_wallet = wid, m_engine = cm_engine p, m_pool = cm_pool p,
        m_cpu = cm_cpu p, m_gpu = cm_gpu p, m_status = ''created'',
        m_created = db_now s, m_updated = db_now s\<rparr>]\<rparr>)))))))"

definition CreateMiner :: "create_miner_params \<Rightarrow> (db, store_err + miner) state" where
  "CreateMiner p = and_then (on_err notFoundIfEmpty (sql (insert_miner p))) (\<lambda>i. GetMiner (cm_owner p) i)"

text \<open>
  \<open>UPDATE miners m SET .. FROM currencies c .. RETURNING\<close>: \<open>g\<close> is the assignment, \<open>ok\<close> the constraints
  on the new row. The row returned is the new one.
\<close>

definition update_miner ::
  "string \<Rightarrow> string \<Rightarrow> (db \<Rightarrow> miner_row \<Rightarrow> miner_row) \<Rightarrow> (db \<Rightarrow> miner_row \<Rightarrow> pgerr option) \<Rightarrow> db \<Rightarrow> pgerr + (miner \<times> db)" where
  "update_miner owner u g bad s = chain (one_row (miner_rows owner u s)) (\<lambda>(m, c).
     case bad s (g s m) of
       Some e \<Rightarrow> Inl e
     | None \<Rightarrow> Inr (scanMiner (g s m) c,
         s\<lparr>miners := upd_where (\<lambda>m. m_id m = u \<and> m_owner m = owner) (g s) (miners s)\<rparr>))"

definition patch_row ::
  "string option \<Rightarrow> string option \<Rightarrow> string option \<Rightarrow> db \<Rightarrow> miner_row \<Rightarrow> miner_row" where
  "patch_row name wid poolURL s m =
     m\<lparr>m_name := coalesce name (m_name m),
       m_wallet := (case wid of None \<Rightarrow> m_wallet m | Some _ \<Rightarrow> wid),
       m_pool := coalesce poolURL (m_pool m), m_updated := db_now s\<rparr>"

definition PatchMiner ::
  "string \<Rightarrow> string \<Rightarrow> string option \<Rightarrow> string option \<Rightarrow> string option \<Rightarrow> (db, store_err + miner) state" where
  "PatchMiner owner mid name walletID poolURL = on_err notFoundIfEmpty (sql (\<lambda>s.
     with_uuid s mid (\<lambda>u. with_uuid_opt s walletID (\<lambda>wid.
       update_miner owner u (patch_row name wid poolURL)
         (\<lambda>s m. if wallet_ref_ok s (m_wallet m) then None else Some ForeignKeyViolation) s))))"

definition SetMinerStatus :: "string \<Rightarrow> string \<Rightarrow> (db, store_err + unit) state" where
  "SetMinerStatus mid status = on_err PgErr (sql (\<lambda>s. with_uuid s mid (\<lambda>u.
     Inr ((), s\<lparr>miners := upd_where (\<lambda>m. m_id m = u)
       (\<lambda>m. m\<lparr>m_status := status, m_updated := db_now s\<rparr>) (miners s)\<rparr>))))"

definition SetMinerAllocation :: "string \<Rightarrow> string \<Rightarrow> int \<Rightarrow> int \<Rightarrow> (db, store_err + miner) state" where
  "SetMinerAllocation owner mid cpu gpu = on_err notFoundIfEmpty (sql (\<lambda>s.
     with_uuid s mid (\<lambda>u. require (int4 cpu \<and> int4 gpu) BadInput
       (update_miner owner u
         (\<lambda>s m. m\<lparr>m_cpu := cpu, m_gpu := gpu, m_updated := db_now s\<rparr>)
         (\<lambda>s m. if pct_ok (m_cpu m) (m_gpu m) then None else Some CheckViolation) s))))"

text \<open>Runs, jobs, samples and rollups go with their miner; a found block keeps its row.\<close>

definition drop_miners :: "(miner_row \<Rightarrow> bool) \<Rightarrow> db \<Rightarrow> db" where
  "drop_miners p s = (let gone = m_id ` set (filter p (miners s)) in
     s\<lparr>miners := filter (\<lambda>m. \<not> p m) (miners s),
       runs := filter (\<lambda>r. r_miner r \<notin> gone) (runs s),
       jobs := filter (\<lambda>j. j_miner j \<notin> gone) (jobs s),
       samples := filter (\<lambda>x. s_miner x \<notin> gone) (samples s),
       rollups := filter (\<lambda>x. u_miner x \<notin> gone) (rollups s),
       blocks := upd_where (\<lambda>b. b_miner b \<in> Some ` gone) (\<lambda>b. b\<lparr>b_miner := None\<rparr>) (blocks s)\<rparr>)"

definition DeleteMiner :: "string \<Rightarrow> string \<Rightarrow> (db, store_err + unit) state" where
  "DeleteMiner owner mid = affected (sql (\<lambda>s. with_uuid s mid (\<lambda>u.
     let p = (\<lambda>m. m_id m = u \<and> m_owner m = owner) in
     Inr (length (filter p (miners s)), drop_miners p s))))"

subsection \<open>Runs and metrics\<close>

record miner_run =
  rn_id :: string
  rn_miner :: string
  rn_started :: int
  rn_stopped :: "int option"
  rn_reason :: "string option"
  rn_avg :: rat
  rn_acc :: i64
  rn_rej :: i64

definition scanRun :: "run_row \<Rightarrow> miner_run" where
  "scanRun r = \<lparr>rn_id = r_id r, rn_miner = r_miner r, rn_started = r_started r, rn_stopped = r_stopped r,
     rn_reason = r_reason r, rn_avg = coalesce (r_avg r) 0, rn_acc = r_acc r, rn_rej = r_rej r\<rparr>"

definition OpenRun :: "string \<Rightarrow> (db, store_err + string) state" where
  "OpenRun minerID = on_err PgErr (sql (\<lambda>s. with_uuid s minerID (\<lambda>u.
     with_new_id s (map r_id (runs s)) (\<lambda>i.
     require (u \<in> m_id ` set (miners s)) ForeignKeyViolation
     (Inr (i, s\<lparr>runs := runs s @ [\<lparr>r_id = i, r_miner = u, r_started = db_now s, r_stopped = None,
        r_reason = None, r_avg = None, r_acc = 0, r_rej = 0\<rparr>]\<rparr>))))))"

definition open_run_of :: "string \<Rightarrow> run_row \<Rightarrow> bool" where
  "open_run_of u r \<longleftrightarrow> r_miner r = u \<and> r_stopped r = None"

definition CloseRun :: "string \<Rightarrow> string \<Rightarrow> rat \<Rightarrow> i64 \<Rightarrow> i64 \<Rightarrow> (db, store_err + unit) state" where
  "CloseRun minerID reason avgHashrate acc rej = on_err PgErr (sql (\<lambda>s. with_uuid s minerID (\<lambda>u.
     Inr ((), s\<lparr>runs := upd_where (open_run_of u)
       (\<lambda>r. r\<lparr>r_stopped := Some (db_now s), r_reason := Some reason, r_avg := Some avgHashrate,
              r_acc := acc, r_rej := rej\<rparr>) (runs s)\<rparr>))))"

definition CurrentRun :: "string \<Rightarrow> (db, store_err + miner_run option) state" where
  "CurrentRun minerID = on_err PgErr (query (\<lambda>s. with_uuid s minerID (\<lambda>u.
     case order_by s (\<lambda>r. - rn_started r) (map scanRun (filter (open_run_of u) (runs s))) of
       [] \<Rightarrow> Inr None
     | r # _ \<Rightarrow> Inr (Some r))))"

definition ListRuns :: "string \<Rightarrow> int \<Rightarrow> (db, store_err + miner_run list) state" where
  "ListRuns minerID lmt = on_err PgErr (query (\<lambda>s. with_uuid s minerID (\<lambda>u.
     limit_offset lmt 0 (order_by s (\<lambda>r. - rn_started r)
       (map scanRun (filter (\<lambda>r. r_miner r = u) (runs s)))))))"

definition InsertMetricSample ::
  "string \<Rightarrow> string option \<Rightarrow> rat \<Rightarrow> int \<Rightarrow> int \<Rightarrow> (db, store_err + unit) state" where
  "InsertMetricSample minerID workerID hashrate acc rej = on_err PgErr (sql (\<lambda>s.
     with_uuid s minerID (\<lambda>u. with_uuid_opt s workerID (\<lambda>w.
     require (int4 acc \<and> int4 rej) BadInput
     (require (u \<in> m_id ` set (miners s)) ForeignKeyViolation
     (require (case w of None \<Rightarrow> True | Some k \<Rightarrow> k \<in> k_id ` set (workers s)) ForeignKeyViolation
     (Inr ((), s\<lparr>samples := samples s @ [\<lparr>s_miner = u, s_worker = w, s_ts = db_now s, s_rate = hashrate,
        s_acc = acc, s_rej = rej\<rparr>]\<rparr>))))))))"

record metric_point =
  mp_ts :: int
  mp_rate :: rat
  mp_acc :: int
  mp_rej :: int

definition scanPoint :: "sample_row \<Rightarrow> metric_point" where
  "scanPoint x = \<lparr>mp_ts = s_ts x, mp_rate = s_rate x, mp_acc = s_acc x, mp_rej = s_rej x\<rparr>"

text \<open>\<open>for i, j := 0, len(out)-1; i < j; i, j = i+1, j-1\<close>, swapping in place.\<close>

function reverse_loop :: "nat \<Rightarrow> int \<Rightarrow> 'a list \<Rightarrow> 'a list" where
  "reverse_loop i j out =
     (if int i < j then reverse_loop (i + 1) (j - 1) (out[i := out ! nat j, nat j := out ! i]) else out)"
  by pat_completeness auto

termination
  by (relation "measure (\<lambda>(i, j, _). nat (j - int i))") auto

declare reverse_loop.simps [simp del]

definition RecentMetrics :: "string \<Rightarrow> int \<Rightarrow> (db, store_err + metric_point list) state" where
  "RecentMetrics minerID lmt = on_err PgErr (query (\<lambda>s. with_uuid s minerID (\<lambda>u.
     map_sum id (\<lambda>out. reverse_loop 0 (int (length out) - 1) out)
       (limit_offset lmt 0 (order_by s (\<lambda>p. - mp_ts p)
          (map scanPoint (filter (\<lambda>x. s_miner x = u) (samples s))))))))"

definition HourlyRollups :: "string \<Rightarrow> int \<Rightarrow> int \<Rightarrow> (db, store_err + metric_point list) state" where
  "HourlyRollups minerID from_ts to_ts = on_err PgErr (query (\<lambda>s. with_uuid s minerID (\<lambda>u.
     Inr (order_by s mp_ts
       [\<lparr>mp_ts = u_bucket x, mp_rate = u_avg x, mp_acc = u_acc x, mp_rej = u_rej x\<rparr>.
          x \<leftarrow> rollups s, u_miner x = u, from_ts \<le> u_bucket x, u_bucket x < to_ts]))))"

text \<open>\<open>date_trunc('hour', ts)\<close>, for a server that runs in UTC.\<close>

definition date_trunc_hour :: "int \<Rightarrow> int" where
  "date_trunc_hour ts = (ts div hour) * hour"

definition sample_key :: "sample_row \<Rightarrow> string \<times> int" where
  "sample_key x = (s_miner x, date_trunc_hour (s_ts x))"

definition rollup_key :: "rollup_row \<Rightarrow> string \<times> int" where
  "rollup_key r = (u_miner r, u_bucket r)"

text \<open>The \<open>GROUP BY\<close>: one row of aggregates for a group of samples.\<close>

definition aggregate :: "string \<times> int \<Rightarrow> sample_row list \<Rightarrow> rollup_row" where
  "aggregate k xs = \<lparr>u_miner = fst k, u_bucket = snd k,
     u_avg = sum_list (map s_rate xs) / of_nat (length xs), u_max = foldr max (map s_rate xs) (s_rate (hd xs)),
     u_acc = sum_list (map s_acc xs), u_rej = sum_list (map s_rej xs)\<rparr>"

definition group_samples :: "sample_row list \<Rightarrow> rollup_row list" where
  "group_samples xs = map (\<lambda>k. aggregate k (filter (\<lambda>x. sample_key x = k) xs)) (remdups (map sample_key xs))"

text \<open>\<open>ON CONFLICT (miner_id, bucket) DO UPDATE\<close> with every aggregate replaced.\<close>

definition upsert_rollup :: "rollup_row \<Rightarrow> rollup_row list \<Rightarrow> rollup_row list" where
  "upsert_rollup r rs = (if rollup_key r \<in> rollup_key ` set rs
     then upd_where (\<lambda>x. rollup_key x = rollup_key r) (\<lambda>_. r) rs else rs @ [r])"

definition rollup_stmt :: "db \<Rightarrow> pgerr + (unit \<times> db)" where
  "rollup_stmt s = Inr ((), s\<lparr>rollups := fold upsert_rollup
     (group_samples (filter (\<lambda>x. s_ts x < date_trunc_hour (db_now s)) (samples s))) (rollups s)\<rparr>)"

definition prune_stmt :: "db \<Rightarrow> pgerr + (unit \<times> db)" where
  "prune_stmt s = Inr ((), s\<lparr>samples := filter (\<lambda>x. \<not> s_ts x < db_now s - 48 * hour) (samples s)\<rparr>)"

definition RollupOnce :: "(db, store_err + unit) state" where
  "RollupOnce = and_then (on_err PgErr (sql rollup_stmt)) (\<lambda>_. on_err PgErr (sql prune_stmt))"

definition LiveHashrate :: "string \<Rightarrow> (db, store_err + (rat \<times> int \<times> int)) state" where
  "LiveHashrate minerID = on_err PgErr (query (\<lambda>s. with_uuid s minerID (\<lambda>u.
     case order_by s (\<lambda>x. - s_ts x) (filter (\<lambda>x. s_miner x = u) (samples s)) of
       [] \<Rightarrow> Inr (0, 0, 0)
     | x # _ \<Rightarrow> Inr (s_rate x, s_acc x, s_rej x))))"

subsection \<open>Payouts and blocks\<close>

record payout =
  pt_id :: string
  pt_currency :: string
  pt_amount :: rat
  pt_txid :: string
  pt_url :: string
  pt_pool :: string
  pt_verified :: bool
  pt_paid :: "int option"
  pt_detected :: int

definition scanPayout :: "payout_row \<Rightarrow> currency \<Rightarrow> payout" where
  "scanPayout p c = \<lparr>pt_id = p_id p, pt_currency = symbol c, pt_amount = p_amount p,
     pt_txid = coalesce (p_txid p) '''', pt_url = coalesce (p_url p) '''', pt_pool = coalesce (p_pool p) '''',
     pt_verified = p_verified p, pt_paid = p_paid p, pt_detected = p_detected p\<rparr>"

definition payout_hits :: "string \<Rightarrow> string \<Rightarrow> db \<Rightarrow> payout list" where
  "payout_hits owner cur s = [scanPayout p c. p \<leftarrow> payouts s, c \<leftarrow> currencies s, cur_id c = p_currency p,
     p_owner p = owner, cur \<noteq> '''' \<longrightarrow> symbol c = cur]"

definition ListPayouts :: "string \<Rightarrow> string \<Rightarrow> int \<Rightarrow> int \<Rightarrow> (db, store_err + (payout list \<times> nat)) state" where
  "ListPayouts owner cur lmt offset =
     and_then (on_err PgErr (query (\<lambda>s. Inr (length (payout_hits owner cur s))))) (\<lambda>total.
     and_then (on_err PgErr (query (\<lambda>s. limit_offset lmt offset
       (order_by s (\<lambda>p. - pt_detected p) (payout_hits owner cur s))))) (\<lambda>out.
     ret (Inr (out, total))))"

record block_found =
  bf_id :: string
  bf_currency :: string
  bf_height :: "int option"
  bf_hash :: string
  bf_found :: "int option"
  bf_source :: string
  bf_url :: string

definition scanBlock :: "block_row \<Rightarrow> currency \<Rightarrow> block_found" where
  "scanBlock b c = \<lparr>bf_id = b_id b, bf_currency = symbol c, bf_height = b_height b,
     bf_hash = coalesce (b_hash b) '''', bf_found = b_found b, bf_source = coalesce (b_source b) '''',
     bf_url = coalesce (b_url b) ''''\<rparr>"

definition block_visible :: "string \<Rightarrow> db \<Rightarrow> block_row \<Rightarrow> bool" where
  "block_visible owner s b \<longleftrightarrow>
     (\<exists>m \<in> set (miners s). b_miner b = Some (m_id m) \<and> m_owner m = owner) \<or> b_miner b = None"

definition ListBlocksFound :: "string \<Rightarrow> (db, store_err + block_found list) state" where
  "ListBlocksFound owner = on_err PgErr (query (\<lambda>s. limit_offset 200 0
     (order_by s (\<lambda>b. case bf_found b of Some t \<Rightarrow> (0 :: int, - t) | None \<Rightarrow> (1, 0))
       [scanBlock b c. b \<leftarrow> blocks s, c \<leftarrow> currencies s, cur_id c = b_currency b, block_visible owner s b])))"

definition Payouts24h :: "string \<Rightarrow> (db, store_err + rat) state" where
  "Payouts24h owner = on_err PgErr (query (\<lambda>s. Inr (sum_list
     [p_amount p. p \<leftarrow> payouts s, p_owner p = owner, p_detected p > db_now s - 24 * hour])))"

definition Shares24h :: "string \<Rightarrow> (db, store_err + int) state" where
  "Shares24h owner = on_err PgErr (query (\<lambda>s. Inr (sum_list
     [s_acc x. x \<leftarrow> samples s, m \<leftarrow> miners s, m_id m = s_miner x, m_owner m = owner,
        s_ts x > db_now s - 24 * hour])))"

subsection \<open>Settings\<close>

definition ListSettings :: "string \<Rightarrow> (db, store_err + (string \<times> json) list) state" where
  "ListSettings owner = on_err PgErr (query (\<lambda>s. Inr (unordered s
     [(snd k, v). (k, v) \<leftarrow> settings s, fst k = owner])))"

definition PutSetting :: "string \<Rightarrow> string \<Rightarrow> json \<Rightarrow> (db, store_err + unit) state" where
  "PutSetting owner key value = on_err PgErr (sql (\<lambda>s.
     Inr ((), s\<lparr>settings := aput (owner, key) value (settings s)\<rparr>)))"

record currency_setting =
  ct_currency :: string
  ct_pool :: string
  ct_enabled :: bool
  ct_adapter :: "json option"

definition ListCurrencySettings :: "string \<Rightarrow> (db, store_err + currency_setting list) state" where
  "ListCurrencySettings owner = on_err PgErr (query (\<lambda>s. Inr (order_by s ct_currency
     [\<lparr>ct_currency = symbol c, ct_pool = coalesce (cs_pool x) '''', ct_enabled = cs_enabled x,
       ct_adapter = cs_adapter x\<rparr>. x \<leftarrow> curset s, c \<leftarrow> currencies s, cur_id c = cs_currency x, cs_owner x = owner])))"

definition curset_key :: "curset_row \<Rightarrow> string \<times> string" where
  "curset_key x = (cs_owner x, cs_currency x)"

definition upsert_curset :: "curset_row \<Rightarrow> curset_row list \<Rightarrow> curset_row list" where
  "upsert_curset x xs = (if curset_key x \<in> curset_key ` set xs
     then upd_where (\<lambda>y. curset_key y = curset_key x) (\<lambda>_. x) xs else xs @ [x])"

definition PutCurrencySetting ::
  "string \<Rightarrow> string \<Rightarrow> string \<Rightarrow> bool \<Rightarrow> json option \<Rightarrow> (db, store_err + unit) state" where
  "PutCurrencySetting owner sy poolURL on custom =
     on_err (\<lambda>e. if e = NoRows then ErrNotFound else PgErr e) (sql (\<lambda>s.
       case currency_rows sy s of
         [] \<Rightarrow> Inr ((), s)
       | c # _ \<Rightarrow> Inr ((), s\<lparr>curset := upsert_curset \<lparr>cs_owner = owner, cs_currency = cur_id c,
           cs_pool = nullif_empty poolURL, cs_enabled = on, cs_adapter = custom\<rparr> (curset s)\<rparr>)))"

record exchange_setting =
  et_exchange :: string
  et_currencies :: "string list"
  et_has_key :: bool

definition ListExchangeSettings :: "string \<Rightarrow> (db, store_err + exchange_setting list) state" where
  "ListExchangeSettings owner = on_err PgErr (query (\<lambda>s. Inr (unordered s
     [\<lparr>et_exchange = x_exchange x, et_currencies = x_currencies x, et_has_key = (x_key x \<noteq> None)\<rparr>.
        x \<leftarrow> exchanges s, x_owner x = owner])))"

definition exchange_key :: "exchange_row \<Rightarrow> string \<times> string" where
  "exchange_key x = (x_owner x, x_exchange x)"

definition upsert_exchange :: "string \<Rightarrow> string \<Rightarrow> string list \<Rightarrow> string option \<Rightarrow> exchange_row list \<Rightarrow> exchange_row list" where
  "upsert_exchange owner ex curs key xs = (if (owner, ex) \<in> exchange_key ` set xs
     then upd_where (\<lambda>x. exchange_key x = (owner, ex))
       (\<lambda>x. x\<lparr>x_currencies := curs, x_key := (case key of None \<Rightarrow> x_key x | Some _ \<Rightarrow> key)\<rparr>) xs
     else xs @ [\<lparr>x_owner = owner, x_exchange = ex, x_currencies = curs, x_key = key\<rparr>])"

definition PutExchangeSetting ::
  "string \<Rightarrow> string \<Rightarrow> string list option \<Rightarrow> string \<Rightarrow> string \<Rightarrow> (db, store_err + unit) state" where
  "PutExchangeSetting owner exchange curs apiKey pgpKey =
     (let cs = coalesce curs [] in
      if apiKey \<noteq> '''' \<and> pgpKey \<noteq> '''' then
        on_err PgErr (sql (\<lambda>s. Inr ((), s\<lparr>exchanges := upsert_exchange owner exchange cs
          (Some (pgp_sym_encrypt (env s) (tick s) apiKey pgpKey)) (exchanges s)\<rparr>)))
      else
        on_err PgErr (sql (\<lambda>s. Inr ((), s\<lparr>exchanges := upsert_exchange owner exchange cs None (exchanges s)\<rparr>))))"

subsection \<open>The payout poller's methods\<close>

text \<open>\<open>x LIKE '%api_tpl%'\<close>: the underscore of a \<open>LIKE\<close> pattern matches any one character.\<close>

fun like_api_tpl :: "string \<Rightarrow> bool" where
  "like_api_tpl [] = False"
| "like_api_tpl (x # xs) = ((take 3 (x # xs) = ''api'' \<and> take 3 (drop 4 (x # xs)) = ''tpl'') \<or> like_api_tpl xs)"

record pool_wallet =
  pw_owner :: string
  pw_symbol :: string
  pw_address :: string
  pw_tx_tpl :: string
  pw_pools :: json

definition WalletsWithPoolAPI :: "(db, store_err + pool_wallet list) state" where
  "WalletsWithPoolAPI = on_err PgErr (query (\<lambda>s. Inr (unordered s
     [\<lparr>pw_owner = w_owner w, pw_symbol = symbol c, pw_address = w_address w,
       pw_tx_tpl = explorer_tx_tpl c, pw_pools = pools c\<rparr>.
        w \<leftarrow> wallets s, c \<leftarrow> currencies s, cur_id c = w_currency w,
        like_api_tpl (jsonb_text (env s) (pools c))])))"

definition insert_payout ::
  "string \<Rightarrow> string \<Rightarrow> string \<Rightarrow> rat \<Rightarrow> string \<Rightarrow> string \<Rightarrow> string \<Rightarrow> int option \<Rightarrow> json \<Rightarrow> db \<Rightarrow> pgerr + (nat \<times> db)" where
  "insert_payout owner sy walletAddr amount txid explorerURL sourcePool paidAt raw s =
     (case currency_rows sy s of
        [] \<Rightarrow> Inr (0, s)
      | c # _ \<Rightarrow> with_new_id s (map p_id (payouts s)) (\<lambda>i.
          let wid = (case filter (\<lambda>w. w_owner w = owner \<and> w_currency w = cur_id c \<and> w_address w = walletAddr)
                       (wallets s) of [] \<Rightarrow> None | w # _ \<Rightarrow> Some (w_id w)) in
          if nullif_empty txid \<noteq> None \<and>
             (\<exists>p \<in> set (payouts s). p_currency p = cur_id c \<and> p_txid p = nullif_empty txid)
          then Inr (0, s)
          else Inr (1, s\<lparr>payouts := payouts s @ [\<lparr>p_id = i, p_owner = owner, p_currency = cur_id c,
             p_wallet = wid, p_amount = amount, p_txid = nullif_empty txid, p_url = nullif_empty explorerURL,
             p_pool = nullif_empty sourcePool, p_verified = False, p_paid = paidAt, p_detected = db_now s,
             p_raw = raw\<rparr>]\<rparr>)))"

definition InsertPayout ::
  "string \<Rightarrow> string \<Rightarrow> string \<Rightarrow> rat \<Rightarrow> string \<Rightarrow> string \<Rightarrow> string \<Rightarrow> int option \<Rightarrow> json \<Rightarrow> (db, store_err + bool) state" where
  "InsertPayout owner sy walletAddr amount txid explorerURL sourcePool paidAt raw =
     and_then (on_err PgErr (sql (insert_payout owner sy walletAddr amount txid explorerURL sourcePool paidAt raw)))
       (\<lambda>n. ret (Inr (n = 1)))"

subsection \<open>Workers and swarm jobs\<close>

definition SetWorkerStatus :: "string \<Rightarrow> string \<Rightarrow> (db, store_err + unit) state" where
  "SetWorkerStatus workerID status = on_err PgErr (sql (\<lambda>s. with_uuid s workerID (\<lambda>u.
     Inr ((), s\<lparr>workers := upd_where (\<lambda>k. k_id k = u \<and> k_status k \<noteq> ''revoked'')
       (\<lambda>k. k\<lparr>k_status := status, k_seen := Some (db_now s)\<rparr>) (workers s)\<rparr>))))"

definition UpdateWorkerCaps :: "string \<Rightarrow> json option \<Rightarrow> (db, store_err + unit) state" where
  "UpdateWorkerCaps workerID caps = on_err PgErr (sql (\<lambda>s. with_uuid s workerID (\<lambda>u.
     Inr ((), s\<lparr>workers := upd_where (\<lambda>k. k_id k = u) (\<lambda>k. k\<lparr>k_caps := caps\<rparr>) (workers s)\<rparr>))))"

record worker =
  wk_id :: string
  wk_name :: string
  wk_kind :: string
  wk_os :: string
  wk_arch :: string
  wk_cpu :: string
  wk_cores :: int
  wk_gpu :: string
  wk_vram :: int
  wk_caps :: "json option"
  wk_status :: string
  wk_rate :: rat
  wk_currency :: string
  wk_seen :: "int option"
  wk_enrolled :: int

definition scanWorker :: "worker_row \<Rightarrow> worker" where
  "scanWorker k = \<lparr>wk_id = k_id k, wk_name = k_name k, wk_kind = k_kind k, wk_os = k_os k, wk_arch = k_arch k,
     wk_cpu = k_cpu k, wk_cores = k_cores k, wk_gpu = k_gpu k, wk_vram = k_vram k, wk_caps = k_caps k,
     wk_status = k_status k, wk_rate = 0, wk_currency = '''', wk_seen = k_seen k, wk_enrolled = k_enrolled k\<rparr>"

definition GetWorker :: "string \<Rightarrow> string \<Rightarrow> (db, store_err + worker) state" where
  "GetWorker owner wid = on_err notFoundIfEmpty (query (\<lambda>s. with_uuid s wid (\<lambda>u.
     one_row [scanWorker k. k \<leftarrow> workers s, k_id k = u, k_owner k = owner])))"

definition ListWorkers :: "string \<Rightarrow> (db, store_err + worker list) state" where
  "ListWorkers owner = on_err PgErr (query (\<lambda>s. Inr (order_by s (\<lambda>k. - wk_enrolled k)
     [scanWorker k. k \<leftarrow> workers s, k_owner k = owner])))"

definition revoke_worker :: "string \<Rightarrow> string \<Rightarrow> db \<Rightarrow> pgerr + (nat \<times> db)" where
  "revoke_worker owner wid s = with_uuid s wid (\<lambda>u.
     let p = (\<lambda>k. k_id k = u \<and> k_owner k = owner \<and> k_revoked k = None) in
     Inr (length (filter p (workers s)),
          s\<lparr>workers := upd_where p (\<lambda>k. k\<lparr>k_revoked := Some (db_now s), k_status := ''revoked''\<rparr>) (workers s)\<rparr>))"

definition end_jobs_of_worker :: "string \<Rightarrow> db \<Rightarrow> pgerr + (unit \<times> db)" where
  "end_jobs_of_worker wid s = with_uuid s wid (\<lambda>u.
     Inr ((), s\<lparr>jobs := upd_where (\<lambda>j. j_worker j = u \<and> j_ended j = None)
       (\<lambda>j. j\<lparr>j_ended := Some (db_now s), j_status := ''ended''\<rparr>) (jobs s)\<rparr>))"

definition RevokeWorker :: "string \<Rightarrow> string \<Rightarrow> (db, store_err + unit) state" where
  "RevokeWorker owner wid = and_then (affected (sql (revoke_worker owner wid)))
     (\<lambda>_. on_err PgErr (sql (end_jobs_of_worker wid)))"

text \<open>
  Jobs go with their worker; samples and consumed join codes keep their rows and lose the reference
  (V4 of the migrations).
\<close>

definition drop_workers :: "(worker_row \<Rightarrow> bool) \<Rightarrow> db \<Rightarrow> db" where
  "drop_workers p s = (let gone = k_id ` set (filter p (workers s)) in
     s\<lparr>workers := filter (\<lambda>k. \<not> p k) (workers s),
       jobs := filter (\<lambda>j. j_worker j \<notin> gone) (jobs s),
       samples := upd_where (\<lambda>x. s_worker x \<in> Some ` gone) (\<lambda>x. x\<lparr>s_worker := None\<rparr>) (samples s),
       codes := upd_where (\<lambda>c. c_consumed_by c \<in> Some ` gone) (\<lambda>c. c\<lparr>c_consumed_by := None\<rparr>) (codes s)\<rparr>)"

definition DeleteWorker :: "string \<Rightarrow> string \<Rightarrow> (db, store_err + unit) state" where
  "DeleteWorker owner wid = affected (sql (\<lambda>s. with_uuid s wid (\<lambda>u.
     let p = (\<lambda>k. k_id k = u \<and> k_owner k = owner) in
     Inr (length (filter p (workers s)), drop_workers p s))))"

definition QueuedMinersForOwner :: "string \<Rightarrow> (db, store_err + miner list) state" where
  "QueuedMinersForOwner owner = on_err PgErr (query (\<lambda>s. Inr (unordered s
     [scanMiner m c. m \<leftarrow> miners s, c \<leftarrow> currencies s, cur_id c = m_currency m, m_owner m = owner,
        m_status m = ''queued''])))"

definition CreateSwarmJob :: "string \<Rightarrow> string \<Rightarrow> (db, store_err + string) state" where
  "CreateSwarmJob minerID workerID = on_err PgErr (sql (\<lambda>s.
     with_uuid s minerID (\<lambda>m. with_uuid s workerID (\<lambda>w.
     with_new_id s (map j_id (jobs s)) (\<lambda>i.
     require (m \<in> m_id ` set (miners s) \<and> w \<in> k_id ` set (workers s)) ForeignKeyViolation
     (Inr (i, s\<lparr>jobs := jobs s @ [\<lparr>j_id = i, j_miner = m, j_worker = w, j_assigned = db_now s,
        j_ended = None, j_status = ''assigned''\<rparr>]\<rparr>)))))))"

definition SetSwarmJobStatus :: "string \<Rightarrow> string \<Rightarrow> (db, store_err + unit) state" where
  "SetSwarmJobStatus jobID status = (
     if status = ''ended'' \<or> status = ''error'' then
       on_err PgErr (sql (\<lambda>s. with_uuid s jobID (\<lambda>u.
         Inr ((), s\<lparr>jobs := upd_where (\<lambda>j. j_id j = u \<and> j_ended j = None)
           (\<lambda>j. j\<lparr>j_status := status, j_ended := Some (db_now s)\<rparr>) (jobs s)\<rparr>))))
     else
       on_err PgErr (sql (\<lambda>s. with_uuid s jobID (\<lambda>u.
         Inr ((), s\<lparr>jobs := upd_where (\<lambda>j. j_id j = u) (\<lambda>j. j\<lparr>j_status := status\<rparr>) (jobs s)\<rparr>)))))"

record swarm_job =
  sj_job :: string
  sj_miner :: string
  sj_worker :: string

definition scanJob :: "job_row \<Rightarrow> swarm_job" where
  "scanJob j = \<lparr>sj_job = j_id j, sj_miner = j_miner j, sj_worker = j_worker j\<rparr>"

definition ActiveJobForWorker :: "string \<Rightarrow> string \<Rightarrow> (db, store_err + swarm_job) state" where
  "ActiveJobForWorker jobID workerID = on_err notFoundIfEmpty (query (\<lambda>s.
     with_uuid s jobID (\<lambda>u. with_uuid s workerID (\<lambda>w.
     one_row [scanJob j. j \<leftarrow> jobs s, j_id j = u, j_worker j = w, j_ended j = None]))))"

definition ActiveJobsForMiner :: "string \<Rightarrow> (db, store_err + swarm_job list) state" where
  "ActiveJobsForMiner minerID = on_err PgErr (query (\<lambda>s. with_uuid s minerID (\<lambda>u.
     Inr (unordered s [scanJob j. j \<leftarrow> jobs s, j_miner j = u, j_ended j = None]))))"

definition WorkersForMiner :: "string \<Rightarrow> (db, store_err + worker list) state" where
  "WorkersForMiner minerID = on_err PgErr (query (\<lambda>s. with_uuid s minerID (\<lambda>u.
     Inr (unordered s (remdups
       [scanWorker k. j \<leftarrow> jobs s, k \<leftarrow> workers s, k_id k = j_worker j, j_miner j = u, j_ended j = None])))))"

end
