(* ===== verification/Codes.thy ===== *)
theory Codes
  imports Store
begin

unbundle bit_operations_syntax

text \<open>
  Join codes and worker tokens (\<open>internal/swarm/codes.go\<close>). Random bytes, SHA-256, bcrypt and the
  Unicode tables of \<open>strings.ToUpper\<close> are the record \<open>runtime\<close>, an argument of the operations; random
  bytes and bcrypt salts are indexed by the statement counter, so that two calls may differ. What is
  assumed of bcrypt is a named predicate, \<open>bcrypt_spec\<close>.
\<close>

record runtime =
  rand_bytes :: "nat \<Rightarrow> nat \<Rightarrow> string option"
  sha256 :: "string \<Rightarrow> string"
  bcrypt_gen :: "nat \<Rightarrow> string \<Rightarrow> nat \<Rightarrow> string option"
  bcrypt_cmp :: "string \<Rightarrow> string \<Rightarrow> bool"
  upper_uni :: "string \<Rightarrow> string"

datatype codes_err = ErrCodeInvalid | CodesPg pgerr | RandErr | BcryptErr | WorkerRevoked | TokenExpired

definition CodeTTL :: int where
  "CodeTTL = 15 * minute"

definition BrowserTokenTTL :: int where
  "BrowserTokenTTL = 24 * hour"

subsection \<open>Codes and tokens as text\<close>

definition crockford :: string where
  "crockford = ''0123456789ABCDEFGHJKMNPQRSTVWXYZ''"

text \<open>
  The inner loop emits a character while five bits are left, and stops at ten characters; the outer
  loop shifts in a byte. \<open>acc\<close> is a 64-bit integer.
\<close>

fun emit :: "i64 \<Rightarrow> nat \<Rightarrow> string \<Rightarrow> nat \<times> string" where
  "emit acc bits sb = (if bits \<ge> 5 then
       let sb' = sb @ [crockford ! unat (signed_drop_bit (bits - 5) acc AND 31)] in
       if length sb' = 10 then (bits - 5, sb') else emit acc (bits - 5) sb'
     else (bits, sb))"

declare emit.simps [simp del]

fun code_loop :: "string \<Rightarrow> i64 \<Rightarrow> nat \<Rightarrow> string \<Rightarrow> string" where
  "code_loop [] acc bits sb = sb"
| "code_loop (by # b) acc bits sb =
     (let acc' = push_bit 8 acc OR of_char by in
      case emit acc' (bits + 8) sb of (bits', sb') \<Rightarrow>
        if length sb' = 10 then sb' else code_loop b acc' bits' sb')"

definition format_code :: "string \<Rightarrow> string" where
  "format_code s = take 4 s @ ''-'' @ take 4 (drop 4 s) @ ''-'' @ take 2 (drop 8 s)"

definition GenerateCode :: "string option \<Rightarrow> codes_err + string" where
  "GenerateCode b = (case b of None \<Rightarrow> Inl RandErr
     | Some b \<Rightarrow> Inr (format_code (take 10 (code_loop b 0 0 []))))"

text \<open>\<open>strings.NewReplacer\<close> with one-byte patterns replaces byte by byte.\<close>

definition strip_dashes :: "string \<Rightarrow> string" where
  "strip_dashes s = filter (\<lambda>c. c \<noteq> CHR ''-'' \<and> c \<noteq> CHR '' '') s"

definition map_lookalike :: "char \<Rightarrow> char" where
  "map_lookalike c = (if c = CHR ''O'' then CHR ''0''
     else if c = CHR ''I'' \<or> c = CHR ''L'' then CHR ''1'' else c)"

definition NormalizeCode :: "runtime \<Rightarrow> string \<Rightarrow> string" where
  "NormalizeCode rt s = map map_lookalike (ToUpper (upper_uni rt) (strip_dashes s))"

definition hexdigit :: "nat \<Rightarrow> char" where
  "hexdigit n = ''0123456789abcdef'' ! n"

definition EncodeToString :: "string \<Rightarrow> string" where
  "EncodeToString b = concat (map (\<lambda>c. let n = of_char c :: nat in [hexdigit (n div 16), hexdigit (n mod 16)]) b)"

definition HashToken :: "runtime \<Rightarrow> string \<Rightarrow> string" where
  "HashToken rt plain = EncodeToString (sha256 rt plain)"

definition NewWorkerToken :: "runtime \<Rightarrow> string option \<Rightarrow> codes_err + (string \<times> string)" where
  "NewWorkerToken rt b = (case b of None \<Rightarrow> Inl RandErr
     | Some b \<Rightarrow> let plain = EncodeToString b in Inr (plain, EncodeToString (sha256 rt plain)))"

subsection \<open>Codes in the database\<close>

record code_info =
  ci_id :: string
  ci_expires :: int
  ci_consumed :: bool
  ci_created :: int

definition insert_code :: "string \<Rightarrow> string \<Rightarrow> db \<Rightarrow> pgerr + (code_info \<times> db)" where
  "insert_code owner hash s = with_new_id s (map c_id (codes s)) (\<lambda>i.
     Inr (\<lparr>ci_id = i, ci_expires = db_now s + CodeTTL, ci_consumed = False, ci_created = db_now s\<rparr>,
       s\<lparr>codes := codes s @ [\<lparr>c_id = i, c_owner = owner, c_hash = hash, c_expires = db_now s + CodeTTL,
         c_consumed_by = None, c_consumed_at = None, c_created = db_now s\<rparr>]\<rparr>))"

definition Codes_Create :: "runtime \<Rightarrow> string \<Rightarrow> (db, codes_err + (code_info \<times> string)) state" where
  "Codes_Create rt owner = do {
     n \<leftarrow> gets tick;
     case GenerateCode (rand_bytes rt n 7) of
       Inl e \<Rightarrow> ret (Inl e)
     | Inr plain \<Rightarrow> (case bcrypt_gen rt n (NormalizeCode rt plain) 10 of
         None \<Rightarrow> ret (Inl BcryptErr)
       | Some hash \<Rightarrow> and_then (on_err CodesPg (sql (insert_code owner hash))) (\<lambda>info. ret (Inr (info, plain))))
   }"

definition Codes_List :: "string \<Rightarrow> (db, codes_err + code_info list) state" where
  "Codes_List owner = on_err CodesPg (query (\<lambda>s. limit_offset 50 0 (order_by s (\<lambda>c. - ci_created c)
     [\<lparr>ci_id = c_id c, ci_expires = c_expires c, ci_consumed = (c_consumed_by c \<noteq> None), ci_created = c_created c\<rparr>.
        c \<leftarrow> codes s, c_owner c = owner])))"

definition delete_code :: "string \<Rightarrow> string \<Rightarrow> db \<Rightarrow> pgerr + (nat \<times> db)" where
  "delete_code owner cid s = with_uuid s cid (\<lambda>u.
     let p = (\<lambda>c. c_id c = u \<and> c_owner c = owner \<and> c_consumed_by c = None) in
     Inr (length (filter p (codes s)), s\<lparr>codes := filter (\<lambda>c. \<not> p c) (codes s)\<rparr>))"

definition Codes_Revoke :: "string \<Rightarrow> string \<Rightarrow> (db, codes_err + unit) state" where
  "Codes_Revoke owner cid = and_then (on_err CodesPg (sql (delete_code owner cid)))
     (\<lambda>n. ret (if n = 0 then Inl ErrCodeInvalid else Inr ()))"

record hardware =
  hw_kind :: string
  hw_os :: string
  hw_arch :: string
  hw_cpu :: string
  hw_cores :: int
  hw_gpu :: string
  hw_vram :: int

record enroll_result =
  er_worker :: string
  er_token :: string
  er_owner :: string

text \<open>\<open>consumed_by IS NULL AND expires_at > now()\<close>, at the time \<open>now\<close>.\<close>

definition redeemable :: "int \<Rightarrow> code_row \<Rightarrow> bool" where
  "redeemable now c \<longleftrightarrow> c_consumed_by c = None \<and> c_expires c > now"

definition code_candidates :: "(db, codes_err + code_row list) state" where
  "code_candidates = on_err CodesPg (query (\<lambda>s. Inr (unordered s (filter (redeemable (db_now s)) (codes s)))))"

definition insert_worker :: "int \<Rightarrow> string \<Rightarrow> string \<Rightarrow> hardware \<Rightarrow> string \<Rightarrow> db \<Rightarrow> pgerr + (string \<times> db)" where
  "insert_worker now owner name hw hash s = require (int4 (hw_cores hw) \<and> int4 (hw_vram hw)) BadInput
     (with_new_id s (map k_id (workers s)) (\<lambda>i.
       Inr (i, s\<lparr>workers := workers s @ [\<lparr>k_id = i, k_owner = owner, k_name = name, k_kind = hw_kind hw,
         k_os = hw_os hw, k_arch = hw_arch hw, k_cpu = hw_cpu hw, k_cores = hw_cores hw, k_gpu = hw_gpu hw,
         k_vram = hw_vram hw, k_caps = None, k_token = hash, k_status = ''enrolled'', k_seen = None,
         k_enrolled = now, k_revoked = None\<rparr>]\<rparr>)))"

definition consume_code :: "int \<Rightarrow> string \<Rightarrow> string \<Rightarrow> db \<Rightarrow> pgerr + (nat \<times> db)" where
  "consume_code now cid wid s = (let p = (\<lambda>c. c_id c = cid \<and> redeemable now c) in
     Inr (length (filter p (codes s)),
       s\<lparr>codes := upd_where p (\<lambda>c. c\<lparr>c_consumed_by := Some wid, c_consumed_at := Some now\<rparr>) (codes s)\<rparr>))"

text \<open>
  A transaction: \<open>now()\<close> is its start; every error return runs the deferred \<open>Rollback\<close>, which restores
  the tables; a failing \<open>Begin\<close> or \<open>Commit\<close> leaves them as they were.
\<close>

definition rollback_to :: "db \<Rightarrow> db \<Rightarrow> db" where
  "rollback_to s t = s\<lparr>tick := tick t\<rparr>"

definition transaction :: "(int \<Rightarrow> (db, codes_err + 'a) state) \<Rightarrow> (db, codes_err + 'a) state" where
  "transaction body = State (\<lambda>s.
     if fault (env s) (tick s) then (Inl (CodesPg Unavailable), bump s)
     else case run_state (body (db_now s)) (bump s) of
       (Inl e, t) \<Rightarrow> (Inl e, rollback_to s t)
     | (Inr a, t) \<Rightarrow> if fault (env t) (tick t) then (Inl (CodesPg Unavailable), bump (rollback_to s t))
                     else (Inr a, bump t))"

definition enroll_tx :: "code_row \<Rightarrow> string \<Rightarrow> hardware \<Rightarrow> string \<Rightarrow> (db, codes_err + string) state" where
  "enroll_tx c name hw hash = transaction (\<lambda>now.
     and_then (on_err CodesPg (sql (insert_worker now (c_owner c) name hw hash))) (\<lambda>workerID.
     and_then (on_err CodesPg (sql (consume_code now (c_id c) workerID))) (\<lambda>n.
     ret (if n = 0 then Inl ErrCodeInvalid else Inr workerID))))"

text \<open>The \<open>SELECT\<close> phase of \<open>Enroll\<close>: the first candidate whose hash matches.\<close>

definition find_code :: "runtime \<Rightarrow> string \<Rightarrow> (db, codes_err + code_row) state" where
  "find_code rt nrm = and_then code_candidates (\<lambda>cs.
     ret (case find (\<lambda>c. bcrypt_cmp rt (c_hash c) nrm) cs of
       None \<Rightarrow> Inl ErrCodeInvalid | Some c \<Rightarrow> Inr c))"

definition enroll_kind :: "hardware \<Rightarrow> hardware" where
  "enroll_kind hw = (if hw_kind hw \<noteq> ''browser'' then hw\<lparr>hw_kind := ''native''\<rparr> else hw)"

text \<open>The rest of \<open>Enroll\<close>: a token, and the transaction for the matching candidate.\<close>

definition enroll_match :: "runtime \<Rightarrow> string \<Rightarrow> hardware \<Rightarrow> code_row \<Rightarrow> (db, codes_err + enroll_result) state" where
  "enroll_match rt name hw c = do {
     n \<leftarrow> gets tick;
     case NewWorkerToken rt (rand_bytes rt n 32) of
       Inl e \<Rightarrow> ret (Inl e)
     | Inr (plain, hash) \<Rightarrow> and_then (enroll_tx c name hw hash) (\<lambda>w.
         ret (Inr \<lparr>er_worker = w, er_token = plain, er_owner = c_owner c\<rparr>))
   }"

definition Enroll :: "runtime \<Rightarrow> string \<Rightarrow> string \<Rightarrow> hardware \<Rightarrow> (db, codes_err + enroll_result) state" where
  "Enroll rt code name hw = (let nrm = NormalizeCode rt code in
     if length nrm \<noteq> 10 then ret (Inl ErrCodeInvalid)
     else and_then (find_code rt nrm) (enroll_match rt name (enroll_kind hw)))"

definition CheckCode :: "runtime \<Rightarrow> string \<Rightarrow> (db, codes_err + unit) state" where
  "CheckCode rt code = (let nrm = NormalizeCode rt code in
     if length nrm \<noteq> 10 then ret (Inl ErrCodeInvalid)
     else and_then code_candidates (\<lambda>cs.
       ret (if \<exists>c \<in> set cs. bcrypt_cmp rt (c_hash c) nrm then Inr () else Inl ErrCodeInvalid)))"

text \<open>\<open>now\<close> is the process clock of \<open>time.Since\<close>.\<close>

definition AuthenticateWorker ::
  "runtime \<Rightarrow> int \<Rightarrow> string \<Rightarrow> (db, codes_err + (string \<times> string \<times> string)) state" where
  "AuthenticateWorker rt now token =
     and_then (on_err (\<lambda>e. if e = NoRows then ErrCodeInvalid else CodesPg e)
       (query (\<lambda>s. one_row (unordered s (filter (\<lambda>k. k_token k = HashToken rt token) (workers s)))))) (\<lambda>k.
     ret (if k_revoked k \<noteq> None then Inl WorkerRevoked
       else if k_kind k = ''browser'' \<and> now - k_enrolled k > BrowserTokenTTL then Inl TokenExpired
       else Inr (k_id k, k_owner k, k_kind k)))"

subsection \<open>The bits of a code\<close>

lemma crockford_length [simp]: "length crockford = 32"
  by (simp add: crockford_def)

lemma crockford_distinct: "distinct crockford"
  by (simp add: crockford_def)

lemma group_bound: "unat (w AND 31 :: i64) < 32"
proof -
  have "w AND 31 \<le> (31 :: i64)" by (rule word_and_le1)
  then have "unat (w AND 31 :: i64) \<le> unat (31 :: i64)" by (simp only: word_le_nat_alt)
  then show ?thesis by simp
qed

definition group :: "nat \<Rightarrow> i64 \<Rightarrow> char" where
  "group k acc = crockford ! unat (signed_drop_bit k acc AND 31)"

lemma group_inj: "group k a = group k b \<Longrightarrow> signed_drop_bit k a AND 31 = signed_drop_bit k b AND 31"
  using crockford_distinct by (simp add: group_def nth_eq_iff_index_eq group_bound word_unat_eq_iff)

lemma emit_step: "emit acc bits sb = (if bits \<ge> 5 then
       if length sb = 9 then (bits - 5, sb @ [group (bits - 5) acc]) else emit acc (bits - 5) (sb @ [group (bits - 5) acc])
     else (bits, sb))"
  by (subst emit.simps) (simp add: group_def)

lemma emit_eval: 
  "length sb = 0 \<Longrightarrow> emit acc 8 sb = (3, sb @ [group 3 acc])"
  "length sb = 1 \<Longrightarrow> emit acc 11 sb = (1, sb @ [group 6 acc, group 1 acc])"
  "length sb = 3 \<Longrightarrow> emit acc 9 sb = (4, sb @ [group 4 acc])"
  "length sb = 4 \<Longrightarrow> emit acc 12 sb = (2, sb @ [group 7 acc, group 2 acc])"
  "length sb = 6 \<Longrightarrow> emit acc 10 sb = (0, sb @ [group 5 acc, group 0 acc])"
  "length sb = 8 \<Longrightarrow> emit acc 8 sb = (3, sb @ [group 3 acc])"
  "length sb = 9 \<Longrightarrow> emit acc 11 sb = (6, sb @ [group 6 acc])"
  by (simp_all add: emit_step)

definition shift_in :: "i64 \<Rightarrow> char \<Rightarrow> i64" where
  "shift_in acc by = push_bit 8 acc OR of_char by"

lemma shift_in_0 [simp]: "shift_in 0 b = of_char b"
  by (simp add: shift_in_def)

lemma code_loop_seven:
  "code_loop [b0, b1, b2, b3, b4, b5, b6] 0 0 [] =
    (let a0 = shift_in 0 b0; a1 = shift_in a0 b1; a2 = shift_in a1 b2; a3 = shift_in a2 b3;
         a4 = shift_in a3 b4; a5 = shift_in a4 b5; a6 = shift_in a5 b6 in
     [group 3 a0, group 6 a1, group 1 a1, group 4 a2, group 7 a3, group 2 a3, group 5 a4, group 0 a4,
      group 3 a5, group 6 a6])"
  by (simp add: Let_def emit_eval shift_in_def [symmetric])

lemma bit_nat_char: "bit (of_char c :: nat) n \<Longrightarrow> n < 8"
proof (rule ccontr)
  assume b: "bit (of_char c :: nat) n" and n: "\<not> n < 8"
  have "(of_char c :: nat) < 2 ^ 8" by simp
  also have "(2 :: nat) ^ 8 \<le> 2 ^ n" using n by (intro power_increasing) auto
  finally show False using b by (simp add: bit_iff_odd)
qed

lemma bit_of_char: "bit (of_char c :: i64) n \<longleftrightarrow> n < 8 \<and> bit (of_char c :: nat) n"
proof -
  have "(of_char c :: i64) = of_nat (of_char c)" by (rule of_nat_of_char [symmetric])
  then show ?thesis by (auto simp: bit_of_nat_iff dest: bit_nat_char simp del: of_nat_of_char)
qed

lemma bit_shift_in:
  "n < 64 \<Longrightarrow> bit (shift_in a c) n \<longleftrightarrow> (if n < 8 then bit (of_char c :: nat) n else bit a (n - 8))"
  by (auto simp: shift_in_def bit_or_iff bit_push_bit_iff bit_of_char)

lemma thirtyone: "(31 :: i64) = mask 5"
  by (simp add: mask_eq_exp_minus_1)

lemma group_bits: "k \<le> 59 \<Longrightarrow> group k a = group k b \<longleftrightarrow> (\<forall>i < 5. bit a (k + i) = bit b (k + i))"
proof
  assume k: "k \<le> 59" and "group k a = group k b"
  then have e: "signed_drop_bit k a AND mask 5 = signed_drop_bit k b AND mask 5"
    using group_inj unfolding thirtyone by blast
  show "\<forall>i < 5. bit a (k + i) = bit b (k + i)"
  proof (intro allI impI)
    fix i :: nat assume i: "i < 5"
    then have "\<not> LENGTH(64) - k \<le> i" using k by simp
    then show "bit a (k + i) = bit b (k + i)"
      using arg_cong [OF e, of "\<lambda>w. bit w i"] i k by (simp add: bit_and_iff bit_signed_drop_bit_iff bit_mask_iff)
  qed
next
  assume k: "k \<le> 59" and e: "\<forall>i < 5. bit a (k + i) = bit b (k + i)"
  have "signed_drop_bit k a AND mask 5 = signed_drop_bit k b AND mask 5"
    by (rule bit_word_eqI) (use e k in \<open>auto simp: bit_and_iff bit_signed_drop_bit_iff bit_mask_iff\<close>)
  then show "group k a = group k b" by (simp add: group_def thirtyone)
qed

lemma char_bits: "c = d \<longleftrightarrow> (\<forall>i < 8. bit (of_char c :: nat) i = bit (of_char d :: nat) i)"
proof
  assume e: "\<forall>i < 8. bit (of_char c :: nat) i = bit (of_char d :: nat) i"
  have "(of_char c :: nat) = of_char d"
  proof (rule bit_eqI)
    fix n show "bit (of_char c :: nat) n = bit (of_char d :: nat) n"
      using e bit_nat_char [of c n] bit_nat_char [of d n] by blast
  qed
  then show "c = d" by simp
qed simp

lemma all_less_five: "(\<forall>i < 5. P i) \<longleftrightarrow> P 0 \<and> P 1 \<and> P 2 \<and> P 3 \<and> P (4 :: nat)"
  by (simp add: numeral_eq_Suc All_less_Suc conj_ac)

lemma all_less_eight: "(\<forall>i < 8. P i) \<longleftrightarrow> P 0 \<and> P 1 \<and> P 2 \<and> P 3 \<and> P 4 \<and> P 5 \<and> P 6 \<and> P (7 :: nat)"
  by (simp add: numeral_eq_Suc All_less_Suc conj_ac)

lemma code_loop_inj:
  "code_loop [b0, b1, b2, b3, b4, b5, b6] 0 0 [] = code_loop [c0, c1, c2, c3, c4, c5, c6] 0 0 [] \<longleftrightarrow>
   b0 = c0 \<and> b1 = c1 \<and> b2 = c2 \<and> b3 = c3 \<and> b4 = c4 \<and> b5 = c5 \<and>
   bit (of_char b6 :: nat) 7 = bit (of_char c6 :: nat) 7 \<and> bit (of_char b6 :: nat) 6 = bit (of_char c6 :: nat) 6"
  unfolding char_bits code_loop_seven Let_def
  apply (simp add: group_bits all_less_five all_less_eight bit_shift_in bit_of_char)
  apply (simp add: numeral_eq_Suc)
  apply (rule iffI; (elim conjE); (intro conjI); assumption)
  done

end
