(* ===== verification/Integrity.thy ===== *)
theory Integrity
  imports Codes
begin

text \<open>
  What the database promises whatever the program does: keys are unique, references resolve, and the
  two percentages stay in range (\<open>db_ok\<close>). \<open>db_call\<close> is the relation of one call of the store or of the
  join-code component; the invariant holds in every state such calls reach.
\<close>

subsection \<open>Upserts\<close>

interpretation rollup_table: upsert_table rollup_key upsert_rollup rollup_key
proof unfold_locales
  fix a rs
  show "map rollup_key (upsert_rollup a rs) =
    (if rollup_key a \<in> set (map rollup_key rs) then map rollup_key rs else map rollup_key rs @ [rollup_key a])"
    by (simp add: upsert_rollup_def upd_where_def)
next
  fix a r rs assume "rollup_key r \<noteq> rollup_key a"
  then show "r \<in> set (upsert_rollup a rs) \<longleftrightarrow> r \<in> set rs"
    by (auto simp: upsert_rollup_def set_upd_where)
qed

interpretation curset_table: upsert_table curset_key upsert_curset curset_key
proof unfold_locales
  fix a rs
  show "map curset_key (upsert_curset a rs) =
    (if curset_key a \<in> set (map curset_key rs) then map curset_key rs else map curset_key rs @ [curset_key a])"
    by (simp add: upsert_curset_def upd_where_def)
next
  fix a r rs assume "curset_key r \<noteq> curset_key a"
  then show "r \<in> set (upsert_curset a rs) \<longleftrightarrow> r \<in> set rs"
    by (auto simp: upsert_curset_def set_upd_where)
qed

definition put_exchange :: "(string \<times> string) \<times> string list \<times> string option \<Rightarrow> exchange_row list \<Rightarrow> exchange_row list" where
  "put_exchange = (\<lambda>((owner, ex), curs, key). upsert_exchange owner ex curs key)"

interpretation exchange_table: upsert_table exchange_key put_exchange fst
proof unfold_locales
  fix a :: "(string \<times> string) \<times> string list \<times> string option" and rs
  show "map exchange_key (put_exchange a rs) =
    (if fst a \<in> set (map exchange_key rs) then map exchange_key rs else map exchange_key rs @ [fst a])"
    by (cases a) (auto simp: put_exchange_def upsert_exchange_def upd_where_def exchange_key_def)
next
  fix a :: "(string \<times> string) \<times> string list \<times> string option" and r rs assume "exchange_key r \<noteq> fst a"
  then show "r \<in> set (put_exchange a rs) \<longleftrightarrow> r \<in> set rs"
    by (cases a) (auto simp: put_exchange_def upsert_exchange_def set_upd_where exchange_key_def image_iff split: if_splits)
qed

definition put_setting :: "(string \<times> string) \<times> json \<Rightarrow> ((string \<times> string) \<times> json) list \<Rightarrow> ((string \<times> string) \<times> json) list" where
  "put_setting = (\<lambda>(k, v). aput k v)"

interpretation setting_table: upsert_table fst put_setting fst
proof unfold_locales
  fix a :: "(string \<times> string) \<times> json" and rs
  show "map fst (put_setting a rs) = (if fst a \<in> set (map fst rs) then map fst rs else map fst rs @ [fst a])"
    by (cases a) (simp add: put_setting_def AList.update_keys)
next
  fix a r :: "(string \<times> string) \<times> json" and rs assume "fst r \<noteq> fst a"
  then show "r \<in> set (put_setting a rs) \<longleftrightarrow> r \<in> set rs"
    by (induction rs) (auto simp: put_setting_def split: prod.splits if_splits)
qed

subsection \<open>The invariant\<close>

definition payout_key :: "payout_row \<Rightarrow> string \<times> string option" where
  "payout_key p = (p_currency p, p_txid p)"

definition wallet_key :: "wallet_row \<Rightarrow> string \<times> string" where
  "wallet_key w = (w_owner w, w_currency w)"

definition with_txid :: "payout_row list \<Rightarrow> payout_row list" where
  "with_txid ps = filter (\<lambda>p. p_txid p \<noteq> None) ps"

definition keys_ok :: "db \<Rightarrow> bool" where
  "keys_ok s \<longleftrightarrow>
     distinct (map cur_id (currencies s)) \<and> distinct (map symbol (currencies s)) \<and>
     distinct (map w_id (wallets s)) \<and> distinct (map wallet_key (wallets s)) \<and>
     distinct (map m_id (miners s)) \<and> distinct (map r_id (runs s)) \<and>
     distinct (map k_id (workers s)) \<and> distinct (map c_id (codes s)) \<and> distinct (map j_id (jobs s)) \<and>
     distinct (map rollup_key (rollups s)) \<and>
     distinct (map p_id (payouts s)) \<and> distinct (map payout_key (with_txid (payouts s))) \<and>
     distinct (map fst (settings s)) \<and> distinct (map curset_key (curset s)) \<and>
     distinct (map exchange_key (exchanges s))"

definition refs_ok :: "db \<Rightarrow> bool" where
  "refs_ok s \<longleftrightarrow>
     w_currency ` set (wallets s) \<subseteq> cur_id ` set (currencies s) \<and>
     m_currency ` set (miners s) \<subseteq> cur_id ` set (currencies s) \<and>
     m_wallet ` set (miners s) \<subseteq> insert None (Some ` w_id ` set (wallets s)) \<and>
     r_miner ` set (runs s) \<subseteq> m_id ` set (miners s) \<and>
     c_consumed_by ` set (codes s) \<subseteq> insert None (Some ` k_id ` set (workers s)) \<and>
     j_miner ` set (jobs s) \<subseteq> m_id ` set (miners s) \<and>
     j_worker ` set (jobs s) \<subseteq> k_id ` set (workers s) \<and>
     s_miner ` set (samples s) \<subseteq> m_id ` set (miners s) \<and>
     s_worker ` set (samples s) \<subseteq> insert None (Some ` k_id ` set (workers s)) \<and>
     u_miner ` set (rollups s) \<subseteq> m_id ` set (miners s) \<and>
     b_miner ` set (blocks s) \<subseteq> insert None (Some ` m_id ` set (miners s)) \<and>
     b_currency ` set (blocks s) \<subseteq> cur_id ` set (currencies s) \<and>
     p_currency ` set (payouts s) \<subseteq> cur_id ` set (currencies s) \<and>
     p_wallet ` set (payouts s) \<subseteq> insert None (Some ` w_id ` set (wallets s)) \<and>
     cs_currency ` set (curset s) \<subseteq> cur_id ` set (currencies s)"

definition pcts_ok :: "db \<Rightarrow> bool" where
  "pcts_ok s \<longleftrightarrow> (\<forall>m \<in> set (miners s). pct_ok (m_cpu m) (m_gpu m))"

definition db_ok :: "db \<Rightarrow> bool" where
  "db_ok s \<longleftrightarrow> keys_ok s \<and> refs_ok s \<and> pcts_ok s"

lemma db_ok_tick [simp]: "db_ok (s\<lparr>tick := n\<rparr>) = db_ok s"
  by (simp add: db_ok_def keys_ok_def refs_ok_def pcts_ok_def)

lemmas db_ok_defs = db_ok_def keys_ok_def refs_ok_def pcts_ok_def

lemma keeps_stmt: "(\<And>s a t. db_ok s \<Longrightarrow> f s = Inr (a, t) \<Longrightarrow> db_ok t) \<Longrightarrow> keeps db_ok (sql f)"
  by (rule keeps_sql) auto

lemma keeps_read [keeps_intros]: "keeps db_ok (query f)"
  by (rule keeps_query) simp

lemma affected_keeps [keeps_intros]: "keeps db_ok m \<Longrightarrow> keeps db_ok (affected m)"
  unfolding affected_def by (intro keeps_intros) auto

lemma currency_rows_in: "currency_rows sy s = c # cs \<Longrightarrow> cur_id c \<in> cur_id ` set (currencies s)"
  using filter_is_subset [of "\<lambda>c. symbol c = sy" "currencies s"] by (auto simp: currency_rows_def)

lemma db_ok_keys:
  assumes "db_ok s"
  shows "distinct (map cur_id (currencies s))" "distinct (map symbol (currencies s))"
    "distinct (map w_id (wallets s))" "distinct (map wallet_key (wallets s))"
    "distinct (map m_id (miners s))" "distinct (map r_id (runs s))"
    "distinct (map k_id (workers s))" "distinct (map c_id (codes s))" "distinct (map j_id (jobs s))"
    "distinct (map rollup_key (rollups s))"
    "distinct (map p_id (payouts s))" "distinct (map payout_key (with_txid (payouts s)))"
    "distinct (map fst (settings s))" "distinct (map curset_key (curset s))"
    "distinct (map exchange_key (exchanges s))"
  using assms by (simp_all add: db_ok_def keys_ok_def)

lemma db_ok_refs:
  assumes "db_ok s"
  shows "w_currency ` set (wallets s) \<subseteq> cur_id ` set (currencies s)"
    "m_currency ` set (miners s) \<subseteq> cur_id ` set (currencies s)"
    "m_wallet ` set (miners s) \<subseteq> insert None (Some ` w_id ` set (wallets s))"
    "r_miner ` set (runs s) \<subseteq> m_id ` set (miners s)"
    "c_consumed_by ` set (codes s) \<subseteq> insert None (Some ` k_id ` set (workers s))"
    "j_miner ` set (jobs s) \<subseteq> m_id ` set (miners s)"
    "j_worker ` set (jobs s) \<subseteq> k_id ` set (workers s)"
    "s_miner ` set (samples s) \<subseteq> m_id ` set (miners s)"
    "s_worker ` set (samples s) \<subseteq> insert None (Some ` k_id ` set (workers s))"
    "u_miner ` set (rollups s) \<subseteq> m_id ` set (miners s)"
    "b_miner ` set (blocks s) \<subseteq> insert None (Some ` m_id ` set (miners s))"
    "b_currency ` set (blocks s) \<subseteq> cur_id ` set (currencies s)"
    "p_currency ` set (payouts s) \<subseteq> cur_id ` set (currencies s)"
    "p_wallet ` set (payouts s) \<subseteq> insert None (Some ` w_id ` set (wallets s))"
    "cs_currency ` set (curset s) \<subseteq> cur_id ` set (currencies s)"
  using assms by (simp_all add: db_ok_def refs_ok_def)

lemma db_ok_pcts: "db_ok s \<Longrightarrow> m \<in> set (miners s) \<Longrightarrow> pct_ok (m_cpu m) (m_gpu m)"
  by (simp add: db_ok_def pcts_ok_def)

text \<open>What a change of one table has to establish.\<close>

lemma ok_wallets:
  assumes "db_ok s" and "distinct (map w_id ws)" and "distinct (map wallet_key ws)"
    and "w_currency ` set ws \<subseteq> cur_id ` set (currencies s)"
    and "m_wallet ` set (miners s) \<subseteq> insert None (Some ` w_id ` set ws)"
    and "p_wallet ` set (payouts s) \<subseteq> insert None (Some ` w_id ` set ws)"
  shows "db_ok (s\<lparr>wallets := ws\<rparr>)"
  using assms by (simp add: db_ok_defs)

text \<open>Miner rows come and change, but none goes (the deletion is a change of six tables).\<close>

lemma ok_miners:
  assumes "db_ok s" and "distinct (map m_id ms)" and "m_id ` set (miners s) \<subseteq> m_id ` set ms"
    and "m_currency ` set ms \<subseteq> cur_id ` set (currencies s)"
    and "m_wallet ` set ms \<subseteq> insert None (Some ` w_id ` set (wallets s))"
    and "\<forall>m \<in> set ms. pct_ok (m_cpu m) (m_gpu m)"
  shows "db_ok (s\<lparr>miners := ms\<rparr>)"
proof -
  have "insert None (Some ` m_id ` set (miners s)) \<subseteq> insert None (Some ` m_id ` set ms)"
    using assms(3) by blast
  note up = subset_trans [OF _ assms(3)] subset_trans [OF _ this]
  show ?thesis
    using assms(2,4-6) db_ok_keys [OF assms(1)] db_ok_refs [OF assms(1)]
    by (simp add: db_ok_defs up)
qed

lemma ok_runs:
  assumes "db_ok s" and "distinct (map r_id rs)" and "r_miner ` set rs \<subseteq> m_id ` set (miners s)"
  shows "db_ok (s\<lparr>runs := rs\<rparr>)"
  using assms by (simp add: db_ok_defs)

lemma ok_workers:
  assumes "db_ok s" and "distinct (map k_id ks)" and "k_id ` set (workers s) \<subseteq> k_id ` set ks"
  shows "db_ok (s\<lparr>workers := ks\<rparr>)"
proof -
  have "insert None (Some ` k_id ` set (workers s)) \<subseteq> insert None (Some ` k_id ` set ks)"
    using assms(3) by blast
  note up = subset_trans [OF _ assms(3)] subset_trans [OF _ this]
  show ?thesis
    using assms(2) db_ok_keys [OF assms(1)] db_ok_refs [OF assms(1)] db_ok_pcts [OF assms(1)]
    by (simp add: db_ok_defs up)
qed

lemma ok_codes:
  assumes "db_ok s" and "distinct (map c_id cs)"
    and "c_consumed_by ` set cs \<subseteq> insert None (Some ` k_id ` set (workers s))"
  shows "db_ok (s\<lparr>codes := cs\<rparr>)"
  using assms by (simp add: db_ok_defs)

lemma ok_jobs:
  assumes "db_ok s" and "distinct (map j_id js)" and "j_miner ` set js \<subseteq> m_id ` set (miners s)"
    and "j_worker ` set js \<subseteq> k_id ` set (workers s)"
  shows "db_ok (s\<lparr>jobs := js\<rparr>)"
  using assms by (simp add: db_ok_defs)

lemma ok_samples:
  assumes "db_ok s" and "s_miner ` set xs \<subseteq> m_id ` set (miners s)"
    and "s_worker ` set xs \<subseteq> insert None (Some ` k_id ` set (workers s))"
  shows "db_ok (s\<lparr>samples := xs\<rparr>)"
  using assms by (simp add: db_ok_defs)

lemma ok_rollups:
  assumes "db_ok s" and "distinct (map rollup_key xs)" and "u_miner ` set xs \<subseteq> m_id ` set (miners s)"
  shows "db_ok (s\<lparr>rollups := xs\<rparr>)"
  using assms by (simp add: db_ok_defs)

lemma ok_payouts:
  assumes "db_ok s" and "distinct (map p_id ps)" and "distinct (map payout_key (with_txid ps))"
    and "p_currency ` set ps \<subseteq> cur_id ` set (currencies s)"
    and "p_wallet ` set ps \<subseteq> insert None (Some ` w_id ` set (wallets s))"
  shows "db_ok (s\<lparr>payouts := ps\<rparr>)"
  using assms by (simp add: db_ok_defs)

lemma ok_settings:
  assumes "db_ok s" and "distinct (map fst xs)"
  shows "db_ok (s\<lparr>settings := xs\<rparr>)"
  using assms by (simp add: db_ok_defs)

lemma ok_curset:
  assumes "db_ok s" and "distinct (map curset_key xs)" and "cs_currency ` set xs \<subseteq> cur_id ` set (currencies s)"
  shows "db_ok (s\<lparr>curset := xs\<rparr>)"
  using assms by (simp add: db_ok_defs)

lemma ok_exchanges:
  assumes "db_ok s" and "distinct (map exchange_key xs)"
  shows "db_ok (s\<lparr>exchanges := xs\<rparr>)"
  using assms by (simp add: db_ok_defs)

subsection \<open>Every statement preserves it\<close>

lemma ok_CreateWallet [keeps_intros]: "keeps db_ok (CreateWallet a b c d e)"
  unfolding CreateWallet_def
proof (intro keeps_intros keeps_stmt)
  fix s x t assume ok: "db_ok s" and "insert_wallet a b c d e s = Inr (x, t)"
  then obtain cu rest where cu: "currency_rows b s = cu # rest"
    and new: "new_uuid s \<notin> w_id ` set (wallets s)"
      "\<forall>w \<in> set (wallets s). \<not> (w_owner w = a \<and> w_currency w = cur_id cu)"
    and t: "t = s\<lparr>wallets := wallets s @ [\<lparr>w_id = new_uuid s, w_owner = a, w_currency = cur_id cu, w_address = c,
      w_label = nullif_empty d, w_validated = e, w_created = db_now s\<rparr>]\<rparr>"
    unfolding insert_wallet_def stmt_simps Let_def by auto
  have key: "(a, cur_id cu) \<notin> wallet_key ` set (wallets s)" using new(2) by (auto simp: wallet_key_def)
  show "db_ok t"
    unfolding t using new(1) key currency_rows_in [OF cu] db_ok_keys(3,4) [OF ok] db_ok_refs(1,3,14) [OF ok]
    by (intro ok_wallets [OF ok]) (auto simp: wallet_key_def)
qed

lemma delete_wallet_Inr:
  assumes "delete_wallet a b s = Inr (n, t)"
  obtains u where "uuid_of (env s) b = Some u"
    and "t = s\<lparr>wallets := filter (\<lambda>w. \<not> (w_id w = u \<and> w_owner w = a)) (wallets s)\<rparr>"
    and "n = length (filter (\<lambda>w. w_id w = u \<and> w_owner w = a) (wallets s))"
    and "\<And>w. w \<in> set (wallets s) \<Longrightarrow> w_id w = u \<Longrightarrow> w_owner w = a \<Longrightarrow>
      Some (w_id w) \<notin> m_wallet ` set (miners s) \<and> Some (w_id w) \<notin> p_wallet ` set (payouts s)"
proof -
  from assms obtain u where u: "uuid_of (env s) b = Some u"
    and free: "\<forall>w \<in> set (filter (\<lambda>w. w_id w = u \<and> w_owner w = a) (wallets s)).
      (\<forall>m \<in> set (miners s). m_wallet m \<noteq> Some (w_id w)) \<and> (\<forall>p \<in> set (payouts s). p_wallet p \<noteq> Some (w_id w))"
    and t: "(length (filter (\<lambda>w. w_id w = u \<and> w_owner w = a) (wallets s)),
       s\<lparr>wallets := filter (\<lambda>w. \<not> (w_id w = u \<and> w_owner w = a)) (wallets s)\<rparr>) = (n, t)"
    unfolding delete_wallet_def stmt_simps Let_def by blast
  show ?thesis
  proof (rule that [OF u])
    fix w assume "w \<in> set (wallets s)" "w_id w = u" "w_owner w = a"
    then show "Some (w_id w) \<notin> m_wallet ` set (miners s) \<and> Some (w_id w) \<notin> p_wallet ` set (payouts s)"
      using free by (auto simp: image_iff)
  qed (use t in simp_all)
qed

lemma ok_DeleteWallet [keeps_intros]: "keeps db_ok (DeleteWallet a b)"
  unfolding DeleteWallet_def
proof (intro keeps_intros keeps_stmt)
  fix s x t assume ok: "db_ok s" and "delete_wallet a b s = Inr (x, t)"
  then obtain u where t: "t = s\<lparr>wallets := filter (\<lambda>w. \<not> (w_id w = u \<and> w_owner w = a)) (wallets s)\<rparr>"
    and free: "\<And>w. w \<in> set (wallets s) \<Longrightarrow> w_id w = u \<Longrightarrow> w_owner w = a \<Longrightarrow>
      Some (w_id w) \<notin> m_wallet ` set (miners s) \<and> Some (w_id w) \<notin> p_wallet ` set (payouts s)"
    by (elim delete_wallet_Inr) blast
  have "X \<subseteq> insert None (Some ` w_id ` set (filter (\<lambda>w. \<not> (w_id w = u \<and> w_owner w = a)) (wallets s)))"
    if X: "X \<subseteq> insert None (Some ` w_id ` set (wallets s))"
      and none: "\<And>w. w \<in> set (wallets s) \<Longrightarrow> w_id w = u \<Longrightarrow> w_owner w = a \<Longrightarrow> Some (w_id w) \<notin> X" for X
  proof
    fix y assume y: "y \<in> X"
    with X consider "y = None" | w where "w \<in> set (wallets s)" "y = Some (w_id w)" by blast
    then show "y \<in> insert None (Some ` w_id ` set (filter (\<lambda>w. \<not> (w_id w = u \<and> w_owner w = a)) (wallets s)))"
      by cases (use none y in auto)
  qed
  note left = this [OF db_ok_refs(3) [OF ok]] this [OF db_ok_refs(14) [OF ok]]
  show "db_ok t"
    unfolding t
  proof (rule ok_wallets [OF ok])
    show "m_wallet ` set (miners s) \<subseteq> insert None (Some ` w_id ` set
        (filter (\<lambda>w. \<not> (w_id w = u \<and> w_owner w = a)) (wallets s)))"
      by (rule left(1)) (use free in blast)
    show "p_wallet ` set (payouts s) \<subseteq> insert None (Some ` w_id ` set
        (filter (\<lambda>w. \<not> (w_id w = u \<and> w_owner w = a)) (wallets s)))"
      by (rule left(2)) (use free in blast)
    show "w_currency ` set (filter (\<lambda>w. \<not> (w_id w = u \<and> w_owner w = a)) (wallets s))
      \<subseteq> cur_id ` set (currencies s)"
      using db_ok_refs(1) [OF ok] by auto
  qed (simp_all add: db_ok_keys [OF ok])
qed

lemma ok_upd_miners:
  assumes "db_ok s" and "\<And>m. m_id (g m) = m_id m" and "\<And>m. m_currency (g m) = m_currency m"
    and "\<And>m. m \<in> set (miners s) \<Longrightarrow> p m \<Longrightarrow> m_wallet (g m) \<in> insert None (Some ` w_id ` set (wallets s))"
    and "\<And>m. m \<in> set (miners s) \<Longrightarrow> p m \<Longrightarrow> pct_ok (m_cpu (g m)) (m_gpu (g m))"
  shows "db_ok (s\<lparr>miners := upd_where p g (miners s)\<rparr>)"
proof (rule ok_miners [OF assms(1)])
  show "m_wallet ` set (upd_where p g (miners s)) \<subseteq> insert None (Some ` w_id ` set (wallets s))"
  proof (rule image_subsetI)
    fix m assume "m \<in> set (upd_where p g (miners s))"
    then obtain m' where m': "m' \<in> set (miners s)" "m = (if p m' then g m' else m')"
      by (auto simp: set_upd_where)
    have "m_wallet m' \<in> insert None (Some ` w_id ` set (wallets s))"
      using m'(1) db_ok_refs(3) [OF assms(1)] by blast
    then show "m_wallet m \<in> insert None (Some ` w_id ` set (wallets s))"
      using m' assms(4) [of m'] by (cases "p m'") simp_all
  qed
  show "\<forall>m \<in> set (upd_where p g (miners s)). pct_ok (m_cpu m) (m_gpu m)"
    using assms(5) db_ok_pcts [OF assms(1)] by (auto simp: set_upd_where)
qed (use db_ok_keys [OF assms(1)] db_ok_refs [OF assms(1)] in \<open>simp_all add: assms upd_where_image_same\<close>)

lemma miner_rows_in: "(m, c) \<in> set (miner_rows owner u s) \<longleftrightarrow>
  m \<in> set (miners s) \<and> c \<in> set (currencies s) \<and> cur_id c = m_currency m \<and> m_id m = u \<and> m_owner m = owner"
  by (auto simp: miner_rows_def split: if_splits)

lemma update_miner_ok:
  assumes "db_ok s" and "update_miner owner u g bad s = Inr (x, t)"
    and "\<And>m. m_id (g s m) = m_id m" and "\<And>m. m_currency (g s m) = m_currency m"
    and "\<And>m. m \<in> set (miners s) \<Longrightarrow> bad s (g s m) = None \<Longrightarrow>
      m_wallet (g s m) \<in> insert None (Some ` w_id ` set (wallets s)) \<and> pct_ok (m_cpu (g s m)) (m_gpu (g s m))"
  shows "db_ok t"
proof -
  from assms(2) obtain m c rest where row: "miner_rows owner u s = (m, c) # rest"
    and b: "bad s (g s m) = None"
    and t: "t = s\<lparr>miners := upd_where (\<lambda>m. m_id m = u \<and> m_owner m = owner) (g s) (miners s)\<rparr>"
    by (auto simp: update_miner_def stmt_simps split: option.splits)
  have "(m, c) \<in> set (miner_rows owner u s)" by (simp add: row)
  then have m: "m \<in> set (miners s)" "m_id m = u" by (simp_all add: miner_rows_in)
  have only: "m' = m" if "m' \<in> set (miners s)" "m_id m' = u" for m'
    using distinct_map_eqD [OF db_ok_keys(5) [OF assms(1)]] that m by blast
  show "db_ok t"
    unfolding t by (rule ok_upd_miners [OF assms(1,3,4)]) (use assms(5) [OF m(1) b] only in auto)
qed

lemma ok_CreateMiner [keeps_intros]: "keeps db_ok (CreateMiner p)"
  unfolding CreateMiner_def GetMiner_def
proof (intro keeps_intros keeps_stmt)
  fix s x t assume ok: "db_ok s" and "insert_miner p s = Inr (x, t)"
  then obtain m where t: "t = s\<lparr>miners := miners s @ [m]\<rparr>" and m: "m_id m \<notin> m_id ` set (miners s)"
    "m_currency m \<in> cur_id ` set (currencies s)" "wallet_ref_ok s (m_wallet m)" "pct_ok (m_cpu m) (m_gpu m)"
    by (fastforce simp: insert_miner_def stmt_simps dest: currency_rows_in split: option.splits)
  have "m_wallet m \<in> insert None (Some ` w_id ` set (wallets s))"
    using m(3) by (auto simp: wallet_ref_ok_def split: option.splits)
  then show "db_ok t"
    unfolding t by (intro ok_miners) (use ok m db_ok_keys [OF ok] db_ok_refs [OF ok] db_ok_pcts [OF ok] in auto)
qed

lemma ok_PatchMiner [keeps_intros]: "keeps db_ok (PatchMiner a b c d e)"
  unfolding PatchMiner_def
proof (intro keeps_intros keeps_stmt)
  fix s x t assume ok: "db_ok s" and "with_uuid s b (\<lambda>u. with_uuid_opt s d (\<lambda>wid.
    update_miner a u (patch_row c wid e)
     (\<lambda>s m. if wallet_ref_ok s (m_wallet m) then None else Some ForeignKeyViolation) s)) = Inr (x, t)"
  then obtain u wid where "update_miner a u (patch_row c wid e)
     (\<lambda>s m. if wallet_ref_ok s (m_wallet m) then None else Some ForeignKeyViolation) s = Inr (x, t)"
    by (elim with_uuid_ex [elim_format] with_uuid_opt_ex [elim_format] exE)
  then show "db_ok t"
    by (rule update_miner_ok [OF ok])
      (use db_ok_pcts [OF ok] in
        \<open>auto simp: patch_row_def wallet_ref_ok_def split: if_splits option.splits\<close>)
qed

lemma ok_SetMinerStatus [keeps_intros]: "keeps db_ok (SetMinerStatus a b)"
  unfolding SetMinerStatus_def
proof (intro keeps_intros keeps_stmt)
  fix s x t assume ok: "db_ok s" and "with_uuid s a (\<lambda>u. Inr ((), s\<lparr>miners := upd_where (\<lambda>m. m_id m = u)
    (\<lambda>m. m\<lparr>m_status := b, m_updated := db_now s\<rparr>) (miners s)\<rparr>)) = Inr (x, t)"
  then obtain u where t: "t = s\<lparr>miners := upd_where (\<lambda>m. m_id m = u)
    (\<lambda>m. m\<lparr>m_status := b, m_updated := db_now s\<rparr>) (miners s)\<rparr>"
    by (auto simp: with_uuid_Inr)
  show "db_ok t"
    unfolding t by (rule ok_upd_miners [OF ok])
      (use db_ok_refs(3) [OF ok] db_ok_pcts [OF ok] in \<open>auto simp: image_subset_iff\<close>)
qed

lemma ok_SetMinerAllocation [keeps_intros]: "keeps db_ok (SetMinerAllocation a b c d)"
  unfolding SetMinerAllocation_def
proof (intro keeps_intros keeps_stmt)
  fix s x t assume ok: "db_ok s" and "with_uuid s b (\<lambda>u. require (int4 c \<and> int4 d) BadInput (update_miner a u
     (\<lambda>s m. m\<lparr>m_cpu := c, m_gpu := d, m_updated := db_now s\<rparr>)
     (\<lambda>s m. if pct_ok (m_cpu m) (m_gpu m) then None else Some CheckViolation) s)) = Inr (x, t)"
  then obtain u where "update_miner a u (\<lambda>s m. m\<lparr>m_cpu := c, m_gpu := d, m_updated := db_now s\<rparr>)
     (\<lambda>s m. if pct_ok (m_cpu m) (m_gpu m) then None else Some CheckViolation) s = Inr (x, t)"
    by (auto simp: stmt_simps)
  then show "db_ok t"
    by (rule update_miner_ok [OF ok]) (use db_ok_refs(3) [OF ok] in \<open>auto split: if_splits\<close>)
qed

lemma drop_miners_ok:
  assumes ok: "db_ok s"
  shows "db_ok (drop_miners p s)"
proof -
  note refs = db_ok_refs [OF ok]
  show ?thesis
    unfolding db_ok_defs drop_miners_def Let_def
    by (simp add: db_ok_keys [OF ok] db_ok_pcts [OF ok] refs upd_where_image_same
        cascade_refs [OF refs(4)] cascade_refs [OF refs(6)] cascade_refs [OF refs(8)] cascade_refs [OF refs(10)]
        set_null_refs [OF refs(11)] image_filter_subset [OF refs(2)] image_filter_subset [OF refs(3)]
        image_filter_subset [OF refs(7)] image_filter_subset [OF refs(9)] del: set_filter)
      (use db_ok_pcts [OF ok] in auto)
qed

lemma drop_workers_ok:
  assumes ok: "db_ok s"
  shows "db_ok (drop_workers p s)"
proof -
  note refs = db_ok_refs [OF ok]
  show ?thesis
    unfolding db_ok_defs drop_workers_def Let_def
    by (simp add: db_ok_keys [OF ok] db_ok_pcts [OF ok] refs upd_where_image_same
        cascade_refs [OF refs(7)] set_null_refs [OF refs(5)] set_null_refs [OF refs(9)]
        image_filter_subset [OF refs(6)] del: set_filter)
qed

lemma ok_DeleteMiner [keeps_intros]: "keeps db_ok (DeleteMiner a b)"
  unfolding DeleteMiner_def Let_def
  by (intro keeps_intros keeps_stmt) (auto simp: with_uuid_Inr intro: drop_miners_ok)

lemma ok_DeleteWorker [keeps_intros]: "keeps db_ok (DeleteWorker a b)"
  unfolding DeleteWorker_def Let_def
  by (intro keeps_intros keeps_stmt) (auto simp: with_uuid_Inr intro: drop_workers_ok)

lemma ok_OpenRun [keeps_intros]: "keeps db_ok (OpenRun a)"
  unfolding OpenRun_def
proof (intro keeps_intros keeps_stmt)
  fix s x t assume ok: "db_ok s" and "with_uuid s a (\<lambda>u. with_new_id s (map r_id (runs s)) (\<lambda>i.
     require (u \<in> m_id ` set (miners s)) ForeignKeyViolation
     (Inr (i, s\<lparr>runs := runs s @ [\<lparr>r_id = i, r_miner = u, r_started = db_now s, r_stopped = None,
        r_reason = None, r_avg = None, r_acc = 0, r_rej = 0\<rparr>]\<rparr>)))) = Inr (x, t)"
  then obtain r where t: "t = s\<lparr>runs := runs s @ [r]\<rparr>" and r: "r_id r \<notin> r_id ` set (runs s)"
    "r_miner r \<in> m_id ` set (miners s)"
    by (fastforce simp: stmt_simps)
  show "db_ok t"
    unfolding t by (rule ok_runs [OF ok]) (use r db_ok_keys(6) [OF ok] db_ok_refs(4) [OF ok] in auto)
qed

lemma ok_upd_runs:
  "db_ok s \<Longrightarrow> (\<And>r. r_id (g r) = r_id r) \<Longrightarrow> (\<And>r. r_miner (g r) = r_miner r) \<Longrightarrow>
   db_ok (s\<lparr>runs := upd_where p g (runs s)\<rparr>)"
  by (rule ok_runs) (simp_all add: upd_where_image_same db_ok_keys db_ok_refs)

lemma ok_upd_workers:
  "db_ok s \<Longrightarrow> (\<And>r. k_id (g r) = k_id r) \<Longrightarrow> db_ok (s\<lparr>workers := upd_where p g (workers s)\<rparr>)"
  by (rule ok_workers) (simp_all add: upd_where_image_same db_ok_keys db_ok_refs)

lemma ok_upd_jobs:
  "db_ok s \<Longrightarrow> (\<And>r. j_id (g r) = j_id r) \<Longrightarrow> (\<And>r. j_miner (g r) = j_miner r) \<Longrightarrow>
   (\<And>r. j_worker (g r) = j_worker r) \<Longrightarrow> db_ok (s\<lparr>jobs := upd_where p g (jobs s)\<rparr>)"
  by (rule ok_jobs) (simp_all add: upd_where_image_same db_ok_keys db_ok_refs)

lemma ok_CloseRun [keeps_intros]: "keeps db_ok (CloseRun a b c d e)"
  unfolding CloseRun_def
  by (intro keeps_intros keeps_stmt) (clarsimp simp: with_uuid_Inr ok_upd_runs)

lemma ok_InsertMetricSample [keeps_intros]: "keeps db_ok (InsertMetricSample a b c d e)"
  unfolding InsertMetricSample_def
proof (intro keeps_intros keeps_stmt)
  fix s x t assume ok: "db_ok s" and "with_uuid s a (\<lambda>u. with_uuid_opt s b (\<lambda>w.
     require (int4 d \<and> int4 e) BadInput
     (require (u \<in> m_id ` set (miners s)) ForeignKeyViolation
     (require (case w of None \<Rightarrow> True | Some k \<Rightarrow> k \<in> k_id ` set (workers s)) ForeignKeyViolation
     (Inr ((), s\<lparr>samples := samples s @ [\<lparr>s_miner = u, s_worker = w, s_ts = db_now s, s_rate = c,
        s_acc = d, s_rej = e\<rparr>]\<rparr>)))))) = Inr (x, t)"
  then obtain u w where "u \<in> m_id ` set (miners s)"
      "case w of None \<Rightarrow> True | Some k \<Rightarrow> k \<in> k_id ` set (workers s)"
    and t: "t = s\<lparr>samples := samples s @ [\<lparr>s_miner = u, s_worker = w, s_ts = db_now s, s_rate = c,
        s_acc = d, s_rej = e\<rparr>]\<rparr>"
    by (elim with_uuid_ex [elim_format] with_uuid_opt_ex [elim_format] exE) (auto simp: require_Inr)
  then show "db_ok t"
    unfolding t by (intro ok_samples [OF ok])
      (use db_ok_refs(8,9) [OF ok] in \<open>auto split: option.splits\<close>)
qed

lemma group_samples_miners:
  "u_miner ` set (group_samples xs) \<subseteq> s_miner ` set xs"
  by (auto simp: group_samples_def aggregate_def sample_key_def)

lemma upsert_rollup_miners: "u_miner ` set (upsert_rollup r rs) = insert (u_miner r) (u_miner ` set rs)"
proof -
  have "fst ` rollup_key ` set (upsert_rollup r rs) = fst ` insert (rollup_key r) (rollup_key ` set rs)"
    by (simp only: rollup_table.put_key_set)
  then show ?thesis by (simp add: image_image rollup_key_def)
qed

lemma upsert_rollups_miners: "u_miner ` set (fold upsert_rollup as rs) = u_miner ` set as \<union> u_miner ` set rs"
  by (induction as arbitrary: rs) (auto simp: upsert_rollup_miners)

lemma rollup_stmt_ok: "db_ok s \<Longrightarrow> rollup_stmt s = Inr (x, t) \<Longrightarrow> db_ok t"
proof -
  assume ok: "db_ok s" and "rollup_stmt s = Inr (x, t)"
  then have t: "t = s\<lparr>rollups := fold upsert_rollup
     (group_samples (filter (\<lambda>x. s_ts x < date_trunc_hour (db_now s)) (samples s))) (rollups s)\<rparr>"
    by (simp add: rollup_stmt_def)
  note miners = subset_trans [OF group_samples_miners image_filter_subset [OF db_ok_refs(8) [OF ok]]]
  show "db_ok t"
    unfolding t
    by (intro ok_rollups [OF ok] rollup_table.puts_distinct db_ok_keys(10) [OF ok])
      (simp only: upsert_rollups_miners Un_subset_iff miners db_ok_refs(10) [OF ok])
qed

lemma prune_stmt_ok: "db_ok s \<Longrightarrow> prune_stmt s = Inr (x, t) \<Longrightarrow> db_ok t"
  unfolding prune_stmt_def
  by (simp only: sum.inject prod.inject, elim conjE, hypsubst)
    (intro ok_samples image_filter_subset db_ok_refs)

lemma ok_RollupOnce [keeps_intros]: "keeps db_ok RollupOnce"
  unfolding RollupOnce_def
  by (intro keeps_intros keeps_stmt) (auto intro: rollup_stmt_ok prune_stmt_ok)

lemma ok_PutSetting [keeps_intros]: "keeps db_ok (PutSetting a b c)"
  unfolding PutSetting_def
proof (intro keeps_intros keeps_stmt)
  fix s x t assume ok: "db_ok s" and "Inr ((), s\<lparr>settings := aput (a, b) c (settings s)\<rparr>) = Inr (x, t)"
  then have t: "t = s\<lparr>settings := put_setting ((a, b), c) (settings s)\<rparr>" by (simp add: put_setting_def)
  show "db_ok t"
    unfolding t by (intro ok_settings setting_table.put_distinct ok db_ok_keys(13) [OF ok])
qed

lemma upsert_curset_currency:
  "cs_currency ` set (upsert_curset x xs) = insert (cs_currency x) (cs_currency ` set xs)"
proof -
  have "snd ` curset_key ` set (upsert_curset x xs) = snd ` insert (curset_key x) (curset_key ` set xs)"
    by (simp only: curset_table.put_key_set)
  then show ?thesis by (simp add: image_image curset_key_def)
qed

lemma ok_PutCurrencySetting [keeps_intros]: "keeps db_ok (PutCurrencySetting a b c d e)"
  unfolding PutCurrencySetting_def
proof (intro keeps_intros keeps_stmt)
  fix s x t assume ok: "db_ok s" and step: "(case currency_rows b s of
     [] \<Rightarrow> Inr ((), s)
   | cu # _ \<Rightarrow> Inr ((), s\<lparr>curset := upsert_curset \<lparr>cs_owner = a, cs_currency = cur_id cu,
       cs_pool = nullif_empty c, cs_enabled = d, cs_adapter = e\<rparr> (curset s)\<rparr>)) = Inr (x, t)"
  show "db_ok t"
  proof (cases "currency_rows b s")
    case Nil
    with step ok show ?thesis by simp
  next
    case (Cons cu rest)
    then have t: "t = s\<lparr>curset := upsert_curset \<lparr>cs_owner = a, cs_currency = cur_id cu,
       cs_pool = nullif_empty c, cs_enabled = d, cs_adapter = e\<rparr> (curset s)\<rparr>"
      using step by simp
    show ?thesis
      unfolding t by (intro ok_curset curset_table.put_distinct ok db_ok_keys(14) [OF ok])
        (simp add: upsert_curset_currency currency_rows_in [OF Cons] db_ok_refs(15) [OF ok] del: image_iff)
  qed
qed

lemma ok_PutExchangeSetting [keeps_intros]: "keeps db_ok (PutExchangeSetting a b c d e)"
proof -
  have "db_ok (s\<lparr>exchanges := upsert_exchange a b cs key (exchanges s)\<rparr>)" if "db_ok s" for s cs key
    using exchange_table.put_distinct [of "exchanges s" "((a, b), cs, key)"] db_ok_keys(15) [OF that]
    by (intro ok_exchanges [OF that]) (simp add: put_exchange_def)
  then show ?thesis
    unfolding PutExchangeSetting_def Let_def by (intro keeps_intros keeps_stmt) auto
qed

lemma payout_appended_ok:
  assumes ok: "db_ok s" and id: "p_id p \<notin> p_id ` set (payouts s)"
    and cur: "p_currency p \<in> cur_id ` set (currencies s)"
    and wal: "p_wallet p \<in> insert None (Some ` w_id ` set (wallets s))"
    and dup: "p_txid p \<noteq> None \<Longrightarrow> \<forall>q \<in> set (payouts s). \<not> (p_currency q = p_currency p \<and> p_txid q = p_txid p)"
  shows "db_ok (s\<lparr>payouts := payouts s @ [p]\<rparr>)"
proof -
  have "payout_key p \<notin> payout_key ` set (with_txid (payouts s))" if "p_txid p \<noteq> None"
    using dup [OF that] by (auto simp: payout_key_def with_txid_def image_iff)
  then have "distinct (map payout_key (with_txid (payouts s @ [p])))"
    using db_ok_keys(12) [OF ok] by (auto simp: with_txid_def)
  then show ?thesis
    using id cur wal db_ok_keys(11) [OF ok] db_ok_refs(13,14) [OF ok] by (intro ok_payouts [OF ok]) auto
qed

lemma insert_payout_ok:
  assumes ok: "db_ok s" and step: "insert_payout a b c d e f g h i s = Inr (n, t)"
  shows "db_ok t"
proof (cases "currency_rows b s")
  case Nil
  with step ok show ?thesis by (simp add: insert_payout_def)
next
  case (Cons cu rest)
  define ws where "ws = filter (\<lambda>w. w_owner w = a \<and> w_currency w = cur_id cu \<and> w_address w = c) (wallets s)"
  define p where "p = \<lparr>p_id = new_uuid s, p_owner = a, p_currency = cur_id cu,
     p_wallet = (case ws of [] \<Rightarrow> None | w # _ \<Rightarrow> Some (w_id w)), p_amount = d, p_txid = nullif_empty e,
     p_url = nullif_empty f, p_pool = nullif_empty g, p_verified = False, p_paid = h, p_detected = db_now s,
     p_raw = i\<rparr>"
  have "set ws \<subseteq> set (wallets s)" by (auto simp: ws_def)
  then have wal: "p_wallet p \<in> insert None (Some ` w_id ` set (wallets s))"
    by (cases ws) (simp_all add: p_def)
  show ?thesis
  proof (cases "t = s")
    case False
    with step have "p_id p \<notin> p_id ` set (payouts s)" and t: "t = s\<lparr>payouts := payouts s @ [p]\<rparr>"
      and "p_txid p \<noteq> None \<Longrightarrow> \<forall>q \<in> set (payouts s). \<not> (p_currency q = p_currency p \<and> p_txid q = p_txid p)"
      unfolding insert_payout_def Cons list.case with_new_id_Inr Let_def p_def ws_def
      by (simp_all split: if_splits)
    with wal currency_rows_in [OF Cons] show ?thesis
      unfolding t by (intro payout_appended_ok [OF ok]) (simp_all add: p_def)
  qed (simp add: ok)
qed

lemma ok_InsertPayout [keeps_intros]: "keeps db_ok (InsertPayout a b c d e f g h i)"
  unfolding InsertPayout_def
  by (intro keeps_intros keeps_stmt) (rule insert_payout_ok)

lemma ok_SetWorkerStatus [keeps_intros]: "keeps db_ok (SetWorkerStatus a b)"
  unfolding SetWorkerStatus_def
  by (intro keeps_intros keeps_stmt) (clarsimp simp: with_uuid_Inr ok_upd_workers)

lemma ok_UpdateWorkerCaps [keeps_intros]: "keeps db_ok (UpdateWorkerCaps a b)"
  unfolding UpdateWorkerCaps_def
  by (intro keeps_intros keeps_stmt) (clarsimp simp: with_uuid_Inr ok_upd_workers)

lemma ok_RevokeWorker [keeps_intros]: "keeps db_ok (RevokeWorker a b)"
  unfolding RevokeWorker_def revoke_worker_def end_jobs_of_worker_def Let_def
  by (intro keeps_intros keeps_stmt) (clarsimp simp: with_uuid_Inr ok_upd_workers ok_upd_jobs)+

lemma ok_CreateSwarmJob [keeps_intros]: "keeps db_ok (CreateSwarmJob a b)"
  unfolding CreateSwarmJob_def
proof (intro keeps_intros keeps_stmt)
  fix s x t assume ok: "db_ok s" and "with_uuid s a (\<lambda>m. with_uuid s b (\<lambda>w. with_new_id s (map j_id (jobs s)) (\<lambda>i.
     require (m \<in> m_id ` set (miners s) \<and> w \<in> k_id ` set (workers s)) ForeignKeyViolation
     (Inr (i, s\<lparr>jobs := jobs s @ [\<lparr>j_id = i, j_miner = m, j_worker = w, j_assigned = db_now s,
        j_ended = None, j_status = ''assigned''\<rparr>]\<rparr>))))) = Inr (x, t)"
  then obtain j where t: "t = s\<lparr>jobs := jobs s @ [j]\<rparr>" and j: "j_id j \<notin> j_id ` set (jobs s)"
    "j_miner j \<in> m_id ` set (miners s)" "j_worker j \<in> k_id ` set (workers s)"
    by (fastforce simp: stmt_simps)
  show "db_ok t"
    unfolding t by (rule ok_jobs [OF ok]) (use j db_ok_keys(9) [OF ok] db_ok_refs(6,7) [OF ok] in auto)
qed

lemma ok_SetSwarmJobStatus [keeps_intros]: "keeps db_ok (SetSwarmJobStatus a b)"
  unfolding SetSwarmJobStatus_def
  by (intro keeps_intros keeps_stmt) (clarsimp simp: with_uuid_Inr ok_upd_jobs)+

subsection \<open>Join codes\<close>

lemma transaction_Inl: "run_state (transaction body) s = (Inl e, t) \<Longrightarrow> \<exists>n. t = s\<lparr>tick := n\<rparr>"
  by (auto simp: transaction_def rollback_to_def split: if_splits prod.splits sum.splits)

lemma transaction_Inr:
  "run_state (transaction body) s = (Inr a, t) \<Longrightarrow>
   \<exists>u. run_state (body (db_now s)) (bump s) = (Inr a, u) \<and> t = bump u"
  by (auto simp: transaction_def split: if_splits prod.splits sum.splits)

definition enrolled_row :: "int \<Rightarrow> string \<Rightarrow> string \<Rightarrow> string \<Rightarrow> hardware \<Rightarrow> string \<Rightarrow> worker_row" where
  "enrolled_row now i owner name hw hash = \<lparr>k_id = i, k_owner = owner, k_name = name, k_kind = hw_kind hw,
     k_os = hw_os hw, k_arch = hw_arch hw, k_cpu = hw_cpu hw, k_cores = hw_cores hw, k_gpu = hw_gpu hw,
     k_vram = hw_vram hw, k_caps = None, k_token = hash, k_status = ''enrolled'', k_seen = None,
     k_enrolled = now, k_revoked = None\<rparr>"

definition consumed :: "int \<Rightarrow> string \<Rightarrow> string \<Rightarrow> code_row list \<Rightarrow> code_row list" where
  "consumed now cid wid cs = upd_where (\<lambda>x. c_id x = cid \<and> redeemable now x)
     (\<lambda>x. x\<lparr>c_consumed_by := Some wid, c_consumed_at := Some now\<rparr>) cs"

lemma enroll_tx_Inr:
  assumes "run_state (enroll_tx c name hw hash) s = (Inr w, t)"
  shows "t = s\<lparr>workers := workers s @ [enrolled_row (db_now s) w (c_owner c) name hw hash],
           codes := consumed (db_now s) (c_id c) w (codes s), tick := tick t\<rparr>"
    and "w \<notin> k_id ` set (workers s)"
    and "\<exists>x \<in> set (codes s). c_id x = c_id c \<and> redeemable (db_now s) x"
proof -
  let ?p = "\<lambda>x. c_id x = c_id c \<and> redeemable (db_now s) x"
  have len: "length (filter ?p (codes s)) \<noteq> 0 \<longleftrightarrow> (\<exists>x \<in> set (codes s). ?p x)"
    by (auto simp: filter_empty_conv)
  from assms [unfolded enroll_tx_def, THEN transaction_Inr]
  have "t = s\<lparr>workers := workers s @ [enrolled_row (db_now s) w (c_owner c) name hw hash],
           codes := consumed (db_now s) (c_id c) w (codes s), tick := tick t\<rparr> \<and>
    w \<notin> k_id ` set (workers s) \<and> length (filter ?p (codes s)) \<noteq> 0"
    by (clarsimp simp only: inr_simps run_state_return insert_worker_def consume_code_def stmt_simps Let_def)
      (auto simp: enrolled_row_def consumed_def split: if_splits)
  then show "t = s\<lparr>workers := workers s @ [enrolled_row (db_now s) w (c_owner c) name hw hash],
           codes := consumed (db_now s) (c_id c) w (codes s), tick := tick t\<rparr>"
    and "w \<notin> k_id ` set (workers s)" and "\<exists>x \<in> set (codes s). ?p x"
    unfolding len by blast+
qed

lemma ok_enroll_tx [keeps_intros]: "keeps db_ok (enroll_tx c name hw hash)"
proof (rule keepsI)
  fix s assume ok: "db_ok s"
  obtain r t where run: "run_state (enroll_tx c name hw hash) s = (r, t)" by fastforce
  show "db_ok (snd (run_state (enroll_tx c name hw hash) s))"
  proof (cases r)
    case (Inl e)
    then show ?thesis using transaction_Inl ok run by (fastforce simp: enroll_tx_def)
  next
    case (Inr w)
    note e = enroll_tx_Inr [OF run [unfolded Inr]]
    let ?k = "enrolled_row (db_now s) w (c_owner c) name hw hash"
    have "db_ok (s\<lparr>workers := workers s @ [?k]\<rparr>)"
      using e(2) db_ok_keys(7) [OF ok] by (intro ok_workers [OF ok]) (auto simp: enrolled_row_def)
    moreover have "distinct (map c_id (consumed (db_now s) (c_id c) w (codes s)))"
      using db_ok_keys(8) [OF ok] by (simp add: consumed_def)
    moreover have "c_consumed_by ` set (consumed (db_now s) (c_id c) w (codes s)) \<subseteq>
        insert None (Some ` k_id ` set (workers s @ [?k]))"
      using db_ok_refs(5) [OF ok] by (auto simp: consumed_def set_upd_where enrolled_row_def split: if_splits)
    ultimately have "db_ok (s\<lparr>workers := workers s @ [?k], codes := consumed (db_now s) (c_id c) w (codes s)\<rparr>)"
      using ok_codes [of "s\<lparr>workers := workers s @ [?k]\<rparr>" "consumed (db_now s) (c_id c) w (codes s)"] by simp
    then show ?thesis
      using db_ok_tick [of "tick t" "s\<lparr>workers := workers s @ [?k], codes := consumed (db_now s) (c_id c) w (codes s)\<rparr>"]
        e(1) run by simp
  qed
qed

lemma ok_find_code [keeps_intros]: "keeps db_ok (find_code rt x)"
  unfolding find_code_def code_candidates_def by (intro keeps_intros)

lemma ok_Enroll [keeps_intros]: "keeps db_ok (Enroll rt code name hw)"
  unfolding Enroll_def enroll_match_def Let_def by (intro keeps_intros)

lemma ok_Codes_Create [keeps_intros]: "keeps db_ok (Codes_Create rt owner)"
  unfolding Codes_Create_def
proof (intro keeps_intros keeps_stmt)
  fix s x t hash assume ok: "db_ok s" and "insert_code owner hash s = Inr (x, t)"
  then obtain c where t: "t = s\<lparr>codes := codes s @ [c]\<rparr>"
    and c: "c_id c \<notin> c_id ` set (codes s)" "c_consumed_by c = None"
    by (fastforce simp: insert_code_def with_new_id_Inr)
  show "db_ok t"
    unfolding t by (rule ok_codes [OF ok]) (use c db_ok_keys(8) [OF ok] db_ok_refs(5) [OF ok] in auto)
qed

lemma ok_Codes_Revoke [keeps_intros]: "keeps db_ok (Codes_Revoke owner cid)"
  unfolding Codes_Revoke_def
  by (intro keeps_intros keeps_stmt)
    (auto simp: delete_code_def with_uuid_Inr Let_def db_ok_keys simp del: set_filter
      intro!: ok_codes image_filter_subset db_ok_refs)

subsection \<open>Calls\<close>

text \<open>
  One call of a method that writes, or a query. The flag says whether the two deletions that remove
  rows other rows remember (a worker, a miner) are among the calls.
\<close>

inductive db_call :: "bool \<Rightarrow> db \<Rightarrow> db \<Rightarrow> bool" where
  read: "db_call d s (bump s)"
| create_wallet: "db_call d s (snd (run_state (CreateWallet o1 sy addr l v) s))"
| delete_wallet: "db_call d s (snd (run_state (DeleteWallet o1 i) s))"
| create_miner: "db_call d s (snd (run_state (CreateMiner p) s))"
| patch_miner: "db_call d s (snd (run_state (PatchMiner o1 i n w u) s))"
| set_miner_status: "db_call d s (snd (run_state (SetMinerStatus i st) s))"
| set_miner_allocation: "db_call d s (snd (run_state (SetMinerAllocation o1 i c g) s))"
| open_run: "db_call d s (snd (run_state (OpenRun i) s))"
| close_run: "db_call d s (snd (run_state (CloseRun i why h acc rej) s))"
| insert_sample: "db_call d s (snd (run_state (InsertMetricSample i k h a1 r1) s))"
| rollup: "db_call d s (snd (run_state RollupOnce s))"
| put_setting: "db_call d s (snd (run_state (PutSetting o1 key val) s))"
| put_currency_setting: "db_call d s (snd (run_state (PutCurrencySetting o1 sy u on adapter) s))"
| put_exchange_setting: "db_call d s (snd (run_state (PutExchangeSetting o1 ex cs ak pk) s))"
| insert_payout: "db_call d s (snd (run_state (InsertPayout o1 sy addr amt tx url pool paid raw) s))"
| set_worker_status: "db_call d s (snd (run_state (SetWorkerStatus i st) s))"
| update_worker_caps: "db_call d s (snd (run_state (UpdateWorkerCaps i caps) s))"
| revoke_worker: "db_call d s (snd (run_state (RevokeWorker o1 i) s))"
| create_job: "db_call d s (snd (run_state (CreateSwarmJob i k) s))"
| set_job_status: "db_call d s (snd (run_state (SetSwarmJobStatus i st) s))"
| create_code: "db_call d s (snd (run_state (Codes_Create rt o1) s))"
| revoke_code: "db_call d s (snd (run_state (Codes_Revoke o1 i) s))"
| enroll: "db_call d s (snd (run_state (Enroll rt code n hw) s))"
| enroll_late: "db_call d s (snd (run_state (enroll_tx cr n hw hash) s))"
| delete_worker: "db_call True s (snd (run_state (DeleteWorker o1 i) s))"
| delete_miner: "db_call True s (snd (run_state (DeleteMiner o1 i) s))"

lemma db_call_ok: "db_call d s t \<Longrightarrow> db_ok s \<Longrightarrow> db_ok t"
  by (induction rule: db_call.induct) (simp, (erule keepsD [rotated], intro keeps_intros)+)

text \<open>A database on which the migrations have just run: the catalog, and empty tables.\<close>

definition fresh_db :: "db \<Rightarrow> bool" where
  "fresh_db s \<longleftrightarrow> distinct (map cur_id (currencies s)) \<and> distinct (map symbol (currencies s)) \<and>
     wallets s = [] \<and> miners s = [] \<and> runs s = [] \<and> workers s = [] \<and> codes s = [] \<and> jobs s = [] \<and>
     samples s = [] \<and> rollups s = [] \<and> payouts s = [] \<and> settings s = [] \<and> curset s = [] \<and>
     exchanges s = [] \<and> blocks s = []"

lemma fresh_db_ok: "fresh_db s \<Longrightarrow> db_ok s"
  by (simp add: fresh_db_def db_ok_defs with_txid_def)

interpretation store: transition_system fresh_db "db_call True" db_ok
  by unfold_locales (auto intro: fresh_db_ok db_call_ok)

end
