(* ===== verification/Frames.thy ===== *)
theory Frames
  imports Integrity
begin

text \<open>
  Which tables each method may write, and what persists across calls. \<open>only T s t\<close>: the states \<open>s\<close>
  and \<open>t\<close> agree on every table outside \<open>T\<close>. From the frames follow the facts that hold for good:
  a revoked worker stays revoked, an ended job stays ended, a consumed code stays consumed while its
  worker is there.
\<close>

subsection \<open>Frames\<close>

datatype table = Wallets | Miners | Runs | Workers | CodesT | Jobs | Samples | Rollups | Payouts |
  Settings | Cursets | Exchanges | Blocks

definition only :: "table set \<Rightarrow> db \<Rightarrow> db \<Rightarrow> bool" where
  "only T s t \<longleftrightarrow> env t = env s \<and> currencies t = currencies s \<and>
     (Wallets \<notin> T \<longrightarrow> wallets t = wallets s) \<and> (Miners \<notin> T \<longrightarrow> miners t = miners s) \<and>
     (Runs \<notin> T \<longrightarrow> runs t = runs s) \<and> (Workers \<notin> T \<longrightarrow> workers t = workers s) \<and>
     (CodesT \<notin> T \<longrightarrow> codes t = codes s) \<and> (Jobs \<notin> T \<longrightarrow> jobs t = jobs s) \<and>
     (Samples \<notin> T \<longrightarrow> samples t = samples s) \<and> (Rollups \<notin> T \<longrightarrow> rollups t = rollups s) \<and>
     (Payouts \<notin> T \<longrightarrow> payouts t = payouts s) \<and> (Settings \<notin> T \<longrightarrow> settings t = settings s) \<and>
     (Cursets \<notin> T \<longrightarrow> curset t = curset s) \<and> (Exchanges \<notin> T \<longrightarrow> exchanges t = exchanges s) \<and>
     (Blocks \<notin> T \<longrightarrow> blocks t = blocks s)"

lemma only_reflp [simp, relates_intros]: "reflp (only T)"
  by (simp add: reflp_def only_def)

lemma only_transp [simp, relates_intros]: "transp (only T)"
  by (rule transpI) (simp add: only_def)

lemma only_tick [simp]: "only T s (s\<lparr>tick := n\<rparr>)"
  by (simp add: only_def)

lemma only_mono: "only T s t \<Longrightarrow> T \<subseteq> U \<Longrightarrow> only U s t"
  unfolding only_def by (intro conjI impI; (elim conjE)?; (drule (1) contra_subsetD)?; simp)

lemma frame_stmt [relates_intros]:
  "(\<And>s a t. f s = Inr (a, t) \<Longrightarrow> only T s t) \<Longrightarrow> relates (only T) (sql f)"
  by (rule relates_sql) auto

lemma frame_query [relates_intros]: "relates (only T) (query f)"
  by (rule relates_query) simp

lemma frame_affected [relates_intros]: "relates (only T) m \<Longrightarrow> relates (only T) (affected m)"
  unfolding affected_def by (intro relates_intros) auto

lemma update_miner_only: "update_miner o1 u g bad s = Inr (x, t) \<Longrightarrow> only {Miners} s t"
  by (auto simp: update_miner_def stmt_simps only_def split: option.splits prod.splits)

lemma frame_CreateWallet: "relates (only {Wallets}) (CreateWallet a b c d e)"
  unfolding CreateWallet_def
  by (intro relates_intros) (auto simp: insert_wallet_def stmt_simps Let_def only_def)

lemma frame_DeleteWallet: "relates (only {Wallets}) (DeleteWallet a b)"
  unfolding DeleteWallet_def
  by (intro relates_intros) (erule delete_wallet_Inr, simp add: only_def)

lemma frame_CreateMiner: "relates (only {Miners}) (CreateMiner p)"
  unfolding CreateMiner_def GetMiner_def
  by (intro relates_intros)
    (auto simp: insert_miner_def stmt_simps only_def split: option.splits)

lemma frame_PatchMiner: "relates (only {Miners}) (PatchMiner a b c d e)"
  unfolding PatchMiner_def
  by (intro relates_intros)
    (elim with_uuid_ex [elim_format] with_uuid_opt_ex [elim_format] exE, rule update_miner_only)

lemma frame_SetMinerStatus: "relates (only {Miners}) (SetMinerStatus a b)"
  unfolding SetMinerStatus_def
  by (intro relates_intros) (auto simp: with_uuid_Inr only_def)

lemma frame_SetMinerAllocation: "relates (only {Miners}) (SetMinerAllocation a b c d)"
  unfolding SetMinerAllocation_def
  by (intro relates_intros) (auto simp: with_uuid_Inr require_Inr intro: update_miner_only)

lemma frame_DeleteMiner: "relates (only {Miners, Runs, Jobs, Samples, Rollups, Blocks}) (DeleteMiner a b)"
  unfolding DeleteMiner_def
  by (intro relates_intros) (auto simp: with_uuid_Inr Let_def drop_miners_def only_def)

lemma frame_OpenRun: "relates (only {Runs}) (OpenRun a)"
  unfolding OpenRun_def
  by (intro relates_intros) (auto simp: stmt_simps only_def)

lemma frame_CloseRun: "relates (only {Runs}) (CloseRun a b c d e)"
  unfolding CloseRun_def
  by (intro relates_intros) (auto simp: stmt_simps only_def)

lemma frame_InsertMetricSample: "relates (only {Samples}) (InsertMetricSample a b c d e)"
  unfolding InsertMetricSample_def
  by (intro relates_intros) (auto simp: stmt_simps only_def split: option.splits)

lemma frame_RollupOnce: "relates (only {Rollups, Samples}) RollupOnce"
  unfolding RollupOnce_def
  by (intro relates_intros) (auto simp: rollup_stmt_def prune_stmt_def only_def)

lemma frame_PutSetting: "relates (only {Settings}) (PutSetting a b c)"
  unfolding PutSetting_def by (intro relates_intros) (auto simp: only_def)

lemma frame_PutCurrencySetting: "relates (only {Cursets}) (PutCurrencySetting a b c d e)"
  unfolding PutCurrencySetting_def by (intro relates_intros) (auto simp: only_def split: list.splits)

lemma frame_PutExchangeSetting: "relates (only {Exchanges}) (PutExchangeSetting a b c d e)"
  unfolding PutExchangeSetting_def Let_def by (intro relates_intros) (auto simp: only_def)

lemma frame_InsertPayout: "relates (only {Payouts}) (InsertPayout a b c d e f g h i)"
  unfolding InsertPayout_def
  by (intro relates_intros)
    (auto simp: insert_payout_def with_new_id_Inr Let_def only_def split: list.splits if_splits)

lemma frame_SetWorkerStatus: "relates (only {Workers}) (SetWorkerStatus a b)"
  unfolding SetWorkerStatus_def by (intro relates_intros) (auto simp: stmt_simps only_def)

lemma frame_UpdateWorkerCaps: "relates (only {Workers}) (UpdateWorkerCaps a b)"
  unfolding UpdateWorkerCaps_def by (intro relates_intros) (auto simp: stmt_simps only_def)

lemma frame_RevokeWorker: "relates (only {Workers, Jobs}) (RevokeWorker a b)"
  unfolding RevokeWorker_def revoke_worker_def end_jobs_of_worker_def Let_def
  by (intro relates_intros) (auto simp: stmt_simps only_def)

lemma frame_DeleteWorker: "relates (only {Workers, Jobs, Samples, CodesT}) (DeleteWorker a b)"
  unfolding DeleteWorker_def
  by (intro relates_intros) (auto simp: with_uuid_Inr Let_def drop_workers_def only_def)

lemma frame_CreateSwarmJob: "relates (only {Jobs}) (CreateSwarmJob a b)"
  unfolding CreateSwarmJob_def by (intro relates_intros) (auto simp: stmt_simps only_def)

lemma frame_SetSwarmJobStatus: "relates (only {Jobs}) (SetSwarmJobStatus a b)"
  unfolding SetSwarmJobStatus_def by (intro relates_intros) (auto simp: stmt_simps only_def)

lemma frame_Codes_Create: "relates (only {CodesT}) (Codes_Create rt a)"
  unfolding Codes_Create_def
  by (intro relates_intros) (auto simp: insert_code_def stmt_simps only_def)

lemma frame_Codes_Revoke: "relates (only {CodesT}) (Codes_Revoke a b)"
  unfolding Codes_Revoke_def
  by (intro relates_intros) (auto simp: delete_code_def stmt_simps Let_def only_def)

lemma frame_enroll_tx: "relates (only {Workers, CodesT}) (enroll_tx c n hw h)"
proof (rule relatesI)
  fix s
  obtain r t where run: "run_state (enroll_tx c n hw h) s = (r, t)" by fastforce
  show "only {Workers, CodesT} s (snd (run_state (enroll_tx c n hw h) s))"
  proof (cases r)
    case (Inl e)
    then show ?thesis using transaction_Inl run by (fastforce simp: enroll_tx_def)
  next
    case (Inr w)
    have "only {Workers, CodesT} s (s\<lparr>workers := ws, codes := cs, tick := n\<rparr>)" for ws cs n
      by (simp add: only_def)
    then show ?thesis using enroll_tx_Inr(1) [OF run [unfolded Inr]] run by (metis snd_conv)
  qed
qed

lemma frame_Enroll: "relates (only {Workers, CodesT}) (Enroll rt code n hw)"
  unfolding Enroll_def enroll_match_def Let_def find_code_def code_candidates_def
  by (intro relates_intros frame_enroll_tx)

lemma frame_read [relates_intros]: "relates (only T) (on_err g (query f))"
  by (intro relates_intros)

lemma only_workers: "only T s t \<Longrightarrow> Workers \<notin> T \<Longrightarrow> workers t = workers s"
  by (simp add: only_def)

lemma only_jobs: "only T s t \<Longrightarrow> Jobs \<notin> T \<Longrightarrow> jobs t = jobs s"
  by (simp add: only_def)

lemma only_codes: "only T s t \<Longrightarrow> CodesT \<notin> T \<Longrightarrow> codes t = codes s"
  by (simp add: only_def)

subsection \<open>What calls never undo\<close>

text \<open>
  A row is kept when each later state has a row that continues it. The three relations are instances
  of one: \<open>c\<close> says which rows may follow which.
\<close>

definition continued :: "(db \<Rightarrow> 'r list) \<Rightarrow> ('r \<Rightarrow> 'r \<Rightarrow> bool) \<Rightarrow> db \<Rightarrow> db \<Rightarrow> bool" where
  "continued rows c s t \<longleftrightarrow> (\<forall>r \<in> set (rows s). \<exists>r' \<in> set (rows t). c r r')"

lemma continued_reflp [simp]: "reflp c \<Longrightarrow> reflp (continued rows c)"
  by (auto simp: reflp_def continued_def)

lemma continued_transp [simp]: "transp c \<Longrightarrow> transp (continued rows c)"
  unfolding transp_def continued_def by blast

lemma continued_refl: "reflp c \<Longrightarrow> rows t = rows s \<Longrightarrow> continued rows c s t"
  by (auto simp: reflp_def continued_def)

lemma continued_app: "reflp c \<Longrightarrow> rows t = rows s @ rs \<Longrightarrow> continued rows c s t"
  by (auto simp: reflp_def continued_def)

lemma continued_upd:
  assumes "reflp c" and "\<And>r. p r \<Longrightarrow> c r (g r)" and "rows t = upd_where p g (rows s)"
  shows "continued rows c s t"
proof -
  have "c r (if p r then g r else r)" for r using assms(1,2) by (simp add: reflp_def)
  then show ?thesis unfolding continued_def assms(3) set_upd_where by blast
qed

lemma continued_frame:
  assumes "relates (only T) m" and "\<And>s t. only T s t \<Longrightarrow> rows t = rows s" and "reflp c"
  shows "relates (continued rows c) m"
proof (rule relatesI)
  fix s
  have "rows (snd (run_state m s)) = rows s" by (rule assms(2), rule relatesD [OF assms(1)])
  then show "continued rows c s (snd (run_state m s))" by (rule continued_refl [OF assms(3)])
qed

subsubsection \<open>Workers\<close>

definition same_worker :: "worker_row \<Rightarrow> worker_row \<Rightarrow> bool" where
  "same_worker k k' \<longleftrightarrow> k_id k' = k_id k \<and> k_owner k' = k_owner k \<and> k_token k' = k_token k \<and>
     k_kind k' = k_kind k \<and> k_enrolled k' = k_enrolled k \<and>
     (k_revoked k \<noteq> None \<and> k_status k = ''revoked'' \<longrightarrow>
        k_revoked k' = k_revoked k \<and> k_status k' = ''revoked'')"

lemma same_worker_refl [simp]: "reflp same_worker"
  by (simp add: reflp_def same_worker_def)

lemma same_worker_trans [simp]: "transp same_worker"
  by (auto simp: transp_def same_worker_def)

abbreviation workers_kept :: "db \<Rightarrow> db \<Rightarrow> bool" where
  "workers_kept \<equiv> continued workers same_worker"

lemma workers_kept_frame: "relates (only T) m \<Longrightarrow> Workers \<notin> T \<Longrightarrow> relates workers_kept m"
  by (rule continued_frame) (auto dest: only_workers)

lemma workers_kept_stmt [relates_intros]:
  "(\<And>s a t. f s = Inr (a, t) \<Longrightarrow> workers_kept s t) \<Longrightarrow> relates workers_kept (sql f)"
  by (rule relates_sql) (simp_all add: continued_refl)

lemma workers_kept_query [relates_intros]: "relates workers_kept (query f)"
  by (rule relates_query) (simp add: continued_refl)

lemma workers_kept_affected [relates_intros]: "relates workers_kept m \<Longrightarrow> relates workers_kept (affected m)"
  unfolding affected_def by (intro relates_intros) simp_all

lemma workers_kept_upd:
  "(\<And>k. p k \<Longrightarrow> same_worker k (g k)) \<Longrightarrow> workers_kept s (s\<lparr>workers := upd_where p g (workers s)\<rparr>)"
  by (rule continued_upd [where p = p and g = g]) simp_all

lemma kept_SetWorkerStatus: "relates workers_kept (SetWorkerStatus a b)"
  unfolding SetWorkerStatus_def
  by (intro relates_intros)
    (auto simp: with_uuid_Inr same_worker_def intro: workers_kept_upd)

lemma kept_UpdateWorkerCaps: "relates workers_kept (UpdateWorkerCaps a b)"
  unfolding UpdateWorkerCaps_def
  by (intro relates_intros)
    (auto simp: with_uuid_Inr same_worker_def intro: workers_kept_upd)

lemma kept_RevokeWorker: "relates workers_kept (RevokeWorker a b)"
  unfolding RevokeWorker_def revoke_worker_def end_jobs_of_worker_def Let_def
  by (intro relates_intros)
    (auto simp: with_uuid_Inr same_worker_def intro: workers_kept_upd continued_refl)

lemma kept_enroll_tx: "relates workers_kept (enroll_tx c n hw h)"
proof (rule relatesI)
  fix s
  obtain r t where run: "run_state (enroll_tx c n hw h) s = (r, t)" by fastforce
  show "workers_kept s (snd (run_state (enroll_tx c n hw h) s))"
  proof (cases r)
    case (Inl e)
    then show ?thesis using transaction_Inl run by (fastforce simp: enroll_tx_def intro: continued_refl)
  next
    case (Inr w)
    have "workers_kept s (s\<lparr>workers := workers s @ ks, codes := cs, tick := m\<rparr>)" for ks cs m
      by (rule continued_app [where rs = ks]) simp_all
    then show ?thesis using enroll_tx_Inr(1) [OF run [unfolded Inr]] run by (metis snd_conv)
  qed
qed

lemma kept_Enroll: "relates workers_kept (Enroll rt code n hw)"
  unfolding Enroll_def enroll_match_def Let_def find_code_def code_candidates_def
  by (intro relates_intros kept_enroll_tx) simp_all

lemmas frames = frame_CreateWallet frame_DeleteWallet frame_CreateMiner frame_PatchMiner frame_SetMinerStatus
  frame_SetMinerAllocation frame_DeleteMiner frame_OpenRun frame_CloseRun frame_InsertMetricSample frame_RollupOnce
  frame_PutSetting frame_PutCurrencySetting frame_PutExchangeSetting frame_InsertPayout frame_SetWorkerStatus
  frame_UpdateWorkerCaps frame_RevokeWorker frame_DeleteWorker frame_CreateSwarmJob frame_SetSwarmJobStatus
  frame_Codes_Create frame_Codes_Revoke frame_Enroll frame_enroll_tx

lemma db_call_workers:
  assumes "db_call d s t" and "\<not> d"
  shows "workers_kept s t"
  using assms
  by (induction rule: db_call.induct)
    (simp_all add: continued_refl frames [THEN workers_kept_frame, THEN relatesD] relatesD [OF kept_Enroll]
      relatesD [OF kept_SetWorkerStatus] relatesD [OF kept_UpdateWorkerCaps] relatesD [OF kept_RevokeWorker]
      relatesD [OF kept_enroll_tx])

lemma calls_workers: "(db_call False)\<^sup>*\<^sup>* s t \<Longrightarrow> workers_kept s t"
proof (induction rule: rtranclp_induct)
  case (step t u)
  then show ?case using db_call_workers transpD [OF continued_transp [OF same_worker_trans]] by blast
qed (simp add: continued_refl)

subsubsection \<open>Jobs\<close>

definition same_job :: "job_row \<Rightarrow> job_row \<Rightarrow> bool" where
  "same_job j j' \<longleftrightarrow> j_id j' = j_id j \<and> j_miner j' = j_miner j \<and> j_worker j' = j_worker j \<and>
     j_assigned j' = j_assigned j \<and> (j_ended j \<noteq> None \<longrightarrow> j_ended j' = j_ended j)"

lemma same_job_refl [simp]: "reflp same_job"
  by (simp add: reflp_def same_job_def)

lemma same_job_trans [simp]: "transp same_job"
  by (auto simp: transp_def same_job_def)

abbreviation jobs_kept :: "db \<Rightarrow> db \<Rightarrow> bool" where
  "jobs_kept \<equiv> continued jobs same_job"

lemma jobs_kept_frame: "relates (only T) m \<Longrightarrow> Jobs \<notin> T \<Longrightarrow> relates jobs_kept m"
  by (rule continued_frame) (auto dest: only_jobs)

lemma jobs_kept_stmt [relates_intros]:
  "(\<And>s a t. f s = Inr (a, t) \<Longrightarrow> jobs_kept s t) \<Longrightarrow> relates jobs_kept (sql f)"
  by (rule relates_sql) (simp_all add: continued_refl)

lemma jobs_kept_affected [relates_intros]: "relates jobs_kept m \<Longrightarrow> relates jobs_kept (affected m)"
  unfolding affected_def by (intro relates_intros) simp_all

lemma jobs_kept_upd:
  "(\<And>j. p j \<Longrightarrow> same_job j (g j)) \<Longrightarrow> jobs_kept s (s\<lparr>jobs := upd_where p g (jobs s)\<rparr>)"
  by (rule continued_upd [where p = p and g = g]) simp_all

lemma jobs_kept_app: "jobs_kept s (s\<lparr>jobs := jobs s @ js\<rparr>)"
  by (rule continued_app) simp_all

lemma kept_jobs_RevokeWorker: "relates jobs_kept (RevokeWorker a b)"
  unfolding RevokeWorker_def revoke_worker_def end_jobs_of_worker_def Let_def
  by (intro relates_intros)
    (auto simp: with_uuid_Inr same_job_def intro: jobs_kept_upd continued_refl)

lemma kept_CreateSwarmJob: "relates jobs_kept (CreateSwarmJob a b)"
  unfolding CreateSwarmJob_def
  by (intro relates_intros) (auto simp: stmt_simps intro: jobs_kept_app)

lemma kept_SetSwarmJobStatus: "relates jobs_kept (SetSwarmJobStatus a b)"
  unfolding SetSwarmJobStatus_def
  by (intro relates_intros) (auto simp: with_uuid_Inr same_job_def intro: jobs_kept_upd)

lemma db_call_jobs:
  assumes "db_call d s t" and "\<not> d"
  shows "jobs_kept s t"
  using assms
  by (induction rule: db_call.induct)
    (simp_all add: continued_refl frames [THEN jobs_kept_frame, THEN relatesD]
      relatesD [OF kept_jobs_RevokeWorker] relatesD [OF kept_CreateSwarmJob] relatesD [OF kept_SetSwarmJobStatus])

lemma calls_jobs: "(db_call False)\<^sup>*\<^sup>* s t \<Longrightarrow> jobs_kept s t"
proof (induction rule: rtranclp_induct)
  case (step t u)
  then show ?case using db_call_jobs transpD [OF continued_transp [OF same_job_trans]] by blast
qed (simp add: continued_refl)

subsubsection \<open>Consumed codes\<close>

text \<open>An open code may be revoked: only consumed rows continue.\<close>

definition same_code :: "code_row \<Rightarrow> code_row \<Rightarrow> bool" where
  "same_code c c' \<longleftrightarrow> c' = c"

definition consumed_codes :: "db \<Rightarrow> code_row list" where
  "consumed_codes s = filter (\<lambda>c. c_consumed_by c \<noteq> None) (codes s)"

lemma same_code_refl [simp]: "reflp same_code"
  by (simp add: reflp_def same_code_def)

lemma same_code_trans [simp]: "transp same_code"
  by (simp add: transp_def same_code_def)

abbreviation codes_kept :: "db \<Rightarrow> db \<Rightarrow> bool" where
  "codes_kept \<equiv> continued consumed_codes same_code"

lemma codes_kept_frame: "relates (only T) m \<Longrightarrow> CodesT \<notin> T \<Longrightarrow> relates codes_kept m"
  by (rule continued_frame) (auto dest: only_codes simp: consumed_codes_def)

lemma codes_kept_stmt [relates_intros]:
  "(\<And>s a t. f s = Inr (a, t) \<Longrightarrow> codes_kept s t) \<Longrightarrow> relates codes_kept (sql f)"
  by (rule relates_sql) (simp_all add: continued_refl consumed_codes_def)

lemma codes_kept_subset: "set (consumed_codes s) \<subseteq> set (consumed_codes t) \<Longrightarrow> codes_kept s t"
  by (auto simp: continued_def same_code_def)

lemma codes_kept_tick: "codes_kept s (s\<lparr>tick := n\<rparr>)"
  by (rule continued_refl) (simp_all add: consumed_codes_def)

lemma codes_kept_query [relates_intros]: "relates codes_kept (query f)"
  by (rule relates_query) (simp add: continued_refl consumed_codes_def)

lemma kept_Codes_Create: "relates codes_kept (Codes_Create rt a)"
  unfolding Codes_Create_def
  by (intro relates_intros)
    (auto simp: insert_code_def stmt_simps consumed_codes_def intro!: codes_kept_subset)

lemma kept_Codes_Revoke: "relates codes_kept (Codes_Revoke a b)"
  unfolding Codes_Revoke_def
  by (intro relates_intros)
    (auto simp: delete_code_def stmt_simps Let_def consumed_codes_def intro!: codes_kept_subset)

lemma consumed_keeps: "c \<in> set cs \<Longrightarrow> c_consumed_by c \<noteq> None \<Longrightarrow> c \<in> set (consumed now i w cs)"
  by (force simp: consumed_def set_upd_where redeemable_def image_iff)

lemma codes_kept_enroll_tx: "relates codes_kept (enroll_tx c n hw h)"
proof (rule relatesI)
  fix s
  obtain r t where run: "run_state (enroll_tx c n hw h) s = (r, t)" by fastforce
  show "codes_kept s (snd (run_state (enroll_tx c n hw h) s))"
  proof (cases r)
    case (Inl e)
    then show ?thesis
      using transaction_Inl run
      by (fastforce simp: enroll_tx_def consumed_codes_def intro: continued_refl)
  next
    case (Inr w)
    have "codes_kept s (s\<lparr>workers := ks, codes := consumed now i w (codes s), tick := m\<rparr>)" for ks now i m
      by (rule codes_kept_subset) (auto simp: consumed_codes_def intro: consumed_keeps)
    then show ?thesis using enroll_tx_Inr(1) [OF run [unfolded Inr]] run by (metis snd_conv)
  qed
qed

lemma codes_kept_Enroll: "relates codes_kept (Enroll rt code n hw)"
  unfolding Enroll_def enroll_match_def Let_def find_code_def code_candidates_def
  by (intro relates_intros codes_kept_enroll_tx) simp_all

lemma db_call_codes:
  assumes "db_call d s t" and "\<not> d"
  shows "codes_kept s t"
  using assms
  by (induction rule: db_call.induct)
    (simp_all add: codes_kept_tick frames [THEN codes_kept_frame, THEN relatesD] relatesD [OF kept_Codes_Create]
      relatesD [OF kept_Codes_Revoke] relatesD [OF codes_kept_Enroll] relatesD [OF codes_kept_enroll_tx])

lemma calls_codes: "(db_call False)\<^sup>*\<^sup>* s t \<Longrightarrow> codes_kept s t"
proof (induction rule: rtranclp_induct)
  case (step t u)
  then show ?case using db_call_codes transpD [OF continued_transp [OF same_code_trans]] by blast
qed (simp add: continued_refl)

lemma calls_ok: "(db_call d)\<^sup>*\<^sup>* s t \<Longrightarrow> db_ok s \<Longrightarrow> db_ok t"
  by (induction rule: rtranclp_induct) (auto intro: db_call_ok)

end
