(* ===== verification/Samples.thy ===== *)
theory Samples
  imports Codes
begin

text \<open>
  A small concrete world, on which the witnesses of the properties are evaluated: a server without
  faults whose clock advances by one second per statement, two coins of the catalog, and a runtime
  whose hash functions are the identity.
\<close>

definition sample_env :: db_env where
  "sample_env = \<lparr>fault = (\<lambda>_. False), clock = (\<lambda>n. int n * second), fresh_uuid = (\<lambda>n. replicate (Suc n) CHR ''u''),
     uuid_of = Some, row_rank = (\<lambda>_ n. n), jsonb_text = (\<lambda>_. ''api_tpl''), pgp_sym_encrypt = (\<lambda>_ x _. x)\<rparr>"

definition coin :: "string \<Rightarrow> string \<Rightarrow> currency" where
  "coin i sy = \<lparr>cur_id = i, symbol = sy, cur_name = sy, algorithm = ''randomx'', hardware_class = ''cpu'',
     engine_strategy = ''adapter'', adapter_config = None, min_vram = None,
     explorer_tx_tpl = ''t/{txid}'', explorer_addr_tpl = ''a/{address}'',
     homepage = '''', pools = JArr [], enabled = True, deferred_note = None\<rparr>"

definition sample_db :: db where
  "sample_db = \<lparr>env = sample_env, tick = 0, currencies = [coin ''c1'' ''XMR'', coin ''c2'' ''ZEPH''], wallets = [],
     miners = [], runs = [], workers = [], codes = [], jobs = [], samples = [], rollups = [], payouts = [],
     settings = [], curset = [], exchanges = [], blocks = []\<rparr>"

definition sample_rt :: runtime where
  "sample_rt = \<lparr>rand_bytes = (\<lambda>t n. Some (replicate n (char_of t))), sha256 = id,
     bcrypt_gen = (\<lambda>_ x _. Some x), bcrypt_cmp = (\<lambda>h x. h = x), upper_uni = id\<rparr>"

definition sample_worker :: "string \<Rightarrow> string \<Rightarrow> worker_row" where
  "sample_worker i owner = \<lparr>k_id = i, k_owner = owner, k_name = ''rig'', k_kind = ''native'', k_os = ''linux'',
     k_arch = ''amd64'', k_cpu = '''', k_cores = 4, k_gpu = '''', k_vram = 0, k_caps = None, k_token = i,
     k_status = ''enrolled'', k_seen = None, k_enrolled = 0, k_revoked = None\<rparr>"

definition sample_code :: "string \<Rightarrow> string \<Rightarrow> string \<Rightarrow> string option \<Rightarrow> code_row" where
  "sample_code i owner plain by = \<lparr>c_id = i, c_owner = owner, c_hash = plain, c_expires = CodeTTL,
     c_consumed_by = by, c_consumed_at = None, c_created = 0\<rparr>"

definition sample_hw :: hardware where
  "sample_hw = \<lparr>hw_kind = ''native'', hw_os = ''linux'', hw_arch = ''amd64'', hw_cpu = '''', hw_cores = 4,
     hw_gpu = '''', hw_vram = 0\<rparr>"

definition sample_miner :: "string \<Rightarrow> string \<Rightarrow> string \<Rightarrow> miner_row" where
  "sample_miner i owner st = \<lparr>m_id = i, m_owner = owner, m_name = ''m'', m_currency = ''c1'', m_wallet = None,
     m_engine = ''adapter'', m_pool = ''stratum+tcp://pool:3333'', m_cpu = 50, m_gpu = 0, m_status = st,
     m_created = 0, m_updated = 0\<rparr>"

lemmas sample_data = sample_db_def sample_env_def coin_def sample_worker_def sample_code_def
  sample_hw_def sample_miner_def
lemmas sample_defs = sample_data sample_rt_def

end
