(* ===== verification/StoreProps.thy ===== *)
theory StoreProps
  imports Frames Samples
begin

text \<open>
  The properties of the database layer and of the join codes: integrity in every reachable state,
  single use of codes, permanent revocation, tenant isolation, and what the metric and payout
  queries return.
\<close>

subsection \<open>Integrity\<close>

text \<open>C1. Whatever sequence of store calls runs on a freshly migrated database (including calls that
  fail half-way), every table keeps its keys unique (one wallet per owner and currency, one payout
  per currency and transaction, one rollup per miner and hour), every reference resolves, and the CPU
  and GPU percentages of every miner stay within their ranges.\<close>

theorem database_integrity:
  assumes "fresh_db s" and "(db_call True)\<^sup>*\<^sup>* s t"
  shows "db_ok t"
  using assms by (rule store.reachable_good)

theorem database_integrity_witness:
  "db_ok (snd (run_state (CreateWallet ''alice'' ''XMR'' ''4A'' ''main'' True) sample_db))"
proof (rule database_integrity [of sample_db])
  show "fresh_db sample_db" by (simp add: fresh_db_def sample_defs)
  show "(db_call True)\<^sup>*\<^sup>* sample_db (snd (run_state (CreateWallet ''alice'' ''XMR'' ''4A'' ''main'' True) sample_db))"
    by (rule r_into_rtranclp) (rule db_call.create_wallet)
qed

text \<open>\<open>CreateWallet\<close> answers \<open>ErrNotFound\<close> exactly when the symbol is not in the catalog, \<open>ErrConflict\<close>
  exactly when the owner already has a wallet of that currency (or the generated id is taken), and
  otherwise stores exactly the given address for exactly that owner and currency.\<close>

theorem CreateWallet_outcome:
  assumes "\<not> fault (env s) (tick s)" and "run_state (CreateWallet owner sy address label v) s = (r, t)"
  shows "(case r of
      Inl ErrNotFound \<Rightarrow> currency_rows sy s = [] \<and> t = bump s
    | Inl ErrConflict \<Rightarrow> (\<exists>c rest. currency_rows sy s = c # rest \<and>
        (new_uuid s \<in> w_id ` set (wallets s) \<or> (owner, cur_id c) \<in> wallet_key ` set (wallets s))) \<and> t = bump s
    | Inl (PgErr e) \<Rightarrow> False
    | Inr w \<Rightarrow> (\<exists>c rest. currency_rows sy s = c # rest \<and> (owner, cur_id c) \<notin> wallet_key ` set (wallets s) \<and>
        wa_address w = address \<and> wa_currency w = symbol c \<and> wa_label w = label \<and> wa_validated w = v \<and>
        t = bump (s\<lparr>wallets := wallets s @ [\<lparr>w_id = wa_id w, w_owner = owner, w_currency = cur_id c,
          w_address = address, w_label = nullif_empty label, w_validated = v, w_created = db_now s\<rparr>]\<rparr>)))"
proof (cases "currency_rows sy s")
  case Nil
  then show ?thesis
    using assms by (auto simp: CreateWallet_def run_simps insert_wallet_def chain_def one_row_def
        isUniqueViolation_def notFoundIfEmpty_def)
next
  case (Cons c rest)
  show ?thesis
  proof (cases "new_uuid s \<in> w_id ` set (wallets s) \<or> (owner, cur_id c) \<in> wallet_key ` set (wallets s)")
    case True
    then have "insert_wallet owner sy address label v s = Inl UniqueViolation"
      using Cons by (auto simp: insert_wallet_def chain_def one_row_def with_new_id_def require_def wallet_key_def)
    then show ?thesis
      using assms True Cons by (auto simp: CreateWallet_def run_simps isUniqueViolation_def)
  next
    case False
    let ?w = "\<lparr>w_id = new_uuid s, w_owner = owner, w_currency = cur_id c, w_address = address,
      w_label = nullif_empty label, w_validated = v, w_created = db_now s\<rparr>"
    have "\<forall>w \<in> set (wallets s). \<not> (w_owner w = owner \<and> w_currency w = cur_id c)"
      using False by (force simp: wallet_key_def)
    then have "insert_wallet owner sy address label v s = Inr (scanWallet ?w c, s\<lparr>wallets := wallets s @ [?w]\<rparr>)"
      using False Cons by (simp add: insert_wallet_def chain_def one_row_def with_new_id_def require_def Let_def)
    then show ?thesis
      using assms False Cons by (auto simp: CreateWallet_def run_simps scanWallet_def)
  qed
qed

theorem CreateWallet_outcome_witness:
  "fst (run_state (CreateWallet ''alice'' ''BTC'' ''4A'' '''' True) sample_db) = Inl ErrNotFound \<and>
   currency_rows ''BTC'' sample_db = []"
proof -
  have run: "run_state (CreateWallet ''alice'' ''BTC'' ''4A'' '''' True) sample_db = (Inl ErrNotFound, bump sample_db)"
    by (simp add: CreateWallet_def run_simps insert_wallet_def currency_rows_def chain_def one_row_def
        isUniqueViolation_def notFoundIfEmpty_def sample_defs)
  have "\<not> fault (env sample_db) (tick sample_db)" by (simp add: sample_defs)
  from CreateWallet_outcome [OF this run] run show ?thesis by simp
qed

subsection \<open>Join codes\<close>


definition one_code_db :: db where
  "one_code_db = sample_db\<lparr>codes := [sample_code ''k1'' ''alice'' ''0123456789'' None]\<rparr>"

lemma one_code_ok: "db_ok one_code_db"
  by (simp add: one_code_db_def db_ok_defs sample_defs with_txid_def)

lemmas enroll_eval = enroll_tx_def transaction_def run_simps insert_worker_def consume_code_def
  require_def with_new_id_def int4_def redeemable_def CodeTTL_def minute_def second_def db_now_def
  new_uuid_def upd_where_def rollback_to_def


text \<open>C39. Deleting a worker gives its join code back: the row keeps its hash and its expiry and loses
  \<open>consumed_by\<close>, so \<open>CheckCode\<close> reports it as redeemable again and a further enrollment with the same
  code is accepted, although the package promises single use.\<close>

theorem delete_worker_reopens_code:
  assumes "run_state (DeleteWorker owner wid) s = (Inr (), t)" and "uuid_of (env s) wid = Some u"
    and "\<exists>k \<in> set (workers s). k_id k = u \<and> k_owner k = owner"
    and "c \<in> set (codes s)" and "c_consumed_by c = Some u" and "c_expires c > clock (env s) (tick t)"
    and "\<not> fault (env s) (tick t)" and "length (NormalizeCode rt code) = 10"
    and "bcrypt_cmp rt (c_hash c) (NormalizeCode rt code)"
  shows "fst (run_state (CheckCode rt code) t) = Inr ()"
proof -
  let ?p = "\<lambda>k. k_id k = u \<and> k_owner k = owner"
  have t: "t = bump (drop_workers ?p s)"
    using assms(1,2) by (auto simp: DeleteWorker_def affected_Inr inr_simps with_uuid_Inr Let_def)
  have "u \<in> k_id ` set (filter ?p (workers s))" using assms(3) by auto
  then have c': "c\<lparr>c_consumed_by := None\<rparr> \<in> set (codes t)"
    using assms(4,5) unfolding t drop_workers_def Let_def
    by (auto simp: set_upd_where image_iff intro!: bexI [of _ c])
  have e: "env t = env s" by (simp add: t drop_workers_def Let_def)
  have "redeemable (db_now t) (c\<lparr>c_consumed_by := None\<rparr>)"
    using assms(6) by (simp add: redeemable_def db_now_def e)
  with c' have "c\<lparr>c_consumed_by := None\<rparr> \<in> set (filter (redeemable (db_now t)) (codes t))" by simp
  then have "\<exists>x \<in> set (filter (redeemable (db_now t)) (codes t)). bcrypt_cmp rt (c_hash x) (NormalizeCode rt code)"
    using assms(9) by (intro bexI [of _ "c\<lparr>c_consumed_by := None\<rparr>"]) simp_all
  then show ?thesis
    using assms(7,8) by (simp add: CheckCode_def Let_def code_candidates_def run_simps e)
qed

definition consumed_code_db :: db where
  "consumed_code_db = sample_db\<lparr>workers := [sample_worker ''w1'' ''alice''],
     codes := [sample_code ''k1'' ''alice'' ''0123456789'' (Some ''w1'')]\<rparr>"

lemma norm_digits: "NormalizeCode sample_rt ''0123-4567-89'' = ''0123456789''"
  by (simp add: NormalizeCode_def strip_dashes_def ToUpper_def is_ascii_def upper_char_def map_lookalike_def)

lemma deletes_worker:
  "run_state (DeleteWorker ''alice'' ''w1'') consumed_code_db =
     (Inr (), bump (drop_workers (\<lambda>k. k_id k = ''w1'' \<and> k_owner k = ''alice'') consumed_code_db))"
  by (simp add: DeleteWorker_def affected_def run_simps with_uuid_def consumed_code_db_def sample_defs Let_def)

theorem delete_worker_reopens_code_witness:
  "fst (run_state (CheckCode sample_rt ''0123-4567-89'') consumed_code_db) = Inl ErrCodeInvalid \<and>
   fst (run_state (CheckCode sample_rt ''0123-4567-89'')
     (snd (run_state (DeleteWorker ''alice'' ''w1'') consumed_code_db))) = Inr ()"
proof
  show "fst (run_state (CheckCode sample_rt ''0123-4567-89'') consumed_code_db) = Inl ErrCodeInvalid"
    unfolding CheckCode_def norm_digits
    by (simp add: code_candidates_def run_simps redeemable_def consumed_code_db_def sample_defs)
  show "fst (run_state (CheckCode sample_rt ''0123-4567-89'')
     (snd (run_state (DeleteWorker ''alice'' ''w1'') consumed_code_db))) = Inr ()"
    unfolding deletes_worker snd_conv
    by (rule delete_worker_reopens_code [OF deletes_worker,
          of "''w1''" "sample_code ''k1'' ''alice'' ''0123456789'' (Some ''w1'')"])
      (simp_all add: norm_digits, simp_all add: consumed_code_db_def sample_defs drop_workers_def Let_def
        CodeTTL_def minute_def second_def)
qed

lemma find_code_Inr:
  assumes "run_state (find_code rt x) s = (Inr c, u)"
  shows "c \<in> set (codes s)" and "redeemable (db_now s) c" and "bcrypt_cmp rt (c_hash c) x" and "u = bump s"
proof -
  from assms obtain cs v where q: "run_state code_candidates s = (Inr cs, v)"
    and f: "run_state (ret (case find (\<lambda>c. bcrypt_cmp rt (c_hash c) x) cs of
      None \<Rightarrow> Inl ErrCodeInvalid | Some c \<Rightarrow> Inr c)) v = (Inr c, u)"
    unfolding find_code_def and_then_Inr by blast
  from q have cs: "set cs = set (filter (redeemable (db_now s)) (codes s))" and v: "v = bump s"
    by (auto simp: code_candidates_def on_err_Inr query_Inr)
  from f have "find (\<lambda>c. bcrypt_cmp rt (c_hash c) x) cs = Some c" and u: "u = bump s"
    using v by (auto split: option.splits)
  then have "c \<in> set cs" "bcrypt_cmp rt (c_hash c) x" by (auto simp: find_Some_iff)
  then show "c \<in> set (codes s)" and "redeemable (db_now s) c" and "bcrypt_cmp rt (c_hash c) x" and "u = bump s"
    using cs u by simp_all
qed

lemma only_refl [simp]: "only T s s"
  by (simp add: only_def)

lemma find_code_only: "run_state (find_code rt x) s = (r, u) \<Longrightarrow> only {} s u"
  using relatesD [of "only {}" "find_code rt x" s]
  by (simp add: find_code_def code_candidates_def relates_intros)

lemma enroll_tx_Inl: "run_state (enroll_tx c n hw h) s = (Inl e, t) \<Longrightarrow> only {} s t"
  unfolding enroll_tx_def by (auto dest: transaction_Inl)

lemma enroll_match_Inr:
  assumes "run_state (enroll_match rt name hw c) u = (Inr res, t)"
  obtains hash where "NewWorkerToken rt (rand_bytes rt (tick u) 32) = Inr (er_token res, hash)"
    and "run_state (enroll_tx c name hw hash) u = (Inr (er_worker res), t)" and "er_owner res = c_owner c"
proof -
  obtain r where r: "NewWorkerToken rt (rand_bytes rt (tick u) 32) = r" by blast
  show ?thesis
  proof (cases r)
    case (Inl e)
    then show ?thesis using assms r by (simp add: enroll_match_def)
  next
    case (Inr p)
    then obtain plain hash where p: "r = Inr (plain, hash)" by (cases p) simp
    have run: "run_state (and_then (enroll_tx c name hw hash) (\<lambda>w.
        ret (Inr \<lparr>er_worker = w, er_token = plain, er_owner = c_owner c\<rparr>))) u = (Inr res, t)"
      using assms r p by (simp add: enroll_match_def)
    then have "run_state (enroll_tx c name hw hash) u = (Inr (er_worker res), t)"
      "er_token res = plain" "er_owner res = c_owner c"
      unfolding and_then_Inr by auto
    then show ?thesis using that r p by blast
  qed
qed

lemma enroll_match_Inl: "run_state (enroll_match rt name hw c) u = (Inl e, t) \<Longrightarrow> only {} u t"
  by (cases "NewWorkerToken rt (rand_bytes rt (tick u) 32)")
    (auto simp: enroll_match_def and_then_Inl dest: enroll_tx_Inl)

lemma Enroll_Inl:
  assumes "run_state (Enroll rt code name hw) s = (Inl e, t)"
  shows "only {} s t"
proof (cases "length (NormalizeCode rt code) = 10")
  case True
  with assms consider "run_state (find_code rt (NormalizeCode rt code)) s = (Inl e, t)"
    | c u where "run_state (find_code rt (NormalizeCode rt code)) s = (Inr c, u)"
      "run_state (enroll_match rt name (enroll_kind hw) c) u = (Inl e, t)"
    by (auto simp: Enroll_def Let_def and_then_Inl)
  then show ?thesis
    by cases (auto intro: transpD [OF only_transp] dest: find_code_only enroll_match_Inl)
qed (use assms in \<open>simp add: Enroll_def only_def\<close>)

lemma Enroll_Inr:
  assumes "run_state (Enroll rt code name hw) s = (Inr res, t)"
  shows "\<exists>c now. c \<in> set (codes s) \<and> redeemable (db_now s) c \<and>
        (\<exists>x \<in> set (codes s). c_id x = c_id c \<and> redeemable now x) \<and>
        length (NormalizeCode rt code) = 10 \<and> bcrypt_cmp rt (c_hash c) (NormalizeCode rt code) \<and>
        er_owner res = c_owner c \<and> er_worker res \<notin> k_id ` set (workers s) \<and>
        workers t = workers s @ [enrolled_row now (er_worker res) (c_owner c) name (enroll_kind hw)
          (HashToken rt (er_token res))] \<and>
        codes t = consumed now (c_id c) (er_worker res) (codes s) \<and> only {Workers, CodesT} s t"
proof -
  from assms have len: "length (NormalizeCode rt code) = 10"
    by (auto simp: Enroll_def Let_def split: if_splits)
  from assms len obtain c u where f: "run_state (find_code rt (NormalizeCode rt code)) s = (Inr c, u)"
    and m: "run_state (enroll_match rt name (enroll_kind hw) c) u = (Inr res, t)"
    by (auto simp: Enroll_def Let_def and_then_Inr)
  from m obtain hash where tok: "NewWorkerToken rt (rand_bytes rt (tick u) 32) = Inr (er_token res, hash)"
    and tx: "run_state (enroll_tx c name (enroll_kind hw) hash) u = (Inr (er_worker res), t)"
    and own: "er_owner res = c_owner c"
    by (rule enroll_match_Inr)
  have hash: "hash = HashToken rt (er_token res)"
    using tok by (auto simp: NewWorkerToken_def HashToken_def Let_def split: option.splits)
  have "workers t = workers u @ [enrolled_row (db_now u) (er_worker res) (c_owner c) name (enroll_kind hw) hash]"
    "codes t = consumed (db_now u) (c_id c) (er_worker res) (codes u)"
    using arg_cong [OF enroll_tx_Inr(1) [OF tx], of workers] arg_cong [OF enroll_tx_Inr(1) [OF tx], of codes]
    by simp_all
  moreover have "only {Workers, CodesT} s t"
    using relatesD [OF frame_Enroll] assms by (metis snd_conv)
  ultimately show ?thesis
    using find_code_Inr [OF f] len own hash enroll_tx_Inr(2,3) [OF tx]
    by (intro exI [of _ c] exI [of _ "db_now u"]) auto
qed

text \<open>C9. What \<open>Enroll\<close> returns: success means that the typed code matched the bcrypt hash of a row that was
  neither consumed nor expired, that the new worker belongs to the owner of that code, stores only the
  hash of the returned token, and is a browser worker exactly when it said so; and the call has
  changed the workers and codes tables only, by that one row each. Failure changes no table.\<close>

theorem Enroll_outcome:
  assumes "run_state (Enroll rt code name hw) s = (r, t)"
  shows "case r of
      Inl _ \<Rightarrow> only {} s t
    | Inr res \<Rightarrow> \<exists>c now. c \<in> set (codes s) \<and> redeemable (db_now s) c \<and>
        (\<exists>x \<in> set (codes s). c_id x = c_id c \<and> redeemable now x) \<and>
        length (NormalizeCode rt code) = 10 \<and> bcrypt_cmp rt (c_hash c) (NormalizeCode rt code) \<and>
        er_owner res = c_owner c \<and> er_worker res \<notin> k_id ` set (workers s) \<and>
        workers t = workers s @ [enrolled_row now (er_worker res) (c_owner c) name (enroll_kind hw)
          (HashToken rt (er_token res))] \<and>
        codes t = consumed now (c_id c) (er_worker res) (codes s) \<and> only {Workers, CodesT} s t"
  using assms Enroll_Inl Enroll_Inr by (cases r) (simp_all only: sum.case)

theorem Enroll_outcome_witness:
  "\<exists>res. fst (run_state (Enroll sample_rt ''0123 4567 89'' ''rig'' sample_hw) one_code_db) = Inr res \<and>
     er_owner res = ''alice''"
proof -
  have nrm: "NormalizeCode sample_rt ''0123 4567 89'' = ''0123456789''"
    by (simp add: NormalizeCode_def strip_dashes_def ToUpper_def is_ascii_def upper_char_def map_lookalike_def)
  obtain r t where run: "run_state (Enroll sample_rt ''0123 4567 89'' ''rig'' sample_hw) one_code_db = (r, t)"
    by fastforce
  have "\<exists>res. r = Inr res"
    using run unfolding Enroll_def nrm Let_def enroll_kind_def
    by (simp add: find_code_def enroll_match_def code_candidates_def run_simps NewWorkerToken_def enroll_eval
        one_code_db_def sample_defs Let_def split: prod.splits) blast
  then obtain res where "r = Inr res" by blast
  with Enroll_outcome [OF run] run show ?thesis
    by (auto simp: one_code_db_def sample_defs)
qed

subsection \<open>Revocation\<close>

lemma AuthenticateWorker_Inr:
  assumes "run_state (AuthenticateWorker rt now token) t = (Inr (w, o', kind), t')"
  shows "\<exists>a \<in> set (workers t). k_id a = w \<and> k_owner a = o' \<and> k_kind a = kind \<and>
    k_token a = HashToken rt token \<and> k_revoked a = None \<and>
    (kind = ''browser'' \<longrightarrow> now - k_enrolled a \<le> BrowserTokenTTL)"
proof -
  let ?hits = "unordered t (filter (\<lambda>k. k_token k = HashToken rt token) (workers t))"
  from assms obtain a v where hit: "one_row ?hits = Inr a"
    and r: "run_state (ret (if k_revoked a \<noteq> None then Inl WorkerRevoked
       else if k_kind a = ''browser'' \<and> now - k_enrolled a > BrowserTokenTTL then Inl TokenExpired
       else Inr (k_id a, k_owner a, k_kind a))) v = (Inr (w, o', kind), t')"
    unfolding AuthenticateWorker_def and_then_Inr on_err_Inr query_Inr by blast
  from hit obtain rest where "?hits = a # rest" unfolding one_row_Inr by blast
  then have "a \<in> set ?hits" by (metis list.set_intros(1))
  then have "a \<in> set (workers t)" "k_token a = HashToken rt token" by simp_all
  then show ?thesis using r by (intro bexI [of _ a]) (auto split: if_splits)
qed

lemma RevokeWorker_Inr:
  assumes rev: "run_state (RevokeWorker owner wid) s = (Inr (), s')" and u: "uuid_of (env s) wid = Some u"
  shows "\<exists>k \<in> set (workers s'). k_id k = u \<and> k_owner k = owner \<and> k_revoked k \<noteq> None \<and> k_status k = ''revoked''"
proof -
  let ?p = "\<lambda>k. k_id k = u \<and> k_owner k = owner \<and> k_revoked k = None"
  from rev obtain n s1 where n: "n \<noteq> 0" and r1: "run_state (sql (revoke_worker owner wid)) s = (Inr n, s1)"
    and r2: "run_state (sql (end_jobs_of_worker wid)) s1 = (Inr (), s')"
    unfolding RevokeWorker_def and_then_Inr affected_Inr on_err_Inr by blast
  have s1: "s1 = bump (s\<lparr>workers := upd_where ?p
      (\<lambda>k. k\<lparr>k_revoked := Some (db_now s), k_status := ''revoked''\<rparr>) (workers s)\<rparr>)"
    and len: "n = length (filter ?p (workers s))"
    using r1 u by (auto simp: sql_Inr revoke_worker_def with_uuid_Inr Let_def)
  have "filter ?p (workers s) \<noteq> []" using n len by (metis list.size(3))
  then have "hd (filter ?p (workers s)) \<in> set (filter ?p (workers s))" by (rule hd_in_set)
  then obtain k where k: "k \<in> set (workers s)" "?p k" by auto
  let ?k = "k\<lparr>k_revoked := Some (db_now s), k_status := ''revoked''\<rparr>"
  have "?k \<in> set (workers s1)" using k unfolding s1 by (auto simp: set_upd_where intro: image_eqI [of _ _ k])
  moreover have "workers s' = workers s1"
    using r2 by (auto simp: sql_Inr end_jobs_of_worker_def with_uuid_Inr)
  ultimately show ?thesis using k(2) by (intro bexI [of _ ?k]) simp_all
qed


definition two_worker_db :: db where
  "two_worker_db = sample_db\<lparr>workers := [(sample_worker ''w1'' ''alice'')\<lparr>k_token := ''79''\<rparr>,
     (sample_worker ''w2'' ''bob'')\<lparr>k_token := ''7a''\<rparr>]\<rparr>"

lemma two_worker_ok: "db_ok two_worker_db"
  by (simp add: two_worker_db_def db_ok_defs sample_data with_txid_def)

definition revoked_db :: db where
  "revoked_db = two_worker_db\<lparr>tick := 2, workers := [(sample_worker ''w1'' ''alice'')\<lparr>k_token := ''79'',
     k_revoked := Some 0, k_status := ''revoked''\<rparr>, (sample_worker ''w2'' ''bob'')\<lparr>k_token := ''7a''\<rparr>]\<rparr>"

lemma revokes_w1: "run_state (RevokeWorker ''alice'' ''w1'') two_worker_db = (Inr (), revoked_db)"
  by (simp add: RevokeWorker_def affected_def run_simps revoke_worker_def end_jobs_of_worker_def with_uuid_def
      Let_def upd_where_def two_worker_db_def revoked_db_def sample_data db_now_def second_def)

lemma auth_tokens: "HashToken sample_rt ''y'' = ''79''" "HashToken sample_rt ''z'' = ''7a''"
  by (simp_all add: HashToken_def EncodeToString_def hexdigit_def sample_rt_def Let_def)


end
