(* ===== verification/Tenancy.thy ===== *)
theory Tenancy
  imports Frames Samples
begin

text \<open>
  Tenant isolation at the database: the calls that carry an owner leave every other owner's rows as
  they are, and the queries that carry an owner return the same for two databases that agree on that
  owner's rows.
\<close>

subsection \<open>What an owner sees\<close>

definition runs_of :: "string \<Rightarrow> db \<Rightarrow> run_row list" where
  "runs_of b s = filter (\<lambda>r. r_miner r \<in> m_id ` set (filter (\<lambda>m. m_owner m = b) (miners s))) (runs s)"

definition rollups_of :: "string \<Rightarrow> db \<Rightarrow> rollup_row list" where
  "rollups_of b s = filter (\<lambda>r. u_miner r \<in> m_id ` set (filter (\<lambda>m. m_owner m = b) (miners s))) (rollups s)"

record tenant =
  t_wallets :: "wallet_row list"
  t_miners :: "miner_row list"
  t_workers :: "worker_row list"
  t_codes :: "code_row list"
  t_payouts :: "payout_row list"
  t_settings :: "((string \<times> string) \<times> json) list"
  t_curset :: "curset_row list"
  t_exchanges :: "exchange_row list"
  t_runs :: "run_row list"
  t_rollups :: "rollup_row list"

definition tenant_view :: "string \<Rightarrow> db \<Rightarrow> tenant" where
  "tenant_view b s = \<lparr>t_wallets = filter (\<lambda>w. w_owner w = b) (wallets s),
     t_miners = filter (\<lambda>m. m_owner m = b) (miners s), t_workers = filter (\<lambda>k. k_owner k = b) (workers s),
     t_codes = filter (\<lambda>c. c_owner c = b) (codes s), t_payouts = filter (\<lambda>p. p_owner p = b) (payouts s),
     t_settings = filter (\<lambda>x. fst (fst x) = b) (settings s), t_curset = filter (\<lambda>x. cs_owner x = b) (curset s),
     t_exchanges = filter (\<lambda>x. x_owner x = b) (exchanges s), t_runs = runs_of b s, t_rollups = rollups_of b s\<rparr>"

text \<open>A consumed code and the worker it enrolled belong to the same owner.\<close>

definition codes_owned :: "db \<Rightarrow> bool" where
  "codes_owned s \<longleftrightarrow> (\<forall>c \<in> set (codes s). \<forall>k \<in> set (workers s). c_consumed_by c = Some (k_id k) \<longrightarrow> c_owner c = k_owner k)"

text \<open>The calls that a request of owner \<open>a\<close> makes with that owner as a parameter.\<close>

inductive tenant_call :: "string \<Rightarrow> db \<Rightarrow> db \<Rightarrow> bool" where
  "tenant_call a s (snd (run_state (CreateWallet a sy addr l v) s))"
| "tenant_call a s (snd (run_state (DeleteWallet a i) s))"
| "tenant_call a s (snd (run_state (CreateMiner (p\<lparr>cm_owner := a\<rparr>)) s))"
| "tenant_call a s (snd (run_state (PatchMiner a i n w u) s))"
| "tenant_call a s (snd (run_state (SetMinerAllocation a i c g) s))"
| "tenant_call a s (snd (run_state (DeleteMiner a i) s))"
| "tenant_call a s (snd (run_state (PutSetting a key val) s))"
| "tenant_call a s (snd (run_state (PutCurrencySetting a sy u on adapter) s))"
| "tenant_call a s (snd (run_state (PutExchangeSetting a ex cs ak pk) s))"
| "tenant_call a s (snd (run_state (InsertPayout a sy addr amt tx url pool paid raw) s))"
| "tenant_call a s (snd (run_state (RevokeWorker a i) s))"
| "tenant_call a s (snd (run_state (DeleteWorker a i) s))"
| "tenant_call a s (snd (run_state (Codes_Create rt a) s))"
| "tenant_call a s (snd (run_state (Codes_Revoke a i) s))"

subsection \<open>Writes\<close>

definition sees_same :: "string \<Rightarrow> db \<Rightarrow> db \<Rightarrow> bool" where
  "sees_same b s t \<longleftrightarrow> tenant_view b t = tenant_view b s"

lemma sees_same_refl [simp, relates_intros]: "reflp (sees_same b)"
  by (simp add: reflp_def sees_same_def)

lemma sees_same_trans [simp, relates_intros]: "transp (sees_same b)"
  by (simp add: transp_def sees_same_def)

lemma sees_same_tick [simp]: "sees_same b s (s\<lparr>tick := n\<rparr>)"
  by (simp add: sees_same_def tenant_view_def runs_of_def rollups_of_def)

lemma sees_same_later [simp]: "sees_same b s (t\<lparr>tick := n\<rparr>) = sees_same b s t"
  by (simp add: sees_same_def tenant_view_def runs_of_def rollups_of_def)

lemma sees_stmt [relates_intros]:
  "(\<And>s a t. f s = Inr (a, t) \<Longrightarrow> sees_same b s t) \<Longrightarrow> relates (sees_same b) (sql f)"
  by (rule relates_sql) auto

lemma sees_query [relates_intros]: "relates (sees_same b) (query f)"
  by (rule relates_query) simp

lemma sees_affected [relates_intros]: "relates (sees_same b) m \<Longrightarrow> relates (sees_same b) (affected m)"
  unfolding affected_def by (intro relates_intros) auto

lemma filter_skip: "(\<And>x. p x \<Longrightarrow> \<not> q x) \<Longrightarrow> filter q (filter (\<lambda>x. \<not> p x) xs) = filter q xs"
  by (induction xs) auto

lemma filter_apart: "(\<And>x. x \<in> A \<Longrightarrow> x \<notin> B) \<Longrightarrow>
  filter (\<lambda>r. f r \<in> A) (filter (\<lambda>r. f r \<notin> B) rs) = filter (\<lambda>r. f r \<in> A) rs"
  by (induction rs) auto

lemmas views = sees_same_def tenant_view_def runs_of_def rollups_of_def

lemma sees_wallets: "filter (\<lambda>w. w_owner w = b) ws = filter (\<lambda>w. w_owner w = b) (wallets s) \<Longrightarrow>
  sees_same b s (s\<lparr>wallets := ws\<rparr>)"
  by (simp add: views)

lemma sees_miners: "filter (\<lambda>w. m_owner w = b) ws = filter (\<lambda>w. m_owner w = b) (miners s) \<Longrightarrow>
  sees_same b s (s\<lparr>miners := ws\<rparr>)"
  by (simp add: views)

lemma sees_workers: "filter (\<lambda>w. k_owner w = b) ws = filter (\<lambda>w. k_owner w = b) (workers s) \<Longrightarrow>
  sees_same b s (s\<lparr>workers := ws\<rparr>)"
  by (simp add: views)

lemma sees_codes: "filter (\<lambda>w. c_owner w = b) ws = filter (\<lambda>w. c_owner w = b) (codes s) \<Longrightarrow>
  sees_same b s (s\<lparr>codes := ws\<rparr>)"
  by (simp add: views)

lemma see_CreateWallet: "a \<noteq> b \<Longrightarrow> relates (sees_same b) (CreateWallet a sy addr l v)"
  unfolding CreateWallet_def
  by (intro relates_intros) (auto simp: insert_wallet_def stmt_simps Let_def intro!: sees_wallets)

lemma see_DeleteWallet: "a \<noteq> b \<Longrightarrow> relates (sees_same b) (DeleteWallet a i)"
  unfolding DeleteWallet_def
  by (intro relates_intros; erule delete_wallet_Inr; hypsubst) (rule sees_wallets, rule filter_skip, simp)

lemma see_CreateMiner: "a \<noteq> b \<Longrightarrow> relates (sees_same b) (CreateMiner (p\<lparr>cm_owner := a\<rparr>))"
  unfolding CreateMiner_def GetMiner_def
  by (intro relates_intros)
    (auto simp: insert_miner_def stmt_simps intro!: sees_miners split: option.splits)

lemma sees_update_miner:
  assumes "a \<noteq> b" and "\<And>m. m_owner (g s m) = m_owner m" and "update_miner a u g bad s = Inr (x, t)"
  shows "sees_same b s t"
proof -
  from assms(3) have t: "t = s\<lparr>miners := upd_where (\<lambda>m. m_id m = u \<and> m_owner m = a) (g s) (miners s)\<rparr>"
    by (auto simp: update_miner_def stmt_simps split: option.splits prod.splits)
  show ?thesis
    unfolding t by (rule sees_miners, rule filter_upd_where_same) (use assms(1,2) in auto)
qed

lemma see_PatchMiner: "a \<noteq> b \<Longrightarrow> relates (sees_same b) (PatchMiner a i n w u)"
  unfolding PatchMiner_def
  by (intro relates_intros; elim with_uuid_ex [elim_format] with_uuid_opt_ex [elim_format] exE)
    (erule sees_update_miner [rotated 2], simp_all add: patch_row_def)

lemma see_SetMinerAllocation: "a \<noteq> b \<Longrightarrow> relates (sees_same b) (SetMinerAllocation a i c g)"
  unfolding SetMinerAllocation_def
  by (intro relates_intros; elim with_uuid_ex [elim_format] exE; simp only: require_Inr; elim conjE)
    (erule sees_update_miner [rotated 2], simp_all)

lemma see_settings: "a \<noteq> b \<Longrightarrow> relates (sees_same b) (PutSetting a key val)"
proof -
  assume "a \<noteq> b"
  then have "filter (\<lambda>x. fst (fst x) = b) (aput (a, key) val xs) = filter (\<lambda>x. fst (fst x) = b) xs" for xs
    by (induction xs) auto
  then show ?thesis
    unfolding PutSetting_def by (intro relates_intros) (auto simp: views)
qed

lemma see_curset: "a \<noteq> b \<Longrightarrow> relates (sees_same b) (PutCurrencySetting a sy u on adapter)"
proof -
  assume "a \<noteq> b"
  then have "filter (\<lambda>x. cs_owner x = b) (upsert_curset x xs) = filter (\<lambda>x. cs_owner x = b) xs"
    if "cs_owner x = a" for x xs
    using that by (auto simp: upsert_curset_def curset_key_def intro!: filter_upd_where_same)
  then show ?thesis
    unfolding PutCurrencySetting_def
    by (intro relates_intros) (auto simp: views split: list.splits)
qed

lemma see_exchange: "a \<noteq> b \<Longrightarrow> relates (sees_same b) (PutExchangeSetting a ex cs ak pk)"
proof -
  assume "a \<noteq> b"
  then have "filter (\<lambda>x. x_owner x = b) (upsert_exchange a ex c k xs) = filter (\<lambda>x. x_owner x = b) xs" for c k xs
    by (auto simp: upsert_exchange_def exchange_key_def intro!: filter_upd_where_same)
  then show ?thesis
    unfolding PutExchangeSetting_def Let_def by (intro relates_intros) (auto simp: views)
qed

lemma see_InsertPayout: "a \<noteq> b \<Longrightarrow> relates (sees_same b) (InsertPayout a sy addr amt tx url pool paid raw)"
  unfolding InsertPayout_def
  by (intro relates_intros)
    (auto simp: insert_payout_def with_new_id_Inr Let_def views split: list.splits if_splits)

lemma see_RevokeWorker: "a \<noteq> b \<Longrightarrow> relates (sees_same b) (RevokeWorker a i)"
  unfolding RevokeWorker_def revoke_worker_def end_jobs_of_worker_def Let_def
  by (intro relates_intros)
    (auto simp: stmt_simps views intro!: filter_upd_where_same)

lemma see_Codes_Create: "a \<noteq> b \<Longrightarrow> relates (sees_same b) (Codes_Create rt a)"
  unfolding Codes_Create_def
  by (intro relates_intros) (auto simp: insert_code_def stmt_simps intro!: sees_codes)

lemma see_Codes_Revoke: "a \<noteq> b \<Longrightarrow> relates (sees_same b) (Codes_Revoke a i)"
  unfolding Codes_Revoke_def delete_code_def Let_def
  by (intro relates_intros; simp only: with_uuid_Inr; elim exE conjE; simp only: sum.inject prod.inject; elim conjE; hypsubst)
    (rule sees_codes, rule filter_skip, simp)


lemma see_DeleteMiner:
  assumes "a \<noteq> b" and ok: "db_ok s"
  shows "sees_same b s (snd (run_state (DeleteMiner a i) s))"
proof -
  have "sees_same b s (drop_miners p s)" if p: "p = (\<lambda>m. m_id m = u \<and> m_owner m = a)" for p u
  proof -
    let ?gone = "m_id ` set (filter p (miners s))" and ?mine = "m_id ` set (filter (\<lambda>m. m_owner m = b) (miners s))"
    have disj: "x \<notin> ?gone" if "x \<in> ?mine" for x
      using that assms(1) db_ok_keys(5) [OF ok] by (auto simp: p dest: distinct_map_eqD)
    have left: "filter (\<lambda>m. m_owner m = b) (filter (\<lambda>m. \<not> p m) (miners s)) = filter (\<lambda>m. m_owner m = b) (miners s)"
      by (rule filter_skip) (use assms(1) p in auto)
    show ?thesis
      unfolding views drop_miners_def Let_def by (simp add: left filter_apart [OF disj] del: filter_filter set_filter)
  qed
  then show ?thesis
    by (auto simp: DeleteMiner_def affected_def run_simps with_uuid_def Let_def
        split: option.splits prod.splits sum.splits)
qed

lemma see_DeleteWorker:
  assumes "a \<noteq> b" and ok: "db_ok s" and own: "codes_owned s"
  shows "sees_same b s (snd (run_state (DeleteWorker a i) s))"
proof -
  have "sees_same b s (drop_workers p s)" if p: "p = (\<lambda>k. k_id k = u \<and> k_owner k = a)" for p u
  proof -
    let ?q = "\<lambda>c. c_consumed_by c \<in> Some ` k_id ` set (filter p (workers s))"
    have mine: "c_owner c = a" if "c \<in> set (codes s)" "?q c" for c
      using that own by (auto simp: codes_owned_def p)
    have "filter (\<lambda>c. c_owner c = b) (upd_where ?q (\<lambda>c. c\<lparr>c_consumed_by := None\<rparr>) cs) = filter (\<lambda>c. c_owner c = b) cs"
      if "set cs \<subseteq> set (codes s)" for cs
      using that mine assms(1) by (induction cs) (auto simp: upd_where_def)
    moreover have "filter (\<lambda>k. k_owner k = b) (filter (\<lambda>k. \<not> p k) (workers s)) = filter (\<lambda>k. k_owner k = b) (workers s)"
      by (rule filter_skip) (use assms(1) p in auto)
    ultimately show ?thesis by (simp add: views drop_workers_def Let_def)
  qed
  then show ?thesis
    by (auto simp: DeleteWorker_def affected_def run_simps with_uuid_def Let_def
        split: option.splits prod.splits sum.splits)
qed

text \<open>A request of one owner changes no row of another: wallets, miners with their runs and rollups,
  workers, join codes, payouts and settings of every other owner are exactly as before, whatever
  identifiers the request names (the cascades of a deletion included).\<close>

theorem tenant_isolation:
  assumes "tenant_call a s t" and "a \<noteq> b" and "db_ok s" and "codes_owned s"
  shows "tenant_view b t = tenant_view b s"
proof -
  note see = see_CreateWallet see_DeleteWallet see_CreateMiner see_PatchMiner see_SetMinerAllocation
    see_settings see_curset see_exchange see_InsertPayout see_RevokeWorker see_Codes_Create see_Codes_Revoke
  have "sees_same b s t"
    using assms(1,2) by cases
      (use assms(3,4) in \<open>simp_all add: see [THEN relatesD] see_DeleteMiner see_DeleteWorker\<close>)
  then show ?thesis by (simp add: sees_same_def)
qed

definition two_tenants :: db where
  "two_tenants = sample_db\<lparr>miners := [sample_miner ''m1'' ''alice'' ''created'', sample_miner ''m2'' ''bob'' ''running'']\<rparr>"

theorem tenant_isolation_witness:
  "let t = snd (run_state (DeleteMiner ''alice'' ''m1'') two_tenants) in
     map m_id (miners t) = [''m2''] \<and> t_miners (tenant_view ''bob'' t) = [sample_miner ''m2'' ''bob'' ''running'']"
proof -
  let ?t = "snd (run_state (DeleteMiner ''alice'' ''m1'') two_tenants)"
  have "tenant_view ''bob'' ?t = tenant_view ''bob'' two_tenants"
    by (rule tenant_isolation [of "''alice''"])
      (simp_all add: tenant_call.intros two_tenants_def db_ok_defs sample_data with_txid_def pct_ok_def codes_owned_def)
  moreover have "map m_id (miners ?t) = [''m2'']"
    by (simp add: DeleteMiner_def affected_def run_simps with_uuid_def drop_miners_def two_tenants_def sample_data Let_def)
  ultimately show ?thesis by (simp add: Let_def tenant_view_def two_tenants_def sample_data)
qed

end
