(* ===== verification/MetricProps.thy ===== *)
theory MetricProps
  imports Frames Samples
begin

text \<open>
  What the metric and payout methods return and store: recent samples for charts, hourly rollups with
  their retention, and the recording of payouts.
\<close>

lemma reverse_loop_mid:
  "reverse_loop (length a) (int (length a + length m) - 1) (a @ m @ b) = a @ rev m @ b"
proof (induction "length m" arbitrary: a m b rule: less_induct)
  case less
  show ?case
  proof (cases "length m < 2")
    case True
    then have "rev m = m" by (cases m rule: rev_cases) (auto simp: numeral_2_eq_2)
    then show ?thesis using True by (subst reverse_loop.simps) auto
  next
    case False
    then obtain x c y where m: "m = x # c @ [y]"
      by (metis (no_types, lifting) One_nat_def Suc_1 append_butlast_last_id length_Cons lessI less_2_cases_iff list.exhaust list.size(3) not_less zero_less_Suc less_Suc0)
    let ?j = "int (length a + length m) - 1"
    have j: "nat ?j = Suc (length a + length c)" by (simp add: m)
    have swap: "(a @ m @ b)[length a := (a @ m @ b) ! Suc (length a + length c),
        Suc (length a + length c) := (a @ m @ b) ! length a] = (a @ [y]) @ c @ (x # b)"
      by (simp add: m nth_append list_update_append)
    have lt: "int (length a) < ?j" by (simp add: m)
    have "reverse_loop (length a) ?j (a @ m @ b) = reverse_loop (length a + 1) (?j - 1) ((a @ [y]) @ c @ (x # b))"
      unfolding reverse_loop.simps [of "length a" ?j "a @ m @ b"] j swap using lt by simp
    also have "\<dots> = reverse_loop (length (a @ [y])) (int (length (a @ [y]) + length c) - 1) ((a @ [y]) @ c @ (x # b))"
      by (simp add: m)
    also have "\<dots> = (a @ [y]) @ rev c @ (x # b)" by (rule less.hyps) (simp add: m)
    finally show ?thesis by (simp add: m)
  qed
qed

lemma reverse_loop_rev [simp]: "reverse_loop 0 (int (length out) - 1) out = rev out"
  using reverse_loop_mid [of "[]" out "[]"] by simp

text \<open>\<open>RecentMetrics\<close> returns the samples of the miner that are most recent, at most \<open>limit\<close> of them, in
  chronological order: the in-place reversal turns the newest-first result of the query around, and no
  sample that is left out is newer than one that is returned.\<close>

theorem RecentMetrics_chronological:
  assumes "run_state (RecentMetrics mid n) s = (Inr out, t)" and "uuid_of (env s) mid = Some u"
  shows "sorted (map mp_ts out) \<and>
    length out = min (nat n) (length (filter (\<lambda>x. s_miner x = u) (samples s))) \<and>
    (\<exists>rest. mset out + mset rest = mset (map scanPoint (filter (\<lambda>x. s_miner x = u) (samples s))) \<and>
      (\<forall>p \<in> set out. \<forall>q \<in> set rest. mp_ts q \<le> mp_ts p))"
proof -
  let ?mine = "map scanPoint (filter (\<lambda>x. s_miner x = u) (samples s))"
  let ?L = "order_by s (\<lambda>p. - mp_ts p) ?mine"
  have out: "out = rev (take (nat n) ?L)"
    using assms by (auto simp: RecentMetrics_def inr_simps with_uuid_Inr limit_offset_def split: if_splits)
  have desc: "sorted (map (\<lambda>p. - mp_ts p) ?L)" by simp
  have L: "mset ?L = mset ?mine" by simp
  then have len: "length ?L = length (filter (\<lambda>x. s_miner x = u) (samples s))"
    using mset_eq_length by fastforce
  have "sorted_wrt (\<lambda>p q. mp_ts q \<le> mp_ts p) ?L"
    using desc by (simp add: sorted_map)
  then have cut: "sorted_wrt (\<lambda>p q. mp_ts q \<le> mp_ts p) (take (nat n) ?L @ drop (nat n) ?L)" by simp
  note parts = cut [unfolded sorted_wrt_append]
  have "sorted_wrt (\<lambda>p q. mp_ts p \<le> mp_ts q) out"
    using parts by (simp add: out sorted_wrt_rev)
  moreover have "mset out + mset (drop (nat n) ?L) = mset ?mine"
    unfolding out mset_rev mset_append [symmetric] append_take_drop_id L ..
  moreover have "\<forall>p \<in> set out. \<forall>q \<in> set (drop (nat n) ?L). mp_ts q \<le> mp_ts p"
    using parts unfolding out set_rev by blast
  moreover have "length out = min (nat n) (length (filter (\<lambda>x. s_miner x = u) (samples s)))"
    by (simp add: out len)
  ultimately show ?thesis by (auto simp: sorted_map)
qed

definition sample_at :: "int \<Rightarrow> int \<Rightarrow> sample_row" where
  "sample_at ts acc = \<lparr>s_miner = ''m1'', s_worker = None, s_ts = ts, s_rate = 100, s_acc = acc, s_rej = 0\<rparr>"

theorem RecentMetrics_chronological_witness:
  "\<exists>out. fst (run_state (RecentMetrics ''m1'' 2)
     (sample_db\<lparr>samples := [sample_at 1 10, sample_at 3 30, sample_at 2 20]\<rparr>)) = Inr out \<and>
     sorted (map mp_ts out) \<and> length out = 2"
proof -
  let ?s = "sample_db\<lparr>samples := [sample_at 1 10, sample_at 3 30, sample_at 2 20]\<rparr>"
  obtain out t where run: "run_state (RecentMetrics ''m1'' 2) ?s = (Inr out, t)"
    by (simp add: RecentMetrics_def run_simps with_uuid_def limit_offset_def sample_data)
  have "uuid_of (env ?s) ''m1'' = Some ''m1''" by (simp add: sample_data)
  from RecentMetrics_chronological [OF run this] run show ?thesis
    by (simp add: sample_data sample_at_def)
qed

subsection \<open>Rollups\<close>

lemma group_keys: "map rollup_key (group_samples xs) = remdups (map sample_key xs)"
  by (simp add: group_samples_def aggregate_def rollup_key_def comp_def)

lemma group_in: "r \<in> set (group_samples xs) \<longleftrightarrow>
  rollup_key r \<in> sample_key ` set xs \<and> r = aggregate (rollup_key r) (filter (\<lambda>x. sample_key x = rollup_key r) xs)"
proof -
  have k: "rollup_key (aggregate k ys) = k" for k ys by (simp add: aggregate_def rollup_key_def)
  have "r \<in> set (group_samples xs) \<longleftrightarrow>
    (\<exists>k \<in> sample_key ` set xs. r = aggregate k (filter (\<lambda>x. sample_key x = k) xs))"
    unfolding group_samples_def set_map set_remdups by blast
  then show ?thesis using k by metis
qed

lemma trunc_less: "x < date_trunc_hour n \<longleftrightarrow> date_trunc_hour x < date_trunc_hour n"
proof -
  have H: "0 < hour" by (simp add: hour_def minute_def second_def)
  have x: "x = x div hour * hour + x mod hour" "0 \<le> x mod hour" "x mod hour < hour"
    using H by simp_all
  show ?thesis
  proof
    assume "x < date_trunc_hour n"
    then show "date_trunc_hour x < date_trunc_hour n" using x unfolding date_trunc_hour_def by linarith
  next
    assume "date_trunc_hour x < date_trunc_hour n"
    then have "x div hour < n div hour" using H by (simp add: date_trunc_hour_def)
    then have "(x div hour + 1) * hour \<le> n div hour * hour" using H by (intro mult_right_mono) auto
    then show "x < date_trunc_hour n" using x unfolding date_trunc_hour_def distrib_right by linarith
  qed
qed

lemma upsert_in: "r \<in> set (upsert_rollup r rs)"
  by (auto simp: upsert_rollup_def set_upd_where image_iff)

lemma upserts_in:
  assumes "distinct (map rollup_key as)" and "r \<in> set as"
  shows "r \<in> set (fold upsert_rollup as rs)"
  using assms
proof (induction as arbitrary: rs)
  case (Cons a as)
  show ?case
  proof (cases "r \<in> set as")
    case False
    then have "r = a" and "rollup_key a \<notin> rollup_key ` set as" using Cons.prems by auto
    then show ?thesis using rollup_table.puts_other [of a as "upsert_rollup a rs"] upsert_in by simp
  qed (use Cons in auto)
qed simp

lemma hour_samples: "filter (\<lambda>x. sample_key x = (u, h)) (filter (\<lambda>x. s_ts x < date_trunc_hour now) xs) =
  (if h < date_trunc_hour now then filter (\<lambda>x. sample_key x = (u, h)) xs else [])"
proof -
  have "s_ts x < date_trunc_hour now \<longleftrightarrow> h < date_trunc_hour now" if "sample_key x = (u, h)" for x
    using trunc_less [of "s_ts x" now] that by (auto simp: sample_key_def)
  then show ?thesis by (cases "h < date_trunc_hour now") (auto simp: filter_empty_conv intro!: filter_cong)
qed

lemma rolled_up:
  assumes "distinct (map rollup_key rs)" and "filter (\<lambda>x. sample_key x = (u, h)) xs \<noteq> []"
  shows "filter (\<lambda>r. rollup_key r = (u, h)) (fold upsert_rollup (group_samples xs) rs) =
    [aggregate (u, h) (filter (\<lambda>x. sample_key x = (u, h)) xs)]"
proof -
  let ?r = "aggregate (u, h) (filter (\<lambda>x. sample_key x = (u, h)) xs)"
  have "(u, h) \<in> sample_key ` set xs" using assms(2) by (force simp: filter_empty_conv)
  moreover have k: "rollup_key (aggregate (u, h) ys) = (u, h)" for ys by (simp add: aggregate_def rollup_key_def)
  ultimately have "?r \<in> set (group_samples xs)" unfolding group_in k by simp
  then have "?r \<in> set (fold upsert_rollup (group_samples xs) rs)" by (intro upserts_in) (simp add: group_keys)
  then show ?thesis
    using keyed_filter_single [OF rollup_table.puts_distinct [OF assms(1)], of ?r "group_samples xs"] by (simp add: k)
qed

lemma not_rolled_up:
  assumes "filter (\<lambda>x. sample_key x = (u, h)) xs = []"
  shows "set (filter (\<lambda>r. rollup_key r = (u, h)) (fold upsert_rollup (group_samples xs) rs)) =
    set (filter (\<lambda>r. rollup_key r = (u, h)) rs)"
proof -
  have "(u, h) \<notin> sample_key ` set xs" using assms unfolding filter_empty_conv by fastforce
  then have "(u, h) \<notin> rollup_key ` set (group_samples xs)" unfolding set_map [symmetric] group_keys by simp
  then show ?thesis using rollup_table.puts_other [of _ "group_samples xs" rs] by auto
qed

text \<open>C26. One pass of \<open>RollupOnce\<close>: for every miner and every hour that is over and still has samples, the
  rollup is exactly the aggregate of those samples (average, maximum, and sums of the accepted and
  rejected shares); every other rollup is left as it was, so history survives the pruning of its
  samples; and afterwards exactly the samples of the last 48 hours remain.\<close>

theorem RollupOnce_outcome:
  assumes "run_state RollupOnce s = (Inr (), t)" and "db_ok s"
  shows "(\<forall>u h. let xs = filter (\<lambda>x. sample_key x = (u, h)) (samples s) in
            if xs \<noteq> [] \<and> h < date_trunc_hour (db_now s)
            then filter (\<lambda>r. rollup_key r = (u, h)) (rollups t) = [aggregate (u, h) xs]
            else set (filter (\<lambda>r. rollup_key r = (u, h)) (rollups t)) = set (filter (\<lambda>r. rollup_key r = (u, h)) (rollups s))) \<and>
    samples t = filter (\<lambda>x. s_ts x \<ge> clock (env s) (Suc (tick s)) - 48 * hour) (samples s)"
proof
  let ?past = "filter (\<lambda>x. s_ts x < date_trunc_hour (db_now s)) (samples s)"
  from assms(1) have st: "samples t = filter (\<lambda>x. \<not> s_ts x < clock (env s) (Suc (tick s)) - 48 * hour) (samples s)"
    and rt: "rollups t = fold upsert_rollup (group_samples ?past) (rollups s)"
    by (auto simp: RollupOnce_def inr_simps rollup_stmt_def prune_stmt_def db_now_def)
  show "samples t = filter (\<lambda>x. s_ts x \<ge> clock (env s) (Suc (tick s)) - 48 * hour) (samples s)"
    unfolding st by (simp add: not_less)
  show "\<forall>u h. let xs = filter (\<lambda>x. sample_key x = (u, h)) (samples s) in
      if xs \<noteq> [] \<and> h < date_trunc_hour (db_now s)
      then filter (\<lambda>r. rollup_key r = (u, h)) (rollups t) = [aggregate (u, h) xs]
      else set (filter (\<lambda>r. rollup_key r = (u, h)) (rollups t)) = set (filter (\<lambda>r. rollup_key r = (u, h)) (rollups s))"
  proof (intro allI)
    fix u h
    note rolled = rolled_up [OF db_ok_keys(10) [OF assms(2)], of u h ?past] not_rolled_up [of u h ?past "rollups s"]
    then show "let xs = filter (\<lambda>x. sample_key x = (u, h)) (samples s) in
      if xs \<noteq> [] \<and> h < date_trunc_hour (db_now s)
      then filter (\<lambda>r. rollup_key r = (u, h)) (rollups t) = [aggregate (u, h) xs]
      else set (filter (\<lambda>r. rollup_key r = (u, h)) (rollups t)) = set (filter (\<lambda>r. rollup_key r = (u, h)) (rollups s))"
      unfolding rt Let_def hour_samples by (cases "h < date_trunc_hour (db_now s)") simp_all
  qed
qed

definition metric_db :: db where
  "metric_db = sample_db\<lparr>env := sample_env\<lparr>clock := (\<lambda>_. hour + 1)\<rparr>, miners := [sample_miner ''m1'' ''alice'' ''running''],
     samples := [sample_at 1 10, sample_at 2 20, sample_at hour 5]\<rparr>"

theorem RollupOnce_outcome_witness:
  "\<exists>t. run_state RollupOnce metric_db = (Inr (), t) \<and>
     map (\<lambda>r. (u_bucket r, u_acc r)) (filter (\<lambda>r. rollup_key r = (''m1'', 0)) (rollups t)) = [(0, 30)]"
proof -
  obtain t where run: "run_state RollupOnce metric_db = (Inr (), t)"
    by (simp add: RollupOnce_def run_simps rollup_stmt_def prune_stmt_def metric_db_def sample_data)
  have ok: "db_ok metric_db"
    by (simp add: metric_db_def db_ok_defs sample_data sample_at_def with_txid_def pct_ok_def)
  have keys: "filter (\<lambda>x. sample_key x = (''m1'', 0)) (samples metric_db) = [sample_at 1 10, sample_at 2 20]"
    by (simp add: metric_db_def sample_at_def sample_key_def date_trunc_hour_def hour_def minute_def second_def)
  have now: "(0 :: int) < date_trunc_hour (db_now metric_db)"
    by (simp add: metric_db_def db_now_def date_trunc_hour_def hour_def minute_def second_def)
  from conjunct1 [OF RollupOnce_outcome [OF run ok], rule_format, of "''m1''" 0] now
  have "filter (\<lambda>r. rollup_key r = (''m1'', 0)) (rollups t) = [aggregate (''m1'', 0) [sample_at 1 10, sample_at 2 20]]"
    by (simp add: keys Let_def)
  then show ?thesis using run by (simp add: aggregate_def sample_at_def)
qed


subsection \<open>Payouts\<close>

text \<open>Re-polling a pool is harmless for payouts that carry a transaction id: after one successful
  \<open>InsertPayout\<close> for a currency and transaction, every later one for the same pair reports \<open>False\<close> and
  stores nothing, for whatever owner it is made.\<close>

theorem InsertPayout_repoll:
  assumes "run_state (InsertPayout o1 sy a1 amt1 txid u1 p1 d1 r1) s = (Inr b1, s')" and "txid \<noteq> []"
    and "currency_rows sy s \<noteq> []"
    and "run_state (InsertPayout o2 sy a2 amt2 txid u2 p2 d2 r2) s' = (Inr b2, t)"
  shows "\<not> b2 \<and> payouts t = payouts s'"
proof -
  obtain c rest where c: "currency_rows sy s = c # rest" using assms(3) by (cases "currency_rows sy s") auto
  have e: "env s' = env s" and cur: "currencies s' = currencies s"
    using relatesD [OF frame_InsertPayout, of s o1 sy a1 amt1 txid u1 p1 d1 r1] assms(1) by (auto simp: only_def)
  have "\<exists>p \<in> set (payouts s'). p_currency p = cur_id c \<and> p_txid p = nullif_empty txid"
    using assms(1) c by (auto simp: InsertPayout_def inr_simps insert_payout_def with_new_id_Inr Let_def
        split: if_splits)
  moreover have "currency_rows sy s' = c # rest" using c cur by (simp add: currency_rows_def)
  ultimately show ?thesis
    using assms(2,4) by (auto simp: InsertPayout_def inr_simps insert_payout_def with_new_id_Inr Let_def
        nullif_empty_def split: if_splits)
qed

lemmas payout_eval = InsertPayout_def run_simps insert_payout_def currency_rows_def with_new_id_def Let_def
  nullif_empty_def sample_data new_uuid_def

definition paid_db :: "string \<Rightarrow> db" where
  "paid_db txid = snd (run_state (InsertPayout ''alice'' ''XMR'' ''4A'' 1 txid [] ''pool'' None JNull) sample_db)"

theorem InsertPayout_repoll_witness:
  "let r = run_state (InsertPayout ''bob'' ''XMR'' ''4B'' 2 ''tx1'' [] ''pool'' None JNull) (paid_db ''tx1'') in
   map p_owner (payouts (paid_db ''tx1'')) = [''alice''] \<and> fst r = Inr False \<and> payouts (snd r) = payouts (paid_db ''tx1'')"
proof -
  let ?m = "InsertPayout ''bob'' ''XMR'' ''4B'' 2 ''tx1'' [] ''pool'' None JNull"
  have run: "run_state (InsertPayout ''alice'' ''XMR'' ''4A'' 1 ''tx1'' [] ''pool'' None JNull) sample_db
      = (Inr True, paid_db ''tx1'')"
    by (simp add: paid_db_def payout_eval)
  have no: "fst (run_state ?m (paid_db ''tx1'')) = Inr False"
    by (simp add: paid_db_def payout_eval)
  have run2: "run_state ?m (paid_db ''tx1'') = (Inr False, snd (run_state ?m (paid_db ''tx1'')))"
    using no by (metis prod.collapse)
  have "payouts (snd (run_state ?m (paid_db ''tx1''))) = payouts (paid_db ''tx1'')"
    using InsertPayout_repoll [OF run _ _ run2] by (simp add: currency_rows_def sample_data)
  moreover have "map p_owner (payouts (paid_db ''tx1'')) = [''alice'']" by (simp add: paid_db_def payout_eval)
  ultimately show ?thesis by (simp add: no Let_def)
qed

text \<open>Without a transaction id nothing is deduplicated: \<open>NULLIF(txid,'')\<close> stores a null, which never
  conflicts, so each poll of a pool that reports a payment without an id stores it again.\<close>

theorem InsertPayout_duplicates:
  assumes "run_state (InsertPayout owner sy addr amt [] url pool paid raw) s = (Inr b, t)"
    and "currency_rows sy s \<noteq> []"
  shows "b \<and> (\<exists>p. payouts t = payouts s @ [p] \<and> p_owner p = owner \<and> p_amount p = amt \<and> p_txid p = None)"
  using assms by (cases "currency_rows sy s")
    (auto simp: InsertPayout_def inr_simps insert_payout_def with_new_id_Inr Let_def nullif_empty_def)

theorem InsertPayout_duplicates_witness:
  "let m = InsertPayout ''alice'' ''XMR'' ''4A'' 1 [] [] ''pool'' None JNull in
   map p_amount (payouts (snd (run_state m (paid_db [])))) = [1, 1]"
proof -
  let ?m = "InsertPayout ''alice'' ''XMR'' ''4A'' 1 [] [] ''pool'' None JNull"
  have run2: "run_state ?m (paid_db []) = (Inr True, snd (run_state ?m (paid_db [])))"
    by (simp add: paid_db_def payout_eval)
  have "map p_amount (payouts (paid_db [])) = [1]" by (simp add: paid_db_def payout_eval)
  moreover have "currency_rows ''XMR'' (paid_db []) \<noteq> []" by (simp add: paid_db_def payout_eval)
  ultimately show ?thesis
    using InsertPayout_duplicates [OF run2] by (auto simp: Let_def)
qed

end
