(* ===== verification/Hub.thy ===== *)
theory Hub
  imports Codes Events
begin

text \<open>
  The worker control channel (\<open>internal/swarm/hub.go\<close>): who is connected, which jobs they hold, and the
  messages between hub and workers. The state \<open>world\<close> has the database, the maps of the \<open>Hub\<close> struct
  (association lists keyed by worker or job), the event broker, and the websocket connections, each a
  number: \<open>outbox\<close> is what has been written to them, in order, \<open>shut\<close> those that have been closed.
  Writes may fail (\<open>net_fail\<close>, by the number of the write), a write to a closed connection does. Go
  iterates over a map in no particular order: \<open>map_rank\<close> decides it.

  The critical sections under \<open>h.mu\<close> are single state changes; a database statement is one too.
\<close>

definition HeartbeatWindow :: int where
  "HeartbeatWindow = 45 * second"

text \<open>\<open>Message\<close> with the payloads that the hub sends.\<close>

record assign_payload =
  ap_job :: string
  ap_miner :: string
  ap_engine :: string
  ap_algorithm :: string
  ap_pool :: string
  ap_user :: string
  ap_wallet :: string
  ap_worker :: string
  ap_threads :: int
  ap_gpu_on :: bool
  ap_gpu_intensity :: int
  ap_adapter :: "json option"
  ap_simulated :: bool

datatype message =
    JobAssign assign_payload
  | JobCancel string
  | AllocationUpdateMsg string int int
  | WorkerRevokeMsg

record live_worker =
  lw_id :: string
  lw_owner :: string
  lw_kind :: string
  lw_name :: string
  lw_rate :: rat
  lw_currency :: string
  lw_jobs :: "(string \<times> string) list"
  lw_last :: int

record job_state =
  js_miner :: string
  js_owner :: string
  js_last_acc :: i64
  js_last_rej :: i64
  js_tot_acc :: i64
  js_tot_rej :: i64

record world =
  wdb :: db
  conns :: "(string \<times> nat) list"
  live :: "(string \<times> live_worker) list"
  jstates :: "(string \<times> job_state) list"
  logs :: "(string \<times> string list) list"
  evb :: broker
  outbox :: "(nat \<times> message) list"
  shut :: "nat list"
  wall :: int
  writes :: nat
  net_fail :: "nat \<Rightarrow> bool"
  map_rank :: "nat \<Rightarrow> string \<Rightarrow> nat"

text \<open>\<open>NewHub\<close>: the server has (re)started, with the database as it was.\<close>

definition NewHub :: "world \<Rightarrow> world" where
  "NewHub w = w\<lparr>conns := [], live := [], jstates := [], logs := []\<rparr>"

abbreviation on_db :: "(db, 'a) state \<Rightarrow> (world, 'a) state" where
  "on_db m \<equiv> zoom wdb (\<lambda>d w. w\<lparr>wdb := d\<rparr>) m"

text \<open>\<open>_ = h.st.Method(..)\<close>: the error is dropped.\<close>

definition ignore :: "('s, 'a) state \<Rightarrow> ('s, unit) state" where
  "ignore m = do { _ \<leftarrow> m; ret () }"

definition publish :: "string \<Rightarrow> string \<Rightarrow> (string \<times> evval) list \<Rightarrow> (world, unit) state" where
  "publish owner ty dat = modify (\<lambda>w. w\<lparr>evb := Publish owner \<lparr>ev_type = ty, ev_data = dat\<rparr> (evb w)\<rparr>)"

definition send :: "nat \<Rightarrow> message \<Rightarrow> (world, bool) state" where
  "send c msg = State (\<lambda>w. if c \<in> set (shut w) \<or> net_fail w (writes w)
     then (False, w\<lparr>writes := Suc (writes w)\<rparr>)
     else (True, w\<lparr>writes := Suc (writes w), outbox := outbox w @ [(c, msg)]\<rparr>))"

definition shut_conn :: "nat \<Rightarrow> (world, unit) state" where
  "shut_conn c = modify (\<lambda>w. w\<lparr>shut := c # shut w\<rparr>)"

subsection \<open>Connections\<close>

definition register :: "string \<Rightarrow> string \<Rightarrow> string \<Rightarrow> nat \<Rightarrow> (world, unit) state" where
  "register workerID owner kind c = do {
     old \<leftarrow> gets (\<lambda>w. map_of (conns w) workerID);
     (case old of None \<Rightarrow> ret () | Some c' \<Rightarrow> shut_conn c');
     modify (\<lambda>w. w\<lparr>conns := aput workerID c (conns w),
       live := aput workerID \<lparr>lw_id = workerID, lw_owner = owner, lw_kind = kind, lw_name = [], lw_rate = 0,
         lw_currency = [], lw_jobs = [], lw_last = wall w\<rparr> (live w)\<rparr>)
   }"

definition unregister :: "string \<Rightarrow> (world, unit) state" where
  "unregister workerID = do {
     lw \<leftarrow> gets (\<lambda>w. map_of (live w) workerID);
     modify (\<lambda>w. w\<lparr>conns := adel workerID (conns w), live := adel workerID (live w)\<rparr>);
     ignore (on_db (SetWorkerStatus workerID ''offline''));
     case lw of None \<Rightarrow> ret ()
     | Some l \<Rightarrow> publish (lw_owner l) ''worker_left'' [(''id'', EStr workerID)]
   }"

definition set_live :: "string \<Rightarrow> (live_worker \<Rightarrow> live_worker) \<Rightarrow> world \<Rightarrow> world" where
  "set_live workerID g w = (case map_of (live w) workerID of None \<Rightarrow> w
     | Some l \<Rightarrow> w\<lparr>live := aput workerID (g l) (live w)\<rparr>)"

definition touch :: "string \<Rightarrow> (world, unit) state" where
  "touch workerID = modify (\<lambda>w. set_live workerID (\<lambda>l. l\<lparr>lw_last := wall w\<rparr>) w)"

subsection \<open>Messages from workers\<close>

text \<open>
  The envelope after \<open>json.Unmarshal\<close>: the type and the payload, or \<open>InBad\<close> when the payload of that
  type does not decode. \<open>InHello None\<close> is a hello without capabilities.
\<close>

datatype inbound =
    InHello "json option"
  | InPong
  | InAck string string string
  | InMetrics string rat i64 i64
  | InShare
  | InLog string string
  | InOther string
  | InBad

definition handleAck :: "string \<Rightarrow> string \<Rightarrow> string \<Rightarrow> string \<Rightarrow> string \<Rightarrow> (world, unit) state" where
  "handleAck workerID owner jobID status errMsg = do {
     r \<leftarrow> on_db (ActiveJobForWorker jobID workerID);
     case r of
       Inl _ \<Rightarrow> ret ()
     | Inr job \<Rightarrow>
         if status = ''ok'' then do {
           ignore (on_db (SetSwarmJobStatus jobID ''ack''));
           ignore (on_db (SetMinerStatus (sj_miner job) ''running''));
           ignore (on_db (SetWorkerStatus workerID ''mining''));
           modify (\<lambda>w. (set_live workerID (\<lambda>l. l\<lparr>lw_jobs := aput jobID (sj_miner job) (lw_jobs l)\<rparr>) w)
             \<lparr>jstates := aput jobID \<lparr>js_miner = sj_miner job, js_owner = owner, js_last_acc = 0, js_last_rej = 0,
                js_tot_acc = 0, js_tot_rej = 0\<rparr> (jstates w)\<rparr>);
           publish owner ''miner_status'' [(''miner_id'', EStr (sj_miner job)), (''status'', EStr ''running'')]
         } else do {
           ignore (on_db (SetSwarmJobStatus jobID ''error''));
           ignore (on_db (SetMinerStatus (sj_miner job) ''error''));
           publish owner ''miner_status'' [(''miner_id'', EStr (sj_miner job)), (''status'', EStr ''error''),
             (''error'', EStr errMsg)]
         }
   }"

text \<open>The counters of a job after a cumulative report, and the delta it contributes; \<open>int64\<close> arithmetic.\<close>

definition delta :: "i64 \<Rightarrow> i64 \<Rightarrow> i64" where
  "delta now prev = (if now - prev <s 0 then now else now - prev)"

definition count_report :: "i64 \<Rightarrow> i64 \<Rightarrow> job_state \<Rightarrow> job_state" where
  "count_report acc rej js = js\<lparr>js_last_acc := acc, js_last_rej := rej,
     js_tot_acc := js_tot_acc js + delta acc (js_last_acc js),
     js_tot_rej := js_tot_rej js + delta rej (js_last_rej js)\<rparr>"

definition handleMetrics :: "string \<Rightarrow> string \<Rightarrow> string \<Rightarrow> rat \<Rightarrow> i64 \<Rightarrow> i64 \<Rightarrow> (world, unit) state" where
  "handleMetrics workerID owner jobID hashrate acc rej = do {
     r \<leftarrow> on_db (ActiveJobForWorker jobID workerID);
     case r of
       Inl _ \<Rightarrow> ret ()
     | Inr job \<Rightarrow> do {
         found \<leftarrow> gets (\<lambda>w. map_of (jstates w) jobID);
         let js = (case found of Some js \<Rightarrow> js
           | None \<Rightarrow> \<lparr>js_miner = sj_miner job, js_owner = owner, js_last_acc = acc, js_last_rej = rej,
                      js_tot_acc = 0, js_tot_rej = 0\<rparr>);
         modify (\<lambda>w. (set_live workerID (\<lambda>l. l\<lparr>lw_rate := hashrate\<rparr>) w)
           \<lparr>jstates := aput jobID (count_report acc rej js) (jstates w)\<rparr>);
         ignore (on_db (InsertMetricSample (sj_miner job) (Some workerID) hashrate
           (sint (delta acc (js_last_acc js))) (sint (delta rej (js_last_rej js)))))
       }
   }"

definition push_log :: "string \<Rightarrow> string list \<Rightarrow> string list" where
  "push_log line l = (let l = l @ [line] in if length l > 20 then drop (length l - 20) l else l)"

text \<open>\<open>stamp\<close> renders \<open>time.Now().Format(time.RFC3339)\<close>.\<close>

definition appendLog :: "(int \<Rightarrow> string) \<Rightarrow> string \<Rightarrow> string \<Rightarrow> string \<Rightarrow> (world, unit) state" where
  "appendLog stamp workerID level msg = modify (\<lambda>w. w\<lparr>logs := aput workerID
     (push_log (stamp (wall w) @ '' ['' @ level @ ''] '' @ msg)
       (case map_of (logs w) workerID of None \<Rightarrow> [] | Some l \<Rightarrow> l)) (logs w)\<rparr>)"

definition WorkerLogs :: "string \<Rightarrow> world \<Rightarrow> string list" where
  "WorkerLogs workerID w = (case map_of (logs w) workerID of None \<Rightarrow> [] | Some l \<Rightarrow> l)"

definition handleMessage :: "(int \<Rightarrow> string) \<Rightarrow> string \<Rightarrow> string \<Rightarrow> inbound \<Rightarrow> (world, unit) state" where
  "handleMessage stamp workerID owner m = (case m of
       InHello (Some caps) \<Rightarrow> ignore (on_db (UpdateWorkerCaps workerID (Some caps)))
     | InHello None \<Rightarrow> ret ()
     | InPong \<Rightarrow> ret ()
     | InAck jobID status err \<Rightarrow> if jobID = [] then ret () else handleAck workerID owner jobID status err
     | InMetrics jobID h acc rej \<Rightarrow> if jobID = [] then ret () else handleMetrics workerID owner jobID h acc rej
     | InShare \<Rightarrow> ret ()
     | InLog level msg \<Rightarrow> if msg = [] then ret () else appendLog stamp workerID level msg
     | InOther _ \<Rightarrow> ret ()
     | InBad \<Rightarrow> ret ())"

subsection \<open>Assignment\<close>

definition minerOwner :: "string \<Rightarrow> (db, string) state" where
  "minerOwner minerID = do {
     r \<leftarrow> query (\<lambda>s. with_uuid s minerID (\<lambda>u. one_row [m_owner m. m \<leftarrow> miners s, m_id m = u]));
     ret (case r of Inl _ \<Rightarrow> [] | Inr o' \<Rightarrow> o')
   }"

text \<open>One turn of the loop over \<open>h.live\<close>: is this worker a better target than the best so far?\<close>

definition better :: "string \<Rightarrow> live_worker \<Rightarrow> nat option \<Rightarrow> (live_worker \<times> nat) option \<Rightarrow> (live_worker \<times> nat) option" where
  "better owner lw wc best =
     (if lw_owner lw \<noteq> owner then best
      else case wc of
        None \<Rightarrow> best
      | Some c \<Rightarrow>
          if lw_kind lw = ''browser'' then best
          else case best of
            None \<Rightarrow> Some (lw, c)
          | Some (t, _) \<Rightarrow> if length (lw_jobs lw) < length (lw_jobs t) then Some (lw, c) else best)"

primrec pick_target ::
  "string \<Rightarrow> (string \<times> live_worker) list \<Rightarrow> (live_worker \<times> nat) option \<Rightarrow> (world, (live_worker \<times> nat) option) state" where
  "pick_target minerID [] best = ret best"
| "pick_target minerID (x # xs) best = do {
     owner \<leftarrow> on_db (minerOwner minerID);
     wc \<leftarrow> gets (\<lambda>w. map_of (conns w) (fst x));
     pick_target minerID xs (better owner (snd x) wc best)
   }"

definition map_range :: "world \<Rightarrow> (string \<times> 'v) list \<Rightarrow> (string \<times> 'v) list" where
  "map_range w m = sort_key (\<lambda>p. map_rank w (tick (wdb w)) (fst p)) m"

definition assign_threads :: "worker \<Rightarrow> miner \<Rightarrow> int" where
  "assign_threads k m = (if wk_cores k > 0 then max 1 (go_quot (wk_cores k * mn_cpu m) 100) else 1)"

definition worker_name :: "string \<Rightarrow> string \<Rightarrow> string" where
  "worker_name minerID workerID = ''mm-'' @ take 8 minerID @ ''-'' @ take 8 workerID"

definition engine_payload :: "string \<Rightarrow> miner \<Rightarrow> currency \<Rightarrow> string \<Rightarrow> worker \<Rightarrow> string \<Rightarrow> assign_payload" where
  "engine_payload jobID m cur walletAddr k workerID = (let name = worker_name (mn_id m) workerID in
     \<lparr>ap_job = jobID, ap_miner = mn_id m, ap_engine = mn_engine m, ap_algorithm = algorithm cur,
      ap_pool = mn_pool m, ap_user = (if walletAddr = [] then name else walletAddr @ ''.'' @ name),
      ap_wallet = walletAddr, ap_worker = name, ap_threads = assign_threads k m,
      ap_gpu_on = (mn_gpu m > 0), ap_gpu_intensity = mn_gpu m, ap_adapter = adapter_config cur,
      ap_simulated = (mn_engine m = ''simulated'')\<rparr>)"

definition Assign :: "miner \<Rightarrow> currency \<Rightarrow> string \<Rightarrow> (world, bool) state" where
  "Assign m cur walletAddr = do {
     entries \<leftarrow> gets (\<lambda>w. map_range w (live w));
     best \<leftarrow> pick_target (mn_id m) entries None;
     case best of
       None \<Rightarrow> ret False
     | Some (target, targetConn) \<Rightarrow> do {
         owner \<leftarrow> on_db (minerOwner (mn_id m));
         rk \<leftarrow> on_db (GetWorker owner (lw_id target));
         case rk of
           Inl _ \<Rightarrow> ret False
         | Inr k \<Rightarrow> do {
             rj \<leftarrow> on_db (CreateSwarmJob (mn_id m) (lw_id target));
             case rj of
               Inl _ \<Rightarrow> ret False
             | Inr jobID \<Rightarrow> do {
                 ok \<leftarrow> send targetConn (JobAssign (engine_payload jobID m cur walletAddr k (lw_id target)));
                 if ok then do {
                   ignore (on_db (SetWorkerStatus (lw_id target) ''assigned''));
                   ret True
                 } else do {
                   ignore (on_db (SetSwarmJobStatus jobID ''error''));
                   ret False
                 }
               }
           }
       }
   }"

definition wallet_of :: "string \<Rightarrow> string option \<Rightarrow> (world, string) state" where
  "wallet_of owner wid = (case wid of None \<Rightarrow> ret []
     | Some i \<Rightarrow> do { r \<leftarrow> on_db (WalletAddress owner i); ret (case r of Inl _ \<Rightarrow> [] | Inr a \<Rightarrow> a) })"

definition AssignQueued :: "string \<Rightarrow> (world, unit) state" where
  "AssignQueued owner = do {
     r \<leftarrow> on_db (QueuedMinersForOwner owner);
     case r of
       Inl _ \<Rightarrow> ret ()
     | Inr ms \<Rightarrow> each ms (\<lambda>m. do {
         rc \<leftarrow> on_db (GetCurrency (mn_currency m));
         case rc of
           Inl _ \<Rightarrow> ret ()
         | Inr cur \<Rightarrow> do {
             addr \<leftarrow> wallet_of owner (mn_wallet m);
             ignore (Assign m cur addr)
           }
       })
   }"

subsection \<open>Control\<close>

text \<open>The average of the samples since the start of the open run; 0 on any error.\<close>

definition runAvgHashrate :: "string \<Rightarrow> (db, rat) state" where
  "runAvgHashrate minerID = do {
     r \<leftarrow> query (\<lambda>s. with_uuid s minerID (\<lambda>u.
       let from_ts = (case order_by s (\<lambda>r. - r_started r) (filter (open_run_of u) (runs s)) of
             [] \<Rightarrow> None | r # _ \<Rightarrow> Some (r_started r));
           xs = filter (\<lambda>x. s_miner x = u \<and> (case from_ts of None \<Rightarrow> True | Some t \<Rightarrow> t \<le> s_ts x)) (samples s)
       in Inr (if xs = [] then 0 else sum_list (map s_rate xs) / of_nat (length xs))));
     ret (case r of Inl _ \<Rightarrow> 0 | Inr a \<Rightarrow> a)
   }"

definition cancel_job :: "string \<Rightarrow> string \<Rightarrow> swarm_job \<Rightarrow> (world, unit) state" where
  "cancel_job minerID reason j = do {
     wc \<leftarrow> gets (\<lambda>w. map_of (conns w) (sj_worker j));
     js \<leftarrow> gets (\<lambda>w. map_of (jstates w) (sj_job j));
     modify (\<lambda>w. (set_live (sj_worker j) (\<lambda>l. l\<lparr>lw_jobs := adel (sj_job j) (lw_jobs l), lw_rate := 0\<rparr>) w)
       \<lparr>jstates := adel (sj_job j) (jstates w)\<rparr>);
     (case wc of None \<Rightarrow> ret () | Some c \<Rightarrow> ignore (send c (JobCancel (sj_job j))));
     ignore (on_db (SetSwarmJobStatus (sj_job j) ''ended''));
     avg \<leftarrow> on_db (runAvgHashrate minerID);
     ignore (on_db (CloseRun minerID reason avg
       (case js of None \<Rightarrow> 0 | Some js \<Rightarrow> js_tot_acc js) (case js of None \<Rightarrow> 0 | Some js \<Rightarrow> js_tot_rej js)))
   }"

definition CancelMiner :: "string \<Rightarrow> string \<Rightarrow> (world, unit) state" where
  "CancelMiner minerID reason = do {
     r \<leftarrow> on_db (ActiveJobsForMiner minerID);
     case r of Inl _ \<Rightarrow> ret () | Inr js \<Rightarrow> each js (cancel_job minerID reason)
   }"

definition AllocationUpdate :: "string \<Rightarrow> int \<Rightarrow> int \<Rightarrow> (world, unit) state" where
  "AllocationUpdate minerID cpuPct gpuPct = do {
     r \<leftarrow> on_db (ActiveJobsForMiner minerID);
     case r of
       Inl _ \<Rightarrow> ret ()
     | Inr js \<Rightarrow> each js (\<lambda>j. do {
         wc \<leftarrow> gets (\<lambda>w. map_of (conns w) (sj_worker j));
         case wc of None \<Rightarrow> ret () | Some c \<Rightarrow> ignore (send c (AllocationUpdateMsg (sj_job j) cpuPct gpuPct))
       })
   }"

definition Hub_RevokeWorker :: "string \<Rightarrow> (world, unit) state" where
  "Hub_RevokeWorker workerID = do {
     wc \<leftarrow> gets (\<lambda>w. map_of (conns w) workerID);
     case wc of None \<Rightarrow> ret ()
     | Some c \<Rightarrow> do { ignore (send c WorkerRevokeMsg); shut_conn c }
   }"

definition Online :: "string \<Rightarrow> world \<Rightarrow> bool" where
  "Online workerID w \<longleftrightarrow> map_of (conns w) workerID \<noteq> None"

subsection \<open>The websocket endpoint\<close>

text \<open>
  \<open>HandleWS\<close> in three parts: the handshake up to the assignment of queued miners, one turn of the
  read loop, and the deferred calls when the loop ends. \<open>accept\<close> is the outcome of the upgrade.
\<close>

definition bearer_token :: "string \<Rightarrow> string" where
  "bearer_token header = TrimSpace (trim_prefix ''Bearer '' header)"

definition ws_open :: "runtime \<Rightarrow> string \<Rightarrow> bool \<Rightarrow> nat \<Rightarrow> (world, (string \<times> string) option) state" where
  "ws_open rt header accept c = (let token = bearer_token header in
     if token = [] then ret None
     else do {
       now \<leftarrow> gets wall;
       r \<leftarrow> on_db (AuthenticateWorker rt now token);
       case r of
         Inl _ \<Rightarrow> ret None
       | Inr (workerID, owner, kind) \<Rightarrow>
           if \<not> accept then ret None
           else do {
             register workerID owner kind c;
             ignore (on_db (SetWorkerStatus workerID ''connected''));
             publish owner ''worker_joined'' [(''id'', EStr workerID), (''kind'', EStr kind)];
             AssignQueued owner;
             ret (Some (workerID, owner))
           }
     })"

definition ws_message :: "(int \<Rightarrow> string) \<Rightarrow> string \<Rightarrow> string \<Rightarrow> inbound \<Rightarrow> (world, unit) state" where
  "ws_message stamp workerID owner m = do { touch workerID; handleMessage stamp workerID owner m }"

definition ws_end :: "string \<Rightarrow> nat \<Rightarrow> (world, unit) state" where
  "ws_end workerID c = do { shut_conn c; unregister workerID }"

text \<open>A tick of the supervising goroutine: it closes a silent connection that does not answer a ping.
  The result says whether the goroutine ends.\<close>

definition supervise :: "string \<Rightarrow> nat \<Rightarrow> bool \<Rightarrow> (world, bool) state" where
  "supervise workerID c pong = do {
     lw \<leftarrow> gets (\<lambda>w. map_of (live w) workerID);
     now \<leftarrow> gets wall;
     case lw of
       None \<Rightarrow> ret True
     | Some l \<Rightarrow>
         if now - lw_last l \<le> HeartbeatWindow then ret False
         else if pong then ret False
         else do { shut_conn c; ret True }
   }"

subsection \<open>Live statistics\<close>

record live_view =
  lv_id :: string
  lv_name :: string
  lv_kind :: string
  lv_status :: string
  lv_rate :: rat
  lv_currency :: string

record live_stats =
  ls_workers :: "live_view list"
  ls_online :: nat
  ls_total :: nat
  ls_rate :: rat

definition worker_view :: "(string \<times> live_worker) list \<Rightarrow> worker \<Rightarrow> live_view" where
  "worker_view lives k = (case map_of lives (wk_id k) of
       None \<Rightarrow> \<lparr>lv_id = wk_id k, lv_name = wk_name k, lv_kind = wk_kind k, lv_status = wk_status k,
                lv_rate = 0, lv_currency = []\<rparr>
     | Some l \<Rightarrow> \<lparr>lv_id = wk_id k, lv_name = wk_name k, lv_kind = wk_kind k,
                lv_status = (if wk_status k \<noteq> ''revoked'' then (if lw_jobs l = [] then ''connected'' else ''mining'')
                             else wk_status k),
                lv_rate = lw_rate l, lv_currency = []\<rparr>)"

definition counts_online :: "live_view \<Rightarrow> bool" where
  "counts_online v \<longleftrightarrow> lv_status v \<in> {''connected'', ''mining'', ''assigned''}"

definition LiveStats :: "string \<Rightarrow> (world, live_stats) state" where
  "LiveStats owner = do {
     r \<leftarrow> on_db (ListWorkers owner);
     lives \<leftarrow> gets live;
     let ks = (case r of Inl _ \<Rightarrow> [] | Inr ks \<Rightarrow> ks);
     let vs = map (worker_view lives) ks;
     ret \<lparr>ls_workers = vs, ls_online = length (filter counts_online vs), ls_total = length ks,
          ls_rate = sum_list (map lv_rate vs)\<rparr>
   }"

end
