(* ===== verification/HubInv.thy ===== *)
theory HubInv
  imports Hub Frames
begin

text \<open>
  The invariant of the hub. \<open>hub_step\<close> is one step of the running program as the hub sees it: a worker
  connects, sends a message or disconnects, the API assigns, cancels or reallocates a miner or revokes a
  worker, a supervisor ticks, time passes, or some other call of the store runs. In every state that
  such steps reach, the map of connections and the map of live workers have the same keys, the log of
  a worker has at most 20 lines, and every job pairs a miner with a worker of the same owner.
\<close>

subsection \<open>Running the hub's building blocks\<close>

lemma select_where: "[f x. x \<leftarrow> xs, p x] = map f (filter p xs)"
  by (induction xs) auto

lemma select_where2: "[f x. x \<leftarrow> xs, p x, q x] = map f (filter (\<lambda>x. p x \<and> q x) xs)"
  by (induction xs) auto

lemma select_where3: "[f x. x \<leftarrow> xs, p x, q x, r x] = map f (filter (\<lambda>x. p x \<and> q x \<and> r x) xs)"
  by (induction xs) auto

lemma run_on_db [simp]:
  "run_state (on_db m) w = (fst (run_state m (wdb w)), w\<lparr>wdb := snd (run_state m (wdb w))\<rparr>)"
  by (simp add: run_zoom split: prod.splits)

lemma run_ignore [simp]: "run_state (ignore m) w = ((), snd (run_state m w))"
  by (simp add: ignore_def split: prod.splits)

lemma run_publish [simp]: "run_state (publish o1 ty dat) w =
  ((), w\<lparr>evb := Publish o1 \<lparr>ev_type = ty, ev_data = dat\<rparr> (evb w)\<rparr>)"
  by (simp add: publish_def)

lemma run_shut_conn [simp]: "run_state (shut_conn c) w = ((), w\<lparr>shut := c # shut w\<rparr>)"
  by (simp add: shut_conn_def)

lemma run_send: "run_state (send c msg) w = (if c \<in> set (shut w) \<or> net_fail w (writes w)
     then (False, w\<lparr>writes := Suc (writes w)\<rparr>)
     else (True, w\<lparr>writes := Suc (writes w), outbox := outbox w @ [(c, msg)]\<rparr>))"
  by (simp add: send_def)

lemma keeps_ignore [keeps_intros]: "keeps P m \<Longrightarrow> keeps P (ignore m)"
  by (simp add: keeps_def)

lemma relates_ignore [relates_intros]: "relates R m \<Longrightarrow> relates R (ignore m)"
  by (simp add: relates_def)

subsection \<open>Keys\<close>

interpretation worker_log: bounded_tail push_log 20
proof
  fix x and l :: "string list"
  show "push_log x l = drop (length l + 1 - 20) (l @ [x])"
  proof (cases "length (l @ [x]) > 20")
    case True
    then show ?thesis by (simp add: push_log_def Let_def)
  next
    case False
    then show ?thesis by (simp add: push_log_def Let_def)
  qed
qed

definition hub_ok :: "world \<Rightarrow> bool" where
  "hub_ok w \<longleftrightarrow> map fst (conns w) = map fst (live w) \<and> distinct (map fst (live w)) \<and>
     (\<forall>i l. map_of (live w) i = Some l \<longrightarrow> lw_id l = i) \<and> (\<forall>i. length (WorkerLogs i w) \<le> 20)"

lemma hub_ok_wdb [simp]: "hub_ok (w\<lparr>wdb := d\<rparr>) = hub_ok w"
  by (simp add: hub_ok_def WorkerLogs_def)

lemma hub_ok_frame [simp]:
  "hub_ok (w\<lparr>evb := b\<rparr>) = hub_ok w" "hub_ok (w\<lparr>outbox := ob\<rparr>) = hub_ok w" "hub_ok (w\<lparr>shut := sh\<rparr>) = hub_ok w"
  "hub_ok (w\<lparr>writes := n\<rparr>) = hub_ok w" "hub_ok (w\<lparr>jstates := js\<rparr>) = hub_ok w" "hub_ok (w\<lparr>wall := t\<rparr>) = hub_ok w"
  by (simp_all add: hub_ok_def WorkerLogs_def)

lemma map_fst_aput_in: "k \<in> set (map fst m) \<Longrightarrow> map fst (aput k v m) = map fst m"
  by (simp add: AList.update_keys)

lemma set_live_keys [simp]: "map fst (live (set_live i g w)) = map fst (live w)"
  by (auto simp: set_live_def map_fst_aput_in map_of_eq_Some_iff dest: map_of_SomeD split: option.splits)
    (metis fst_conv image_eqI list.set_map map_fst_aput_in map_of_SomeD)

lemma set_live_other [simp]:
  "conns (set_live i g w) = conns w" "logs (set_live i g w) = logs w" "wdb (set_live i g w) = wdb w"
  "shut (set_live i g w) = shut w" "outbox (set_live i g w) = outbox w" "jstates (set_live i g w) = jstates w"
  "evb (set_live i g w) = evb w"
  by (simp_all add: set_live_def split: option.splits)

lemma map_of_set_live: "map_of (live (set_live i g w)) = (case map_of (live w) i of None \<Rightarrow> map_of (live w)
  | Some l \<Rightarrow> (map_of (live w))(i \<mapsto> g l))"
  by (simp add: set_live_def split: option.splits)

lemma hub_ok_set_live: "hub_ok w \<Longrightarrow> (\<And>l. lw_id (g l) = lw_id l) \<Longrightarrow> hub_ok (set_live i g w)"
  by (auto simp: hub_ok_def WorkerLogs_def map_of_set_live split: option.splits if_splits)

lemma keeps_on_db [keeps_intros]: "keeps hub_ok (on_db m)"
  by (simp add: keeps_def)

lemma hub_ok_publish [keeps_intros]: "keeps hub_ok (publish a b c)"
  by (simp add: keeps_def)

lemma hub_ok_shut [keeps_intros]: "keeps hub_ok (shut_conn c)"
  by (simp add: keeps_def)

lemma hub_ok_send [keeps_intros]: "keeps hub_ok (send c m)"
  by (simp add: keeps_def run_send)

lemma keys_aput: "map fst a = map fst b \<Longrightarrow> map fst (aput k v a) = map fst (aput k u b)"
  unfolding AList.update_keys by metis

lemma keys_adel: "map fst a = map fst b \<Longrightarrow> map fst (adel k a) = map fst (adel k b)"
  unfolding AList.delete_keys by metis

lemma hub_ok_register [keeps_intros]: "keeps hub_ok (register a b c d)"
  unfolding register_def
  by (intro keeps_intros) (auto simp: hub_ok_def WorkerLogs_def intro: keys_aput)

lemma hub_ok_unregister [keeps_intros]: "keeps hub_ok (unregister a)"
  unfolding unregister_def
  by (intro keeps_intros) (auto simp: hub_ok_def WorkerLogs_def intro: keys_adel split: if_splits)

lemma hub_ok_touch [keeps_intros]: "keeps hub_ok (touch a)"
  unfolding touch_def by (intro keeps_intros hub_ok_set_live) simp_all

lemma hub_ok_handleAck [keeps_intros]: "keeps hub_ok (handleAck a b c d e)"
  unfolding handleAck_def by (intro keeps_intros) (auto intro: hub_ok_set_live)

lemma hub_ok_handleMetrics [keeps_intros]: "keeps hub_ok (handleMetrics a b c d e f)"
  unfolding handleMetrics_def by (intro keeps_intros) (auto intro: hub_ok_set_live)

lemma hub_ok_appendLog [keeps_intros]: "keeps hub_ok (appendLog f a b c)"
proof (rule keepsI)
  fix w assume ok: "hub_ok w"
  have "length (WorkerLogs i w) \<le> 20" for i using ok by (simp add: hub_ok_def)
  then have "length (push_log x (WorkerLogs i w)) \<le> 20" for x i by (rule worker_log.push_length)
  with ok show "hub_ok (snd (run_state (appendLog f a b c) w))"
    by (auto simp: appendLog_def hub_ok_def WorkerLogs_def)
qed

lemma hub_ok_handleMessage [keeps_intros]: "keeps hub_ok (handleMessage f a b m)"
  unfolding handleMessage_def by (cases m) (auto intro!: keeps_intros split: option.splits)

lemma hub_ok_pick [keeps_intros]: "keeps hub_ok (pick_target m xs b)"
  by (induction xs arbitrary: b) (auto intro!: keeps_intros)

lemma hub_ok_Assign [keeps_intros]: "keeps hub_ok (Assign m cur addr)"
  unfolding Assign_def by (intro keeps_intros)

lemma hub_ok_AssignQueued [keeps_intros]: "keeps hub_ok (AssignQueued a)"
  unfolding AssignQueued_def wallet_of_def by (intro keeps_intros)

lemma hub_ok_CancelMiner [keeps_intros]: "keeps hub_ok (CancelMiner a b)"
  unfolding CancelMiner_def cancel_job_def
  by (intro keeps_intros) (auto intro: hub_ok_set_live)

lemma hub_ok_AllocationUpdate [keeps_intros]: "keeps hub_ok (AllocationUpdate a b c)"
  unfolding AllocationUpdate_def by (intro keeps_intros)

lemma hub_ok_RevokeWorker [keeps_intros]: "keeps hub_ok (Hub_RevokeWorker a)"
  unfolding Hub_RevokeWorker_def by (intro keeps_intros)

lemma hub_ok_ws_open [keeps_intros]: "keeps hub_ok (ws_open rt h acc c)"
  unfolding ws_open_def by (intro keeps_intros)

lemma hub_ok_ws_message [keeps_intros]: "keeps hub_ok (ws_message f a b m)"
  unfolding ws_message_def by (intro keeps_intros)

lemma hub_ok_ws_end [keeps_intros]: "keeps hub_ok (ws_end a c)"
  unfolding ws_end_def by (intro keeps_intros)

lemma hub_ok_supervise [keeps_intros]: "keeps hub_ok (supervise a c p)"
  unfolding supervise_def by (intro keeps_intros)

subsection \<open>Owners\<close>

text \<open>
  Who owns what, by keys alone: most statements only ever remove such pairs or keep them
  (\<open>shrinks\<close>). Owners are the subjects of tokens, which \<open>auth.Parse\<close> never lets be empty; \<open>minerOwner\<close>
  uses the empty string for a failed query.
\<close>

definition miner_owners :: "db \<Rightarrow> (string \<times> string) set" where
  "miner_owners s = (\<lambda>m. (m_id m, m_owner m)) ` set (miners s)"

definition worker_owners :: "db \<Rightarrow> (string \<times> string) set" where
  "worker_owners s = (\<lambda>k. (k_id k, k_owner k)) ` set (workers s)"

definition job_pairs :: "db \<Rightarrow> (string \<times> string) set" where
  "job_pairs s = (\<lambda>j. (j_miner j, j_worker j)) ` set (jobs s)"

definition shrinks :: "db \<Rightarrow> db \<Rightarrow> bool" where
  "shrinks s t \<longleftrightarrow> miner_owners t \<subseteq> miner_owners s \<and> worker_owners t \<subseteq> worker_owners s \<and>
     job_pairs t \<subseteq> job_pairs s \<and> c_owner ` set (codes t) \<subseteq> c_owner ` set (codes s)"

definition signed_in :: "db \<Rightarrow> bool" where
  "signed_in s \<longleftrightarrow> [] \<notin> c_owner ` set (codes s) \<and> [] \<notin> snd ` worker_owners s"

definition jobs_owned :: "db \<Rightarrow> bool" where
  "jobs_owned s \<longleftrightarrow> (\<forall>(m, k) \<in> job_pairs s. \<forall>a b. (m, a) \<in> miner_owners s \<longrightarrow> (k, b) \<in> worker_owners s \<longrightarrow> a = b)"

definition tenant_ok :: "db \<Rightarrow> bool" where
  "tenant_ok s \<longleftrightarrow> db_ok s \<and> signed_in s \<and> jobs_owned s"

lemmas owner_defs = miner_owners_def worker_owners_def job_pairs_def

lemma shrinks_reflp [simp, relates_intros]: "reflp shrinks"
  by (simp add: reflp_def shrinks_def)

lemma shrinks_transp [simp, relates_intros]: "transp shrinks"
  unfolding shrinks_def by (intro transpI conjI; elim conjE; erule (1) order_trans)

lemma shrinks_tick [simp]: "shrinks s (t\<lparr>tick := n\<rparr>) = shrinks s t"
  by (simp add: shrinks_def owner_defs)

lemma shrinks_refl [simp]: "shrinks s s"
  by (simp add: shrinks_def)

lemma shrinks_stmt [relates_intros]:
  "(\<And>s a t. f s = Inr (a, t) \<Longrightarrow> shrinks s t) \<Longrightarrow> relates shrinks (sql f)"
  by (rule relates_sql) auto

lemma shrinks_query [relates_intros]: "relates shrinks (query f)"
  by (rule relates_query) simp

lemma shrinks_affected [relates_intros]: "relates shrinks m \<Longrightarrow> relates shrinks (affected m)"
  unfolding affected_def by (intro relates_intros) auto

lemma shrinks_tenant: "shrinks s t \<Longrightarrow> db_ok t \<Longrightarrow> tenant_ok s \<Longrightarrow> tenant_ok t"
  unfolding tenant_ok_def signed_in_def jobs_owned_def shrinks_def by (elim conjE, intro conjI) blast+

lemma tenant_ok_db: "tenant_ok s \<Longrightarrow> db_ok s"
  by (simp add: tenant_ok_def)

lemma shrinks_frame:
  assumes "relates (only T) m" and "Miners \<notin> T" "Workers \<notin> T" "Jobs \<notin> T" "CodesT \<notin> T"
  shows "relates shrinks m"
proof (rule relatesI)
  fix s
  have "only T s (snd (run_state m s))" by (rule relatesD [OF assms(1)])
  then show "shrinks s (snd (run_state m s))"
    using assms(2-) by (simp add: shrinks_def owner_defs only_def)
qed

lemma shrinks_miners: "(\<And>m. m \<in> set ms \<Longrightarrow> (m_id m, m_owner m) \<in> miner_owners s) \<Longrightarrow> shrinks s (s\<lparr>miners := ms\<rparr>)"
  by (auto simp: shrinks_def owner_defs)

lemma shrinks_upd_miners: "(\<And>m. m_id (g m) = m_id m \<and> m_owner (g m) = m_owner m) \<Longrightarrow>
  shrinks s (s\<lparr>miners := upd_where p g (miners s)\<rparr>)"
  by (rule shrinks_miners) (auto simp: owner_defs set_upd_where)

lemma shrinks_upd_workers: "(\<And>m. k_id (g m) = k_id m \<and> k_owner (g m) = k_owner m) \<Longrightarrow>
  shrinks s (s\<lparr>workers := upd_where p g (workers s)\<rparr>)"
  by (auto simp: shrinks_def owner_defs set_upd_where)

lemma shrinks_upd_jobs: "(\<And>m. j_miner (g m) = j_miner m \<and> j_worker (g m) = j_worker m) \<Longrightarrow>
  shrinks s (s\<lparr>jobs := upd_where p g (jobs s)\<rparr>)"
  by (auto simp: shrinks_def owner_defs set_upd_where)

lemma shrinks_update_miner:
  assumes "update_miner o1 u g bad s = Inr (x, t)" and "\<And>m. m_id (g s m) = m_id m \<and> m_owner (g s m) = m_owner m"
  shows "shrinks s t"
  using assms(1) unfolding update_miner_def
  by (auto simp: stmt_simps assms(2) split: option.splits prod.splits intro!: shrinks_upd_miners)

lemma shrinks_PatchMiner: "relates shrinks (PatchMiner a b c d e)"
  unfolding PatchMiner_def
  by (intro relates_intros)
    (elim with_uuid_ex [elim_format] with_uuid_opt_ex [elim_format] exE, erule shrinks_update_miner,
      simp add: patch_row_def)

lemma shrinks_SetMinerStatus: "relates shrinks (SetMinerStatus a b)"
  unfolding SetMinerStatus_def
  by (intro relates_intros) (auto simp: with_uuid_Inr intro: shrinks_upd_miners)

lemma shrinks_SetMinerAllocation: "relates shrinks (SetMinerAllocation a b c d)"
  unfolding SetMinerAllocation_def
  by (intro relates_intros) (auto simp: with_uuid_Inr require_Inr elim!: shrinks_update_miner)

lemma shrinks_DeleteMiner: "relates shrinks (DeleteMiner a b)"
  unfolding DeleteMiner_def Let_def
  by (intro relates_intros) (auto simp: with_uuid_Inr drop_miners_def Let_def shrinks_def owner_defs)

lemma shrinks_SetWorkerStatus: "relates shrinks (SetWorkerStatus a b)"
  unfolding SetWorkerStatus_def
  by (intro relates_intros) (auto simp: with_uuid_Inr intro: shrinks_upd_workers)

lemma shrinks_UpdateWorkerCaps: "relates shrinks (UpdateWorkerCaps a b)"
  unfolding UpdateWorkerCaps_def
  by (intro relates_intros) (auto simp: with_uuid_Inr intro: shrinks_upd_workers)

lemma shrinks_RevokeWorker: "relates shrinks (RevokeWorker a b)"
  unfolding RevokeWorker_def revoke_worker_def end_jobs_of_worker_def Let_def
  by (intro relates_intros) (auto simp: with_uuid_Inr intro: shrinks_upd_workers shrinks_upd_jobs)

lemma shrinks_DeleteWorker: "relates shrinks (DeleteWorker a b)"
  unfolding DeleteWorker_def Let_def
  by (intro relates_intros) (auto simp: with_uuid_Inr drop_workers_def Let_def shrinks_def owner_defs set_upd_where)

lemma shrinks_SetSwarmJobStatus: "relates shrinks (SetSwarmJobStatus a b)"
  unfolding SetSwarmJobStatus_def
  by (intro relates_intros) (auto simp: with_uuid_Inr intro: shrinks_upd_jobs)

lemma shrinks_Codes_Revoke: "relates shrinks (Codes_Revoke a b)"
  unfolding Codes_Revoke_def delete_code_def Let_def
  by (intro relates_intros) (auto simp: with_uuid_Inr shrinks_def owner_defs)

lemmas shrinks_writes = shrinks_PatchMiner shrinks_SetMinerStatus shrinks_SetMinerAllocation shrinks_DeleteMiner
  shrinks_SetWorkerStatus shrinks_UpdateWorkerCaps shrinks_RevokeWorker shrinks_DeleteWorker
  shrinks_SetSwarmJobStatus shrinks_Codes_Revoke

text \<open>
  The other calls of the store: a new miner has a key no job refers to; a new code or worker is of a
  signed-in owner.
\<close>

lemma jobs_owned_more:
  assumes "jobs_owned s" and "db_ok s" and "job_pairs t \<subseteq> job_pairs s"
    and "\<And>m a. (m, a) \<in> miner_owners t \<Longrightarrow> (m, a) \<in> miner_owners s \<or> m \<notin> m_id ` set (miners s)"
    and "\<And>k a. (k, a) \<in> worker_owners t \<Longrightarrow> (k, a) \<in> worker_owners s \<or> k \<notin> k_id ` set (workers s)"
  shows "jobs_owned t"
proof -
  have "m \<in> m_id ` set (miners s) \<and> k \<in> k_id ` set (workers s)" if "(m, k) \<in> job_pairs s" for m k
    using that db_ok_refs(6,7) [OF assms(2)] by (auto simp: owner_defs)
  then show ?thesis using assms(1,3-) unfolding jobs_owned_def by blast
qed

lemma insert_miner_new: "insert_miner p s = Inr (x, t) \<Longrightarrow>
  \<exists>r. miners t = miners s @ [r] \<and> m_id r \<notin> m_id ` set (miners s)"
  by (auto simp: insert_miner_def stmt_simps split: option.splits)

lemma CreateMiner_new: "miners (snd (run_state (CreateMiner p) s)) = miners s \<or>
  (\<exists>r. miners (snd (run_state (CreateMiner p) s)) = miners s @ [r] \<and> m_id r \<notin> m_id ` set (miners s))"
  using insert_miner_new [of p s]
  by (auto simp: CreateMiner_def GetMiner_def run_simps split: prod.splits sum.splits)

lemma CreateMiner_owners:
  assumes "(m, a) \<in> miner_owners (snd (run_state (CreateMiner p) s))"
  shows "(m, a) \<in> miner_owners s \<or> m \<notin> m_id ` set (miners s)"
  using CreateMiner_new [of p s]
proof
  assume "miners (snd (run_state (CreateMiner p) s)) = miners s"
  with assms show ?thesis by (simp add: miner_owners_def)
next
  assume "\<exists>r. miners (snd (run_state (CreateMiner p) s)) = miners s @ [r] \<and> m_id r \<notin> m_id ` set (miners s)"
  then obtain r where r: "miners (snd (run_state (CreateMiner p) s)) = miners s @ [r]" "m_id r \<notin> m_id ` set (miners s)"
    by blast
  from assms have "(m, a) \<in> insert (m_id r, m_owner r) (miner_owners s)"
    unfolding miner_owners_def r(1) by simp
  with r(2) show ?thesis by (metis insertE prod.inject)
qed

lemma enroll_tx_owners:
  assumes "(m, a) \<in> worker_owners (snd (run_state (enroll_tx c n hw h) s))"
  shows "(m, a) \<in> worker_owners s \<or> m \<notin> k_id ` set (workers s)"
proof (cases "run_state (enroll_tx c n hw h) s")
  case (Pair r t)
  show ?thesis
  proof (cases r)
    case (Inl e)
    then obtain n where "t = s\<lparr>tick := n\<rparr>" using transaction_Inl Pair by (fastforce simp: enroll_tx_def)
    with assms Pair show ?thesis by (simp add: owner_defs)
  next
    case (Inr w)
    have "workers t = workers s @ [enrolled_row (db_now s) w (c_owner c) n hw h]"
      using arg_cong [OF enroll_tx_Inr(1) [OF Pair [unfolded Inr]], of workers] by simp
    then show ?thesis
      using assms Pair enroll_tx_Inr(2) [OF Pair [unfolded Inr]] by (auto simp: owner_defs enrolled_row_def)
  qed
qed

lemma find_code_runs: "\<exists>k. snd (run_state (find_code rt x) s) = s\<lparr>tick := k\<rparr>"
  by (auto simp: find_code_def code_candidates_def run_simps intro: exI [of _ "Suc (tick s)"])

lemma enroll_match_runs:
  obtains (reads) k where "snd (run_state (enroll_match rt n hw c) s) = s\<lparr>tick := k\<rparr>"
  | (tx) h where "snd (run_state (enroll_match rt n hw c) s) = snd (run_state (enroll_tx c n hw h) s)"
proof (cases "NewWorkerToken rt (rand_bytes rt (tick s) 32)")
  case (Inl e)
  then have "snd (run_state (enroll_match rt n hw c) s) = s\<lparr>tick := tick s\<rparr>" by (simp add: enroll_match_def)
  then show thesis by (rule reads)
next
  case (Inr x)
  then have "snd (run_state (enroll_match rt n hw c) s) = snd (run_state (enroll_tx c n hw (snd x)) s)"
    by (simp add: enroll_match_def run_and_then split: prod.splits sum.splits)
  then show thesis by (rule tx)
qed

lemma Enroll_runs:
  obtains (reads) k where "snd (run_state (Enroll rt code n hw) s) = s\<lparr>tick := k\<rparr>"
  | (tx) c h hw' k where "snd (run_state (Enroll rt code n hw) s) = snd (run_state (enroll_tx c n hw' h) (s\<lparr>tick := k\<rparr>))"
proof -
  let ?x = "NormalizeCode rt code"
  obtain r u where fc: "run_state (find_code rt ?x) s = (r, u)" by fastforce
  then obtain k where u: "u = s\<lparr>tick := k\<rparr>" using find_code_runs [of rt ?x s] by auto
  have run: "snd (run_state (Enroll rt code n hw) s) = (if length ?x \<noteq> 10 then s\<lparr>tick := tick s\<rparr> else
    case r of Inl e \<Rightarrow> u | Inr c \<Rightarrow> snd (run_state (enroll_match rt n (enroll_kind hw) c) u))"
    by (simp add: Enroll_def Let_def run_and_then fc split: sum.splits)
  consider "length ?x \<noteq> 10" | e where "length ?x = 10" "r = Inl e" | c where "length ?x = 10" "r = Inr c"
    by (cases r) auto
  then show thesis
  proof cases
    case 1
    with run have "snd (run_state (Enroll rt code n hw) s) = s\<lparr>tick := tick s\<rparr>" by simp
    then show thesis by (rule reads)
  next
    case 2
    with run u have "snd (run_state (Enroll rt code n hw) s) = s\<lparr>tick := k\<rparr>" by simp
    then show thesis by (rule reads)
  next
    case (3 c)
    with run have "snd (run_state (Enroll rt code n hw) s) = snd (run_state (enroll_match rt n (enroll_kind hw) c) u)"
      by simp
    note run3 = this
    show thesis
    proof (cases rule: enroll_match_runs [of rt n "enroll_kind hw" c u])
      case (reads k')
      with run3 u have "snd (run_state (Enroll rt code n hw) s) = s\<lparr>tick := k'\<rparr>" by simp
      then show thesis by (rule that(1))
    next
      case (tx h)
      with run3 show thesis unfolding u by (intro that(2)) (rule trans)
    qed
  qed
qed

lemma Enroll_owners:
  assumes "(m, a) \<in> worker_owners (snd (run_state (Enroll rt code n hw) s))"
  shows "(m, a) \<in> worker_owners s \<or> m \<notin> k_id ` set (workers s)"
proof (rule Enroll_runs [of rt code n hw s])
  fix k assume "snd (run_state (Enroll rt code n hw) s) = s\<lparr>tick := k\<rparr>"
  with assms show ?thesis by (simp add: owner_defs)
next
  fix c h hw' k assume "snd (run_state (Enroll rt code n hw) s) = snd (run_state (enroll_tx c n hw' h) (s\<lparr>tick := k\<rparr>))"
  with assms enroll_tx_owners [of m a c n hw' h "s\<lparr>tick := k\<rparr>"] show ?thesis by (simp add: owner_defs)
qed

lemma CreateSwarmJob_owners:
  "miner_owners (snd (run_state (CreateSwarmJob i k) s)) = miner_owners s"
  "worker_owners (snd (run_state (CreateSwarmJob i k) s)) = worker_owners s"
  using relatesD [OF frame_CreateSwarmJob, of s i k] by (simp_all add: only_def owner_defs)

lemma db_call_tenant:
  assumes "db_call d s t" and "tenant_ok s" and "job_pairs t \<subseteq> job_pairs s" and "signed_in t"
  shows "tenant_ok t"
proof -
  have ok: "db_ok s" "db_ok t" using assms(1,2) db_call_ok by (auto simp: tenant_ok_def)
  have own: "jobs_owned s" using assms(2) by (simp add: tenant_ok_def)
  have *: "shrinks s t \<or> ((\<forall>m a. (m, a) \<in> miner_owners t \<longrightarrow> (m, a) \<in> miner_owners s \<or> m \<notin> m_id ` set (miners s)) \<and>
     (\<forall>k a. (k, a) \<in> worker_owners t \<longrightarrow> (k, a) \<in> worker_owners s \<or> k \<notin> k_id ` set (workers s)))"
    using assms(1)
  proof (induction rule: db_call.induct)
    case (create_miner d s p)
    then show ?case using CreateMiner_owners relatesD [OF frame_CreateMiner, of s p] by (auto simp: only_def worker_owners_def)
  next
    case (create_code d s rt o1)
    then show ?case using relatesD [OF frame_Codes_Create, of s rt o1] by (auto simp: only_def owner_defs)
  next
    case (enroll d s rt code n hw)
    then show ?case using Enroll_owners relatesD [OF frame_Enroll, of s rt code n hw] by (auto simp: only_def miner_owners_def)
  next
    case (enroll_late d s cr n hw hash)
    then show ?case using enroll_tx_owners relatesD [OF frame_enroll_tx, of s cr n hw hash] by (auto simp: only_def miner_owners_def)
  next
    case (create_job d s i k)
    then show ?case by (simp add: CreateSwarmJob_owners)
  qed (simp_all add: shrinks_writes [THEN relatesD] frames [THEN shrinks_frame, THEN relatesD])
  then show ?thesis
  proof
    assume "shrinks s t"
    then show ?thesis using ok(2) assms(2) by (rule shrinks_tenant)
  next
    assume "(\<forall>m a. (m, a) \<in> miner_owners t \<longrightarrow> (m, a) \<in> miner_owners s \<or> m \<notin> m_id ` set (miners s)) \<and>
     (\<forall>k a. (k, a) \<in> worker_owners t \<longrightarrow> (k, a) \<in> worker_owners s \<or> k \<notin> k_id ` set (workers s))"
    then have "jobs_owned t" using jobs_owned_more [OF own ok(1) assms(3)] by blast
    then show ?thesis using ok(2) assms(4) by (simp add: tenant_ok_def)
  qed
qed

subsection \<open>Assignment pairs a miner with a worker of the same owner\<close>

text \<open>The pair is right: whatever rows the two ids denote, they have the same owner.\<close>

definition matched :: "string \<Rightarrow> string \<Rightarrow> db \<Rightarrow> bool" where
  "matched mid wid d \<longleftrightarrow> (\<forall>u v a b. uuid_of (env d) mid = Some u \<longrightarrow> uuid_of (env d) wid = Some v \<longrightarrow>
     (u, a) \<in> miner_owners d \<longrightarrow> (v, b) \<in> worker_owners d \<longrightarrow> a = b)"

lemma owners_tick [simp]:
  "miner_owners (s\<lparr>tick := n\<rparr>) = miner_owners s" "worker_owners (s\<lparr>tick := n\<rparr>) = worker_owners s"
  "matched a b (s\<lparr>tick := n\<rparr>) = matched a b s" "tenant_ok (s\<lparr>tick := n\<rparr>) = tenant_ok s"
  by (simp_all add: owner_defs matched_def tenant_ok_def signed_in_def jobs_owned_def)

lemma miner_owner_unique: "db_ok s \<Longrightarrow> (u, a) \<in> miner_owners s \<Longrightarrow> (u, b) \<in> miner_owners s \<Longrightarrow> a = b"
  unfolding miner_owners_def by clarify (metis db_ok_keys(5) distinct_map_eqD)

lemma worker_owner_unique: "db_ok s \<Longrightarrow> (u, a) \<in> worker_owners s \<Longrightarrow> (u, b) \<in> worker_owners s \<Longrightarrow> a = b"
  unfolding worker_owners_def by clarify (metis db_ok_keys(7) distinct_map_eqD)

lemma one_row_in: "one_row rs = Inr r \<Longrightarrow> r \<in> set rs"
  by (auto simp: one_row_Inr)

lemma minerOwner_tick [simp]: "snd (run_state (minerOwner mid) d) = bump d"
  by (simp add: minerOwner_def run_simps)

lemma minerOwner_row:
  assumes "fst (run_state (minerOwner mid) d) = o'"
  shows "o' = [] \<or> (\<exists>u. uuid_of (env d) mid = Some u \<and> (u, o') \<in> miner_owners d)"
  using assms
  by (auto simp: minerOwner_def run_simps with_uuid_Inr miner_owners_def image_iff
      split: sum.splits if_splits dest!: one_row_in)

lemma GetWorker_tick [simp]: "snd (run_state (GetWorker o' wid) d) = bump d"
  by (simp add: GetWorker_def run_simps)

lemma GetWorker_row:
  assumes "fst (run_state (GetWorker o' wid) d) = Inr k"
  obtains r where "r \<in> set (workers d)" "k_owner r = o'" "uuid_of (env d) wid = Some (k_id r)" "k = scanWorker r"
proof -
  from assms have "run_state (GetWorker o' wid) d = (Inr k, bump d)" by (metis GetWorker_tick prod.collapse)
  then show thesis using that by (auto simp: GetWorker_def inr_simps with_uuid_Inr dest!: one_row_in)
qed

lemma matchedI:
  assumes "tenant_ok d" and "o' = [] \<or> (\<exists>u. uuid_of (env d) mid = Some u \<and> (u, o') \<in> miner_owners d)"
    and "uuid_of (env d) wid = Some v" "(v, o') \<in> worker_owners d"
  shows "matched mid wid d"
proof -
  have ok: "db_ok d" and "signed_in d" using assms(1) by (simp_all add: tenant_ok_def)
  then have "o' \<noteq> []" using assms(4) by (force simp: signed_in_def image_iff)
  then obtain u where u: "uuid_of (env d) mid = Some u" "(u, o') \<in> miner_owners d" using assms(2) by blast
  show ?thesis
    unfolding matched_def using u assms(3,4) miner_owner_unique [OF ok] worker_owner_unique [OF ok] by fastforce
qed

lemma CreateSwarmJob_tenant: "tenant_ok d \<Longrightarrow> matched mid wid d \<Longrightarrow> tenant_ok (snd (run_state (CreateSwarmJob mid wid) d))"
proof -
  assume ok: "tenant_ok d" and m: "matched mid wid d"
  let ?t = "snd (run_state (CreateSwarmJob mid wid) d)"
  have "db_ok ?t" using ok by (intro keepsD [OF ok_CreateSwarmJob]) (simp add: tenant_ok_def)
  moreover have "codes ?t = codes d" using relatesD [OF frame_CreateSwarmJob] by (simp add: only_def)
  then have "signed_in ?t" using ok by (simp add: tenant_ok_def signed_in_def CreateSwarmJob_owners)
  moreover have "job_pairs ?t \<subseteq> job_pairs d \<union> {(u, v). uuid_of (env d) mid = Some u \<and> uuid_of (env d) wid = Some v}"
    by (auto simp: CreateSwarmJob_def run_simps job_pairs_def stmt_simps split: sum.splits)
  then have "jobs_owned ?t"
    using ok m unfolding tenant_ok_def jobs_owned_def matched_def CreateSwarmJob_owners by blast
  ultimately show ?thesis by (simp add: tenant_ok_def)
qed

subsection \<open>Every operation of the hub keeps the pairing\<close>

definition owned :: "world \<Rightarrow> bool" where
  "owned w \<longleftrightarrow> tenant_ok (wdb w)"

lemma owned_frame [simp]: "owned (w\<lparr>evb := b\<rparr>) = owned w" "owned (w\<lparr>outbox := ob\<rparr>) = owned w"
  "owned (w\<lparr>shut := sh\<rparr>) = owned w" "owned (w\<lparr>writes := n\<rparr>) = owned w" "owned (w\<lparr>jstates := js\<rparr>) = owned w"
  "owned (w\<lparr>wall := t\<rparr>) = owned w" "owned (w\<lparr>conns := cs\<rparr>) = owned w" "owned (w\<lparr>live := ls\<rparr>) = owned w"
  "owned (w\<lparr>logs := lgs\<rparr>) = owned w" "owned (set_live i g w) = owned w"
  by (simp_all add: owned_def)

lemma owned_on_db:
  assumes "relates shrinks m" and "keeps db_ok m"
  shows "keeps owned (on_db m)"
proof (rule keepsI)
  fix w assume "owned w"
  then have ok: "tenant_ok (wdb w)" by (simp add: owned_def)
  have "tenant_ok (snd (run_state m (wdb w)))"
    by (rule shrinks_tenant [OF relatesD [OF assms(1)] keepsD [OF assms(2) tenant_ok_db [OF ok]] ok])
  then show "owned (snd (run_state (on_db m) w))" by (simp add: owned_def)
qed

lemma owned_read [keeps_intros]: "keeps owned (on_db (on_err g (query f)))"
  by (rule owned_on_db) (intro relates_intros keeps_intros, simp?)+

lemma owned_publish [keeps_intros]: "keeps owned (publish a b c)"
  by (simp add: keeps_def)

lemma owned_shut [keeps_intros]: "keeps owned (shut_conn c)"
  by (simp add: keeps_def)

lemma owned_send [keeps_intros]: "keeps owned (send c m)"
  by (simp add: keeps_def run_send)

lemma owned_writes [keeps_intros]:
  "keeps owned (on_db (SetWorkerStatus a b))" "keeps owned (on_db (SetMinerStatus a b))"
  "keeps owned (on_db (SetSwarmJobStatus a b))" "keeps owned (on_db (UpdateWorkerCaps a caps))"
  "keeps owned (on_db (InsertMetricSample a k h n m))" "keeps owned (on_db (CloseRun a b h x y))"
  by (intro owned_on_db keeps_intros shrinks_writes
      frame_InsertMetricSample [THEN shrinks_frame] frame_CloseRun [THEN shrinks_frame]; simp)+

lemma owned_reads [keeps_intros]:
  "keeps owned (on_db (ActiveJobForWorker a b))" "keeps owned (on_db (ActiveJobsForMiner a))"
  "keeps owned (on_db (GetCurrency a))" "keeps owned (on_db (WalletAddress a b))"
  "keeps owned (on_db (QueuedMinersForOwner a))" "keeps owned (on_db (ListWorkers a))"
  "keeps owned (on_db (GetWorker a b))"
  unfolding ActiveJobForWorker_def ActiveJobsForMiner_def GetCurrency_def WalletAddress_def
    QueuedMinersForOwner_def ListWorkers_def GetWorker_def
  by (intro keeps_intros)+

lemma owned_minerOwner [keeps_intros]: "keeps owned (on_db (minerOwner a))"
  by (auto simp: keeps_def owned_def minerOwner_def run_simps)

lemma owned_runAvg [keeps_intros]: "keeps owned (on_db (runAvgHashrate a))"
  by (auto simp: keeps_def owned_def runAvgHashrate_def run_simps)

lemma owned_Authenticate [keeps_intros]: "keeps owned (on_db (AuthenticateWorker rt now token))"
  by (auto simp: keeps_def owned_def AuthenticateWorker_def run_simps split: sum.splits)

lemma owned_pick [keeps_intros]: "keeps owned (pick_target m xs b)"
  by (induction xs arbitrary: b) (auto intro!: keeps_intros)

lemma triple_on_db: "(\<And>w. P w \<Longrightarrow> Q (fst (run_state m (wdb w))) (w\<lparr>wdb := snd (run_state m (wdb w))\<rparr>)) \<Longrightarrow>
  triple P (on_db m) Q"
  by (rule tripleI) auto

lemma triple_GetWorker:
  "triple (\<lambda>w. owned w \<and> (o' = [] \<or> (\<exists>u. uuid_of (env (wdb w)) mid = Some u \<and> (u, o') \<in> miner_owners (wdb w))))
     (on_db (GetWorker o' wid)) (\<lambda>rk w. owned w \<and> (rk \<in> range Inr \<longrightarrow> matched mid wid (wdb w)))"
proof (rule triple_on_db)
  fix w :: world let ?d = "wdb w" and ?rk = "fst (run_state (GetWorker o' wid) (wdb w))"
  assume pre: "owned w \<and> (o' = [] \<or> (\<exists>u. uuid_of (env ?d) mid = Some u \<and> (u, o') \<in> miner_owners ?d))"
  have "matched mid wid ?d" if "?rk = Inr k" for k
  proof -
    from that obtain r where "r \<in> set (workers ?d)" "k_owner r = o'" "uuid_of (env ?d) wid = Some (k_id r)"
      by (rule GetWorker_row)
    then show ?thesis using pre by (intro matchedI [of ?d o']) (auto simp: owned_def worker_owners_def)
  qed
  with pre show "owned (w\<lparr>wdb := snd (run_state (GetWorker o' wid) ?d)\<rparr>) \<and> (?rk \<in> range Inr \<longrightarrow>
      matched mid wid (wdb (w\<lparr>wdb := snd (run_state (GetWorker o' wid) ?d)\<rparr>)))"
    by (auto simp: owned_def image_iff)
qed

lemma triple_CreateSwarmJob:
  "triple (\<lambda>w. owned w \<and> matched mid wid (wdb w)) (on_db (CreateSwarmJob mid wid)) (\<lambda>_. owned)"
  by (rule triple_on_db) (simp add: owned_def CreateSwarmJob_tenant)

lemma triple_minerOwner:
  "triple owned (on_db (minerOwner mid))
     (\<lambda>o' w. owned w \<and> (o' = [] \<or> (\<exists>u. uuid_of (env (wdb w)) mid = Some u \<and> (u, o') \<in> miner_owners (wdb w))))"
  by (rule triple_on_db) (use minerOwner_row in \<open>auto simp: owned_def\<close>)

lemma owned_Assign [keeps_intros]: "keeps owned (Assign m cur addr)"
  unfolding Assign_def
proof (rule keeps_bind, rule keeps_gets, rule keeps_bind, rule owned_pick, rule keeps_case_option, rule keeps_return,
    rule keeps_case_prod, unfold triple_keeps,
    rule triple_bind [OF triple_minerOwner], rule triple_bind [OF triple_GetWorker], rule triple_case_sum)
  fix target :: live_worker and rk :: "store_err + worker" and e
  let ?Q = "\<lambda>w. owned w \<and> (rk \<in> range Inr \<longrightarrow> matched (mn_id m) (lw_id target) (wdb w))"
  show "triple ?Q (ret False) (\<lambda>_. owned)" by (rule triple_return) simp
next
  fix target :: live_worker and rk :: "store_err + worker" and k c
  let ?Q = "\<lambda>w. owned w \<and> (rk \<in> range Inr \<longrightarrow> matched (mn_id m) (lw_id target) (wdb w))"
  assume "rk = Inr k"
  then have "triple ?Q (on_db (CreateSwarmJob (mn_id m) (lw_id target))) (\<lambda>_. owned)"
    by (intro triple_weaken [OF triple_CreateSwarmJob]) auto
  then show "triple ?Q (on_db (CreateSwarmJob (mn_id m) (lw_id target)) \<bind>
     (\<lambda>rj. case rj of Inl _ \<Rightarrow> ret False | Inr jobID \<Rightarrow>
        send c (JobAssign (engine_payload jobID m cur addr k (lw_id target))) \<bind>
     (\<lambda>ok. if ok then ignore (on_db (SetWorkerStatus (lw_id target) ''assigned'')) \<bind> (\<lambda>_. ret True)
       else ignore (on_db (SetSwarmJobStatus jobID ''error'')) \<bind> (\<lambda>_. ret False)))) (\<lambda>_. owned)"
    by (rule triple_bind, fold triple_keeps) (intro keeps_intros)
qed

lemma owned_register [keeps_intros]: "keeps owned (register a b c d)"
  unfolding register_def by (intro keeps_intros) simp

lemma owned_unregister [keeps_intros]: "keeps owned (unregister a)"
  unfolding unregister_def by (intro keeps_intros) simp

lemma owned_touch [keeps_intros]: "keeps owned (touch a)"
  unfolding touch_def by (intro keeps_intros) simp

lemma owned_handleAck [keeps_intros]: "keeps owned (handleAck a b c d e)"
  unfolding handleAck_def by (intro keeps_intros) simp

lemma owned_handleMetrics [keeps_intros]: "keeps owned (handleMetrics a b c d e f)"
  unfolding handleMetrics_def by (intro keeps_intros) simp

lemma owned_handleMessage [keeps_intros]: "keeps owned (handleMessage f a b m)"
  unfolding handleMessage_def appendLog_def
  by (cases m) (auto intro!: keeps_intros split: option.splits)

lemma owned_AssignQueued [keeps_intros]: "keeps owned (AssignQueued a)"
  unfolding AssignQueued_def wallet_of_def by (intro keeps_intros)

lemma owned_CancelMiner [keeps_intros]: "keeps owned (CancelMiner a b)"
  unfolding CancelMiner_def cancel_job_def by (intro keeps_intros) simp

lemma owned_AllocationUpdate [keeps_intros]: "keeps owned (AllocationUpdate a b c)"
  unfolding AllocationUpdate_def by (intro keeps_intros)

lemma owned_RevokeWorker [keeps_intros]: "keeps owned (Hub_RevokeWorker a)"
  unfolding Hub_RevokeWorker_def by (intro keeps_intros)

lemma owned_ws_open [keeps_intros]: "keeps owned (ws_open rt h acc c)"
  unfolding ws_open_def by (intro keeps_intros)

lemma owned_ws_message [keeps_intros]: "keeps owned (ws_message f a b m)"
  unfolding ws_message_def by (intro keeps_intros)

lemma owned_ws_end [keeps_intros]: "keeps owned (ws_end a c)"
  unfolding ws_end_def by (intro keeps_intros)

lemma owned_supervise [keeps_intros]: "keeps owned (supervise a c p)"
  unfolding supervise_def by (intro keeps_intros)

subsection \<open>Steps\<close>

text \<open>
  The calls of the store that do not go through the hub create no jobs (only \<open>Assign\<close> does) and act
  for owners that have signed in. The event broker is shared with the open streams: it may change at any time.
\<close>

inductive hub_step :: "world \<Rightarrow> world \<Rightarrow> bool" where
  time_passes: "wall w \<le> t \<Longrightarrow> hub_step w (w\<lparr>wall := t\<rparr>)"
| restart: "hub_step w (NewHub w)"
| store_call: "db_call True (wdb w) d \<Longrightarrow> job_pairs d \<subseteq> job_pairs (wdb w) \<Longrightarrow> signed_in d \<Longrightarrow> hub_step w (w\<lparr>wdb := d\<rparr>)"
| connects: "hub_step w (snd (run_state (ws_open rt header accept c) w))"
| says: "hub_step w (snd (run_state (ws_message stamp workerID owner m) w))"
| leaves: "hub_step w (snd (run_state (ws_end workerID c) w))"
| supervised: "hub_step w (snd (run_state (supervise workerID c pong) w))"
| assigned: "hub_step w (snd (run_state (Assign mn cur addr) w))"
| queue_assigned: "hub_step w (snd (run_state (AssignQueued owner) w))"
| cancelled: "hub_step w (snd (run_state (CancelMiner minerID reason) w))"
| reallocated: "hub_step w (snd (run_state (AllocationUpdate minerID cpu gpu) w))"
| revoked: "hub_step w (snd (run_state (Hub_RevokeWorker workerID) w))"
| broker_moves: "hub_step w (w\<lparr>evb := b\<rparr>)"

definition hub_start :: "world \<Rightarrow> bool" where
  "hub_start w \<longleftrightarrow> conns w = [] \<and> live w = [] \<and> jstates w = [] \<and> logs w = [] \<and>
     db_ok (wdb w) \<and> signed_in (wdb w) \<and> jobs (wdb w) = []"

definition hub_good :: "world \<Rightarrow> bool" where
  "hub_good w \<longleftrightarrow> hub_ok w \<and> owned w"

lemma hub_good_keeps: "keeps hub_ok m \<Longrightarrow> keeps owned m \<Longrightarrow> hub_good w \<Longrightarrow> hub_good (snd (run_state m w))"
  by (simp add: hub_good_def keeps_def)

lemma hub_step_good: "hub_step w w' \<Longrightarrow> hub_good w \<Longrightarrow> hub_good w'"
proof (induction rule: hub_step.induct)
  case (time_passes w t)
  then show ?case by (simp add: hub_good_def)
next
  case (store_call w d)
  then show ?case by (simp add: hub_good_def owned_def db_call_tenant)
next
  case (restart w)
  then show ?case by (simp add: hub_good_def NewHub_def hub_ok_def WorkerLogs_def)
next
  case (broker_moves w b)
  then show ?case by (simp add: hub_good_def)
qed (erule hub_good_keeps [rotated -1], intro keeps_intros, intro keeps_intros)+

lemma hub_start_good: "hub_start w \<Longrightarrow> hub_good w"
  by (simp add: hub_start_def hub_good_def hub_ok_def WorkerLogs_def owned_def tenant_ok_def
      jobs_owned_def job_pairs_def)

interpretation hub: transition_system hub_start hub_step hub_good
  by unfold_locales (auto intro: hub_start_good hub_step_good)

text \<open>
  The ids that the database hands out are in the canonical text form, which denotes itself.
\<close>

definition canonical :: "db \<Rightarrow> bool" where
  "canonical d \<longleftrightarrow> (\<forall>m \<in> set (miners d). uuid_of (env d) (m_id m) = Some (m_id m)) \<and>
     (\<forall>k \<in> set (workers d). uuid_of (env d) (k_id k) = Some (k_id k))"

end
