(* ===== verification/HubSamples.thy ===== *)
theory HubSamples
  imports HubInv Samples
begin

text \<open>
  Concrete worlds for the witnesses. Owner \<open>a\<close> has the worker \<open>k\<close>, connected as number 7 and holding
  a job for the miner \<open>m\<close>, and a queued miner \<open>q\<close>; owner \<open>b\<close> has the worker \<open>l\<close> and the miner \<open>n\<close>.
\<close>

definition sample_job :: job_row where
  "sample_job = \<lparr>j_id = ''j'', j_miner = ''m'', j_worker = ''k'', j_assigned = 0, j_ended = None, j_status = ''ack''\<rparr>"

definition hub_db :: db where
  "hub_db = sample_db\<lparr>tick := 3, workers := [sample_worker ''k'' ''a'', sample_worker ''l'' ''b''],
     miners := [sample_miner ''m'' ''a'' ''running'', sample_miner ''n'' ''b'' ''running'', sample_miner ''q'' ''a'' ''queued''],
     jobs := [sample_job]\<rparr>"

definition sample_live :: "string \<Rightarrow> string \<Rightarrow> (string \<times> string) list \<Rightarrow> live_worker" where
  "sample_live i owner js = \<lparr>lw_id = i, lw_owner = owner, lw_kind = ''native'', lw_name = [], lw_rate = 0,
     lw_currency = [], lw_jobs = js, lw_last = 0\<rparr>"

definition hub_world :: world where
  "hub_world = \<lparr>wdb = hub_db, conns = [(''k'', 7)], live = [(''k'', sample_live ''k'' ''a'' [(''j'', ''m'')])],
     jstates = [(''j'', \<lparr>js_miner = ''m'', js_owner = ''a'', js_last_acc = 5, js_last_rej = 1, js_tot_acc = 5, js_tot_rej = 1\<rparr>)],
     logs = [], evb = new_broker, outbox = [], shut = [], wall = 0, writes = 0,
     net_fail = (\<lambda>_. False), map_rank = (\<lambda>_ _. 0)\<rparr>"

definition hub_idle :: world where
  "hub_idle = NewHub (hub_world\<lparr>wdb := hub_db\<lparr>jobs := []\<rparr>\<rparr>)"

lemmas hub_data = hub_world_def hub_db_def sample_live_def sample_job_def sample_data

lemma hub_db_ok: "db_ok hub_db" "db_ok (hub_db\<lparr>jobs := []\<rparr>)"
  by (simp_all add: db_ok_defs hub_db_def sample_job_def sample_data with_txid_def pct_ok_def)

lemma hub_world_good: "hub_good hub_world"
  using hub_db_ok
  by (simp add: hub_good_def hub_ok_def owned_def tenant_ok_def signed_in_def jobs_owned_def owner_defs
      WorkerLogs_def hub_world_def sample_live_def)
    (simp add: hub_db_def sample_data sample_job_def)

lemma hub_world_canonical: "canonical (wdb hub_world)"
  by (simp add: canonical_def hub_data)

lemma hub_idle_start: "hub_start hub_idle"
  using hub_db_ok(2)
  by (simp add: hub_start_def hub_idle_def NewHub_def hub_world_def signed_in_def owner_defs)
    (simp add: hub_db_def sample_data)

end
