(* ===== verification/HubProps.thy ===== *)
theory HubProps
  imports HubInv HubSamples
begin

text \<open>
  What the hub promises: a worker reaches only its own jobs and the miners of its owner, a miner is
  placed on a connected native worker of its owner with the least jobs, and it is placed when there is one.
\<close>

subsection \<open>What one message can touch\<close>

text \<open>Only the job \<open>u\<close>, the miner \<open>m\<close> and the worker \<open>k\<close> may change, and samples of \<open>m\<close> may be added.\<close>

definition local_to :: "db_env \<Rightarrow> string \<Rightarrow> string \<Rightarrow> string \<Rightarrow> db \<Rightarrow> db \<Rightarrow> bool" where
  "local_to e u m k s t \<longleftrightarrow> (env s = e \<longrightarrow> only {Jobs, Miners, Workers, Samples} s t \<and>
     filter (\<lambda>x. j_id x \<noteq> u) (jobs t) = filter (\<lambda>x. j_id x \<noteq> u) (jobs s) \<and>
     filter (\<lambda>x. m_id x \<noteq> m) (miners t) = filter (\<lambda>x. m_id x \<noteq> m) (miners s) \<and>
     filter (\<lambda>x. k_id x \<noteq> k) (workers t) = filter (\<lambda>x. k_id x \<noteq> k) (workers s) \<and>
     map (\<lambda>x. (j_id x, j_worker x)) (jobs t) = map (\<lambda>x. (j_id x, j_worker x)) (jobs s) \<and>
     shrinks s t \<and> (\<exists>new. samples t = samples s @ new \<and> (\<forall>x \<in> set new. s_miner x = m)))"

lemma local_refl [relates_intros]: "reflp (local_to e u m k)"
  by (simp add: reflp_def local_to_def only_def)

lemma local_trans [relates_intros]: "transp (local_to e u m k)"
proof (rule transpI)
  fix a b c assume 1: "local_to e u m k a b" and 2: "local_to e u m k b c"
  show "local_to e u m k a c"
    unfolding local_to_def
  proof (intro impI conjI)
    assume a: "env a = e"
    note ab = 1 [unfolded local_to_def, rule_format, OF a]
    then have "env b = e" using a by (simp add: only_def)
    note bc = 2 [unfolded local_to_def, rule_format, OF this]
    show "only {Jobs, Miners, Workers, Samples} a c" using ab bc transpD [OF only_transp] by blast
    show "shrinks a c" using ab bc transpD [OF shrinks_transp] by blast
    show "\<exists>new. samples c = samples a @ new \<and> (\<forall>x \<in> set new. s_miner x = m)" using ab bc by auto
  qed (use 1 2 in \<open>simp_all add: local_to_def only_def\<close>)
qed

lemma local_tick [simp]: "local_to e u m k s (s\<lparr>tick := n\<rparr>)"
  by (simp add: local_to_def)

lemma local_stmt [relates_intros]:
  assumes "\<And>s a t. env s = e \<Longrightarrow> f s = Inr (a, t) \<Longrightarrow> local_to e u m k s t"
  shows "relates (local_to e u m k) (sql f)"
proof (rule relates_sql [OF local_trans local_tick])
  fix s a t assume "f s = Inr (a, t)"
  with assms [of s a t] show "local_to e u m k s t" unfolding local_to_def by blast
qed

lemma local_SetSwarmJobStatus: "uuid_of e jobID = Some u \<Longrightarrow> relates (local_to e u m k) (SetSwarmJobStatus jobID st)"
  unfolding SetSwarmJobStatus_def
  by (intro relates_intros)
    (auto simp: with_uuid_Inr local_to_def only_def intro!: filter_upd_where_same shrinks_upd_jobs)

lemma local_SetMinerStatus: "uuid_of e mid = Some m \<Longrightarrow> relates (local_to e u m k) (SetMinerStatus mid st)"
  unfolding SetMinerStatus_def
  by (intro relates_intros)
    (auto simp: with_uuid_Inr local_to_def only_def intro!: filter_upd_where_same shrinks_upd_miners)

lemma local_SetWorkerStatus: "uuid_of e wid = Some k \<Longrightarrow> relates (local_to e u m k) (SetWorkerStatus wid st)"
  unfolding SetWorkerStatus_def
  by (intro relates_intros)
    (auto simp: with_uuid_Inr local_to_def only_def intro!: filter_upd_where_same shrinks_upd_workers)

lemma local_UpdateWorkerCaps: "uuid_of e wid = Some k \<Longrightarrow> relates (local_to e u m k) (UpdateWorkerCaps wid c)"
  unfolding UpdateWorkerCaps_def
  by (intro relates_intros)
    (auto simp: with_uuid_Inr local_to_def only_def intro!: filter_upd_where_same shrinks_upd_workers)

lemma local_InsertMetricSample: "uuid_of e mid = Some m \<Longrightarrow> relates (local_to e u m k) (InsertMetricSample mid w h a r)"
  unfolding InsertMetricSample_def
  by (intro relates_intros)
    (auto simp: stmt_simps local_to_def only_def shrinks_def owner_defs split: option.splits)

text \<open>The same for the world: nothing is written to a connection, and no connection is closed.\<close>

definition locally :: "db_env \<Rightarrow> job_row \<Rightarrow> world \<Rightarrow> world \<Rightarrow> bool" where
  "locally e j w w' \<longleftrightarrow> local_to e (j_id j) (j_miner j) (j_worker j) (wdb w) (wdb w') \<and> conns w' = conns w \<and>
     outbox w' = outbox w \<and> shut w' = shut w"

lemma locally_refl [relates_intros]: "reflp (locally e j)"
  using reflpD [OF local_refl] by (simp add: reflp_def locally_def)

lemma locally_trans [relates_intros]: "transp (locally e j)"
  using transpD [OF local_trans] unfolding transp_def locally_def by metis

lemma locally_on_db [relates_intros]:
  "relates (local_to e (j_id j) (j_miner j) (j_worker j)) m \<Longrightarrow> relates (locally e j) (on_db m)"
  by (simp add: relates_def locally_def)

lemma locally_publish [relates_intros]: "relates (locally e j) (publish a b c)"
  using reflpD [OF local_refl] by (simp add: relates_def locally_def)

lemma locally_modify [relates_intros]:
  assumes "\<And>w. wdb (f w) = wdb w \<and> conns (f w) = conns w \<and> outbox (f w) = outbox w \<and> shut (f w) = shut w"
  shows "relates (locally e j) (modify f)"
  using reflpD [OF local_refl] assms by (simp add: relates_def locally_def)

lemma ActiveJob_tick [simp]: "snd (run_state (ActiveJobForWorker jobID wid) d) = bump d"
  by (simp add: ActiveJobForWorker_def run_simps)

lemma ActiveJob_row:
  assumes "fst (run_state (ActiveJobForWorker jobID wid) d) = Inr job"
  obtains j where "j \<in> set (jobs d)" "uuid_of (env d) jobID = Some (j_id j)"
    "uuid_of (env d) wid = Some (j_worker j)" "j_ended j = None" "job = scanJob j"
proof -
  from assms have "run_state (ActiveJobForWorker jobID wid) d = (Inr job, bump d)" by (metis ActiveJob_tick prod.collapse)
  then show thesis using that by (auto simp: ActiveJobForWorker_def inr_simps with_uuid_Inr dest!: one_row_in)
qed

lemma canonical_job_miner:
  "db_ok d \<Longrightarrow> canonical d \<Longrightarrow> j \<in> set (jobs d) \<Longrightarrow> uuid_of (env d) (j_miner j) = Some (j_miner j)"
  using db_ok_refs(6) by (fastforce simp: canonical_def)

definition job_local :: "string \<Rightarrow> world \<Rightarrow> world \<Rightarrow> bool" where
  "job_local wid w w' \<longleftrightarrow> (\<exists>j \<in> set (jobs (wdb w)). j_worker j = wid \<and> locally (env (wdb w)) j w w')"

lemma on_job:
  assumes ok: "db_ok (wdb w)" "canonical (wdb w)" and k: "uuid_of (env (wdb w)) wid = Some k"
    and cont: "\<And>j. j \<in> set (jobs (wdb w)) \<Longrightarrow> j_worker j = k \<Longrightarrow> uuid_of (env (wdb w)) jobID = Some (j_id j) \<Longrightarrow>
      uuid_of (env (wdb w)) (j_miner j) = Some (j_miner j) \<Longrightarrow> relates (locally (env (wdb w)) j) (f (scanJob j))"
  shows "job_local k w (snd (run_state (on_db (ActiveJobForWorker jobID wid) \<bind>
      (\<lambda>r. case r of Inl _ \<Rightarrow> ret () | Inr job \<Rightarrow> f job)) w)) \<or>
    snd (run_state (on_db (ActiveJobForWorker jobID wid) \<bind>
      (\<lambda>r. case r of Inl _ \<Rightarrow> ret () | Inr job \<Rightarrow> f job)) w) = w\<lparr>wdb := bump (wdb w)\<rparr>"
proof (cases "fst (run_state (ActiveJobForWorker jobID wid) (wdb w))")
  case (Inl e)
  then show ?thesis by simp
next
  case (Inr job)
  obtain j where j: "j \<in> set (jobs (wdb w))" "uuid_of (env (wdb w)) jobID = Some (j_id j)" "j_worker j = k" "job = scanJob j"
    using ActiveJob_row [OF Inr] k by (metis option.inject)
  have "relates (locally (env (wdb w)) j) (f job)"
    unfolding j(4) by (rule cont [OF j(1,3,2) canonical_job_miner [OF ok j(1)]])
  then have "locally (env (wdb w)) j (w\<lparr>wdb := bump (wdb w)\<rparr>) (snd (run_state (f job) (w\<lparr>wdb := bump (wdb w)\<rparr>)))"
    by (rule relatesD)
  moreover have "locally (env (wdb w)) j w (w\<lparr>wdb := bump (wdb w)\<rparr>)" by (simp add: locally_def)
  ultimately have "locally (env (wdb w)) j w (snd (run_state (f job) (w\<lparr>wdb := bump (wdb w)\<rparr>)))"
    by (rule transpD [OF locally_trans, rotated])
  then show ?thesis using j(1,3) Inr by (auto simp: job_local_def)
qed

definition reads_only :: "world \<Rightarrow> world \<Rightarrow> bool" where
  "reads_only w w' \<longleftrightarrow> (\<exists>n. wdb w' = (wdb w)\<lparr>tick := n\<rparr>) \<and> conns w' = conns w \<and> outbox w' = outbox w \<and> shut w' = shut w"

lemma handleAck_local:
  assumes "db_ok (wdb w)" "canonical (wdb w)" and "uuid_of (env (wdb w)) wid = Some k"
  shows "job_local k w (snd (run_state (handleAck wid o' jobID st err) w)) \<or>
    reads_only w (snd (run_state (handleAck wid o' jobID st err) w))"
proof -
  have "job_local k w (snd (run_state (handleAck wid o' jobID st err) w)) \<or>
    snd (run_state (handleAck wid o' jobID st err) w) = w\<lparr>wdb := bump (wdb w)\<rparr>"
    unfolding handleAck_def
    by (rule on_job [OF assms])
      (use assms(3) in \<open>intro relates_intros local_SetSwarmJobStatus local_SetMinerStatus local_SetWorkerStatus;
        simp add: scanJob_def\<close>)
  then show ?thesis by (auto simp: reads_only_def)
qed

lemma handleMetrics_local:
  assumes "db_ok (wdb w)" "canonical (wdb w)" and "uuid_of (env (wdb w)) wid = Some k"
  shows "job_local k w (snd (run_state (handleMetrics wid o' jobID h a r) w)) \<or>
    reads_only w (snd (run_state (handleMetrics wid o' jobID h a r) w))"
proof -
  have "job_local k w (snd (run_state (handleMetrics wid o' jobID h a r) w)) \<or>
    snd (run_state (handleMetrics wid o' jobID h a r) w) = w\<lparr>wdb := bump (wdb w)\<rparr>"
    unfolding handleMetrics_def
    by (rule on_job [OF assms])
      (use assms(3) in \<open>intro relates_intros local_InsertMetricSample; simp add: scanJob_def\<close>)
  then show ?thesis by (auto simp: reads_only_def)
qed

text \<open>What a worker \<open>k\<close> of owner \<open>o'\<close> may change: its own row, its jobs, the miners of its owner.\<close>

definition confined :: "string \<Rightarrow> string \<Rightarrow> world \<Rightarrow> world \<Rightarrow> bool" where
  "confined o' k w w' \<longleftrightarrow> only {Jobs, Miners, Workers, Samples} (wdb w) (wdb w') \<and>
     filter (\<lambda>m. m_owner m \<noteq> o') (miners (wdb w')) = filter (\<lambda>m. m_owner m \<noteq> o') (miners (wdb w)) \<and>
     filter (\<lambda>x. k_id x \<noteq> k) (workers (wdb w')) = filter (\<lambda>x. k_id x \<noteq> k) (workers (wdb w)) \<and>
     filter (\<lambda>j. j_worker j \<noteq> k) (jobs (wdb w')) = filter (\<lambda>j. j_worker j \<noteq> k) (jobs (wdb w)) \<and>
     (\<exists>new. samples (wdb w') = samples (wdb w) @ new \<and> (\<forall>x \<in> set new. (s_miner x, o') \<in> miner_owners (wdb w))) \<and>
     outbox w' = outbox w \<and> shut w' = shut w"

lemma filter_via: "(\<And>x. x \<in> set xs \<Longrightarrow> p x \<Longrightarrow> q x) \<Longrightarrow> filter p xs = filter p (filter q xs)"
  by (induction xs) auto

lemma confined_reads: "reads_only w w' \<Longrightarrow> confined o' k w w'"
  by (auto simp: reads_only_def confined_def)

lemma job_miner_owner:
  assumes "tenant_ok d" "j \<in> set (jobs d)" "(j_worker j, o') \<in> worker_owners d"
  shows "(j_miner j, o') \<in> miner_owners d"
proof -
  have "(j_miner j, j_worker j) \<in> job_pairs d" using assms(2) by (auto simp: job_pairs_def)
  moreover obtain m where "m \<in> set (miners d)" "m_id m = j_miner j"
    using db_ok_refs(6) [OF tenant_ok_db [OF assms(1)]] assms(2) by (metis (no_types, lifting) image_iff subset_iff)
  then have "(j_miner j, m_owner m) \<in> miner_owners d" by (force simp: miner_owners_def)
  ultimately have "m_owner m = o'" using assms(1,3) by (auto simp: tenant_ok_def jobs_owned_def)
  then show ?thesis using \<open>(j_miner j, m_owner m) \<in> miner_owners d\<close> by simp
qed

text \<open>The two selections by owner and by worker, read off the selections by id.\<close>

lemma other_miners:
  assumes ok: "db_ok d" and own: "(m, o') \<in> miner_owners d" and sub: "miner_owners t \<subseteq> miner_owners d"
    and same: "filter (\<lambda>x. m_id x \<noteq> m) (miners t) = filter (\<lambda>x. m_id x \<noteq> m) (miners d)"
  shows "filter (\<lambda>x. m_owner x \<noteq> o') (miners t) = filter (\<lambda>x. m_owner x \<noteq> o') (miners d)"
proof -
  have "m_id x \<noteq> m" if "x \<in> set (miners d) \<union> set (miners t)" "m_owner x \<noteq> o'" for x
  proof
    assume "m_id x = m"
    moreover have "(m_id x, m_owner x) \<in> miner_owners d" using that(1) sub by (auto simp: miner_owners_def)
    ultimately show False using miner_owner_unique [OF ok own] that(2) by metis
  qed
  then show ?thesis
    using same filter_via [of "miners t" "\<lambda>x. m_owner x \<noteq> o'" "\<lambda>x. m_id x \<noteq> m"]
      filter_via [of "miners d" "\<lambda>x. m_owner x \<noteq> o'" "\<lambda>x. m_id x \<noteq> m"] by simp
qed

lemma other_jobs:
  assumes ok: "db_ok d" and j: "j \<in> set (jobs d)"
    and ids: "map (\<lambda>x. (j_id x, j_worker x)) (jobs t) = map (\<lambda>x. (j_id x, j_worker x)) (jobs d)"
    and same: "filter (\<lambda>x. j_id x \<noteq> j_id j) (jobs t) = filter (\<lambda>x. j_id x \<noteq> j_id j) (jobs d)"
  shows "filter (\<lambda>x. j_worker x \<noteq> j_worker j) (jobs t) = filter (\<lambda>x. j_worker x \<noteq> j_worker j) (jobs d)"
proof -
  have "j_id x \<noteq> j_id j" if "x \<in> set (jobs d) \<union> set (jobs t)" "j_worker x \<noteq> j_worker j" for x
  proof
    assume "j_id x = j_id j"
    have "(j_id x, j_worker x) \<in> set (map (\<lambda>x. (j_id x, j_worker x)) (jobs d))"
      using that(1) ids [THEN arg_cong [of _ _ set]] by auto
    then obtain y where "y \<in> set (jobs d)" "j_id y = j_id x" "j_worker y = j_worker x" by auto
    then show False
      using distinct_map_eqD [OF db_ok_keys(9) [OF ok] _ j] \<open>j_id x = j_id j\<close> that(2) by metis
  qed
  then show ?thesis
    using same filter_via [of "jobs t" "\<lambda>x. j_worker x \<noteq> j_worker j" "\<lambda>x. j_id x \<noteq> j_id j"]
      filter_via [of "jobs d" "\<lambda>x. j_worker x \<noteq> j_worker j" "\<lambda>x. j_id x \<noteq> j_id j"] by simp
qed

lemma confined_job:
  assumes ok: "tenant_ok (wdb w)" and k: "(k, o') \<in> worker_owners (wdb w)" and loc: "job_local k w w'"
  shows "confined o' k w w'"
proof -
  obtain j where j: "j \<in> set (jobs (wdb w))" "j_worker j = k" and l: "locally (env (wdb w)) j w w'"
    using loc by (auto simp: job_local_def)
  have own: "(j_miner j, o') \<in> miner_owners (wdb w)" using job_miner_owner [OF ok j(1)] k j(2) by simp
  have loc: "only {Jobs, Miners, Workers, Samples} (wdb w) (wdb w')"
    "filter (\<lambda>x. j_id x \<noteq> j_id j) (jobs (wdb w')) = filter (\<lambda>x. j_id x \<noteq> j_id j) (jobs (wdb w))"
    "filter (\<lambda>x. m_id x \<noteq> j_miner j) (miners (wdb w')) = filter (\<lambda>x. m_id x \<noteq> j_miner j) (miners (wdb w))"
    "filter (\<lambda>x. k_id x \<noteq> k) (workers (wdb w')) = filter (\<lambda>x. k_id x \<noteq> k) (workers (wdb w))"
    "map (\<lambda>x. (j_id x, j_worker x)) (jobs (wdb w')) = map (\<lambda>x. (j_id x, j_worker x)) (jobs (wdb w))"
    "miner_owners (wdb w') \<subseteq> miner_owners (wdb w)"
    "\<exists>new. samples (wdb w') = samples (wdb w) @ new \<and> (\<forall>x \<in> set new. s_miner x = j_miner j)"
    using l j(2) unfolding locally_def local_to_def shrinks_def by auto
  moreover have "\<exists>new. samples (wdb w') = samples (wdb w) @ new \<and> (\<forall>x \<in> set new. (s_miner x, o') \<in> miner_owners (wdb w))"
    using loc(7) own by auto
  ultimately show ?thesis
    using other_miners [OF tenant_ok_db [OF ok] own loc(6,3)] other_jobs [OF tenant_ok_db [OF ok] j(1) loc(5,2)] l j(2)
    by (simp add: confined_def locally_def)
qed

lemma reads_trans: "reads_only w v \<Longrightarrow> confined o' k v w' \<Longrightarrow> confined o' k w w'"
  by (auto simp: reads_only_def confined_def only_def)

lemma handleMessage_confined:
  assumes ok: "tenant_ok (wdb w)" and c: "canonical (wdb w)" and k: "(wid, o') \<in> worker_owners (wdb w)"
  shows "confined o' wid w (snd (run_state (handleMessage stamp wid owner m) w))"
proof -
  have u: "uuid_of (env (wdb w)) wid = Some wid" using c k by (auto simp: canonical_def worker_owners_def)
  note d = tenant_ok_db [OF ok]
  have same: "confined o' wid w (w\<lparr>logs := l\<rparr>)" "confined o' wid w w" for l
    by (simp_all add: confined_def only_def)
  show ?thesis
  proof (cases m)
    case (InHello caps)
    have "confined o' wid w (w\<lparr>wdb := snd (run_state (UpdateWorkerCaps wid c) (wdb w))\<rparr>)" for c
    proof -
      have "only {Workers} (wdb w) (snd (run_state (UpdateWorkerCaps wid c) (wdb w)))"
        by (rule relatesD [OF frame_UpdateWorkerCaps])
      moreover have "filter (\<lambda>x. k_id x \<noteq> wid) (workers (snd (run_state (UpdateWorkerCaps wid c) (wdb w)))) =
        filter (\<lambda>x. k_id x \<noteq> wid) (workers (wdb w))"
        using relatesD [OF local_UpdateWorkerCaps [OF u, of "[]" "[]" c], of "wdb w"] unfolding local_to_def by blast
      ultimately show ?thesis by (simp add: confined_def only_def)
    qed
    then show ?thesis using InHello same by (auto simp: handleMessage_def split: option.splits)
  next
    case (InAck jobID st err)
    then show ?thesis
      using handleAck_local [OF d c u, of owner jobID st err] confined_job [OF ok k] confined_reads same
      by (auto simp: handleMessage_def)
  next
    case (InMetrics jobID h a r)
    then show ?thesis
      using handleMetrics_local [OF d c u, of owner jobID h a r] confined_job [OF ok k] confined_reads same
      by (auto simp: handleMessage_def)
  qed (use same in \<open>auto simp: handleMessage_def appendLog_def\<close>)
qed

text \<open>C12. A message from a worker, whatever it says, changes at most the worker's own row, its own jobs,
  the miners of its owner, and adds samples to miners of its owner; nothing is sent to any connection.
  Every state that the hub reaches is \<open>hub_good\<close>.\<close>

theorem worker_message_confined:
  assumes "hub_good w" and "canonical (wdb w)"
    and "k \<in> set (workers (wdb w))"
    and "run_state (ws_message stamp (k_id k) owner m) w = (x, w')"
  shows "filter (\<lambda>r. m_owner r \<noteq> k_owner k) (miners (wdb w')) = filter (\<lambda>r. m_owner r \<noteq> k_owner k) (miners (wdb w)) \<and>
     filter (\<lambda>r. k_id r \<noteq> k_id k) (workers (wdb w')) = filter (\<lambda>r. k_id r \<noteq> k_id k) (workers (wdb w)) \<and>
     filter (\<lambda>j. j_worker j \<noteq> k_id k) (jobs (wdb w')) = filter (\<lambda>j. j_worker j \<noteq> k_id k) (jobs (wdb w)) \<and>
     (\<exists>new. samples (wdb w') = samples (wdb w) @ new \<and>
        (\<forall>s \<in> set new. \<exists>r \<in> set (miners (wdb w)). m_id r = s_miner s \<and> m_owner r = k_owner k)) \<and>
     only {Jobs, Miners, Workers, Samples} (wdb w) (wdb w') \<and> outbox w' = outbox w \<and> shut w' = shut w"
proof (intro conjI)
  have "tenant_ok (wdb w)" using assms(1) by (simp add: hub_good_def owned_def)
  then have t: "tenant_ok (wdb (snd (run_state (touch (k_id k)) w)))" by (simp add: touch_def)
  have "confined (k_owner k) (k_id k) (snd (run_state (touch (k_id k)) w)) w'"
    using assms(2-4) handleMessage_confined [OF t, of "k_id k" "k_owner k" stamp owner m]
    by (auto simp: touch_def ws_message_def worker_owners_def split: prod.splits)
  then have "confined (k_owner k) (k_id k) w w'"
    by (rule reads_trans [rotated]) (auto simp: touch_def reads_only_def intro: exI [of _ "tick (wdb w)"])
  then show "filter (\<lambda>r. m_owner r \<noteq> k_owner k) (miners (wdb w')) = filter (\<lambda>r. m_owner r \<noteq> k_owner k) (miners (wdb w))"
    and "filter (\<lambda>r. k_id r \<noteq> k_id k) (workers (wdb w')) = filter (\<lambda>r. k_id r \<noteq> k_id k) (workers (wdb w))"
    and "filter (\<lambda>j. j_worker j \<noteq> k_id k) (jobs (wdb w')) = filter (\<lambda>j. j_worker j \<noteq> k_id k) (jobs (wdb w))"
    and "only {Jobs, Miners, Workers, Samples} (wdb w) (wdb w')"
    and "outbox w' = outbox w" and "shut w' = shut w"
    and "\<exists>new. samples (wdb w') = samples (wdb w) @ new \<and> (\<forall>s \<in> set new. \<exists>r \<in> set (miners (wdb w)). m_id r = s_miner s \<and> m_owner r = k_owner k)"
    unfolding confined_def miner_owners_def by (blast, blast, blast, blast, blast, blast, fastforce)
qed

theorem worker_message_confined_witness:
  "filter (\<lambda>r. m_owner r \<noteq> ''a'') (miners (wdb (snd (run_state
     (ws_message (\<lambda>_. []) ''k'' ''a'' (InAck ''j'' ''failed'' ''oom'')) hub_world)))) = [sample_miner ''n'' ''b'' ''running'']"
  using worker_message_confined [OF hub_world_good hub_world_canonical, of "sample_worker ''k'' ''a''",
      OF _ prod.collapse [symmetric], of "\<lambda>_. []" "''a''" "InAck ''j'' ''failed'' ''oom''"]
  by (simp add: hub_data)

lemma same_owner:
  assumes "hub_good w" "j \<in> set (jobs (wdb w))" "m \<in> set (miners (wdb w))" "k \<in> set (workers (wdb w))"
    and "m_id m = j_miner j" "k_id k = j_worker j"
  shows "m_owner m = k_owner k"
proof -
  have "(m_id m, k_id k) \<in> job_pairs (wdb w)" "(m_id m, m_owner m) \<in> miner_owners (wdb w)"
    "(k_id k, k_owner k) \<in> worker_owners (wdb w)"
    using assms(2-) unfolding owner_defs by (metis (mono_tags, lifting) image_eqI, blast, blast)
  then show ?thesis using assms(1) by (auto simp: hub_good_def owned_def tenant_ok_def jobs_owned_def)
qed

text \<open>In every state that the hub reaches from a start, through any interleaving of connections,
  messages, assignments, cancellations, API calls and restarts: a worker is in the map of connections
  exactly when it is in the live map, once; its log has at most 20 lines; and every job pairs a miner
  with a worker of the same owner.\<close>

theorem hub_reachable_good:
  assumes "hub_start w0" and "hub_step\<^sup>*\<^sup>* w0 w"
  shows "map fst (conns w) = map fst (live w) \<and> distinct (map fst (live w)) \<and>
     (\<forall>i. length (WorkerLogs i w) \<le> 20) \<and>
     (\<forall>j \<in> set (jobs (wdb w)). \<forall>m \<in> set (miners (wdb w)). \<forall>k \<in> set (workers (wdb w)).
        m_id m = j_miner j \<longrightarrow> k_id k = j_worker j \<longrightarrow> m_owner m = k_owner k)"
proof -
  have good: "hub_good w" by (rule hub.reachable_good [OF assms])
  then have "map fst (conns w) = map fst (live w) \<and> distinct (map fst (live w)) \<and> (\<forall>i. length (WorkerLogs i w) \<le> 20)"
    by (simp add: hub_good_def hub_ok_def)
  then show ?thesis using same_owner [OF good] by blast
qed

theorem hub_reachable_good_witness:
  "map fst (conns (snd (run_state (ws_open sample_rt ''Bearer k'' True 7) hub_idle))) =
   map fst (live (snd (run_state (ws_open sample_rt ''Bearer k'' True 7) hub_idle)))"
  using hub_reachable_good [OF hub_idle_start r_into_rtranclp [of hub_step, OF hub_step.connects]] by blast

subsection \<open>Placement\<close>

definition eligible :: "string \<Rightarrow> world \<Rightarrow> string \<times> live_worker \<Rightarrow> bool" where
  "eligible o' w x \<longleftrightarrow> lw_owner (snd x) = o' \<and> map_of (conns w) (fst x) \<noteq> None \<and> lw_kind (snd x) \<noteq> ''browser''"

definition best_of :: "string \<Rightarrow> (string \<times> nat) list \<Rightarrow> (string \<times> live_worker) list \<Rightarrow> (live_worker \<times> nat) option \<Rightarrow> (live_worker \<times> nat) option" where
  "best_of o' cs xs b = fold (\<lambda>x b. better o' (snd x) (map_of cs (fst x)) b) xs b"

lemma best_of_simps [simp]:
  "best_of o' cs [] b = b"
  "best_of o' cs (y # ys) b = best_of o' cs ys (better o' (snd y) (map_of cs (fst y)) b)"
  by (simp_all add: best_of_def)

abbreviation load :: "live_worker \<Rightarrow> nat" where
  "load l \<equiv> length (lw_jobs l)"

lemma better_cases:
  obtains (skip) "\<not> eligible o' w y" "better o' (snd y) (map_of (conns w) (fst y)) b = b"
  | (first) d where "eligible o' w y" "map_of (conns w) (fst y) = Some d" "b = None"
      "better o' (snd y) (map_of (conns w) (fst y)) b = Some (snd y, d)"
  | (less) t c d where "eligible o' w y" "map_of (conns w) (fst y) = Some d" "b = Some (t, c)" "load (snd y) < load t"
      "better o' (snd y) (map_of (conns w) (fst y)) b = Some (snd y, d)"
  | (keep) t c where "eligible o' w y" "b = Some (t, c)" "load t \<le> load (snd y)"
      "better o' (snd y) (map_of (conns w) (fst y)) b = b"
proof (cases "eligible o' w y")
  case False
  then have "better o' (snd y) (map_of (conns w) (fst y)) b = b"
    by (auto simp: eligible_def better_def split: option.splits)
  with False show thesis by (rule skip)
next
  case True
  then obtain d where d: "map_of (conns w) (fst y) = Some d" by (auto simp: eligible_def)
  show thesis
  proof (cases b)
    case None
    with True d show thesis by (intro first) (auto simp: eligible_def better_def)
  next
    case (Some p)
    obtain t c where p: "b = Some (t, c)" using Some by (cases p) simp
    show thesis
    proof (cases "load (snd y) < load t")
      case True
      with \<open>eligible o' w y\<close> d p show thesis by (intro less) (auto simp: eligible_def better_def)
    next
      case False
      with \<open>eligible o' w y\<close> d p show thesis by (intro keep) (auto simp: eligible_def better_def)
    qed
  qed
qed

lemma best_of_Some:
  "best_of o' (conns w) xs b = Some (t, c) \<Longrightarrow>
    (b = Some (t, c) \<or> (\<exists>x \<in> set xs. eligible o' w x \<and> t = snd x \<and> map_of (conns w) (fst x) = Some c)) \<and>
    (\<forall>x \<in> set xs. eligible o' w x \<longrightarrow> load t \<le> load (snd x)) \<and> (\<forall>t' c'. b = Some (t', c') \<longrightarrow> load t \<le> load t')"
proof (induction xs arbitrary: b)
  case (Cons y ys)
  show ?case using Cons.IH Cons.prems
    by (cases rule: better_cases [of o' w y b]) (simp, fastforce)+
qed simp

lemma best_of_None: "best_of o' (conns w) xs b = None \<Longrightarrow> b = None \<and> (\<forall>x \<in> set xs. \<not> eligible o' w x)"
proof (induction xs arbitrary: b)
  case (Cons y ys)
  show ?case using Cons.prems
    by (cases rule: better_cases [of o' w y b]) (auto dest!: Cons.IH)
qed simp

definition faultless :: "db \<Rightarrow> bool" where
  "faultless d \<longleftrightarrow> (\<forall>n. \<not> fault (env d) n)"

lemma faultless_tick [simp]: "faultless (d\<lparr>tick := n\<rparr>) = faultless d"
  by (simp add: faultless_def)

lemma minerOwner_found:
  assumes "faultless d" "db_ok d" "r \<in> set (miners d)" "uuid_of (env d) mid = Some (m_id r)"
  shows "run_state (minerOwner mid) d = (m_owner r, bump d)"
proof -
  have "filter (\<lambda>x. m_id x = m_id r) (miners d) = [r]"
    by (rule keyed_filter_single [OF db_ok_keys(5) [OF assms(2)] assms(3)])
  then have "[m_owner m. m \<leftarrow> miners d, m_id m = m_id r] = [m_owner r]"
    by (simp add: select_where)
  then show ?thesis
    using assms by (simp add: minerOwner_def run_simps with_uuid_def faultless_def one_row_def)
qed

lemma GetWorker_found:
  assumes "faultless d" "db_ok d" "k \<in> set (workers d)" "uuid_of (env d) wid = Some (k_id k)"
  shows "run_state (GetWorker (k_owner k) wid) d = (Inr (scanWorker k), bump d)"
proof -
  have one: "filter (\<lambda>x. k_id x = k_id k) (workers d) = [k]"
    by (rule keyed_filter_single [OF db_ok_keys(7) [OF assms(2)] assms(3)])
  have "filter (\<lambda>x. k_id x = k_id k \<and> k_owner x = k_owner k) (workers d) = [k]"
    unfolding filter_filter [symmetric] one by simp
  then have "[scanWorker x. x \<leftarrow> workers d, k_id x = k_id k, k_owner x = k_owner k] = [scanWorker k]"
    by (simp add: select_where2)
  then show ?thesis
    using assms by (simp add: GetWorker_def run_simps with_uuid_def faultless_def one_row_def)
qed

lemma pick_target_run:
  assumes "faultless (wdb w)" "db_ok (wdb w)" "r \<in> set (miners (wdb w))" "uuid_of (env (wdb w)) mid = Some (m_id r)"
  shows "run_state (pick_target mid xs b) w =
    (best_of (m_owner r) (conns w) xs b, w\<lparr>wdb := (wdb w)\<lparr>tick := tick (wdb w) + length xs\<rparr>\<rparr>)"
  using assms
proof (induction xs arbitrary: b w)
  case (Cons x xs)
  let ?w = "w\<lparr>wdb := bump (wdb w)\<rparr>"
  have "run_state (pick_target mid xs b') ?w =
    (best_of (m_owner r) (conns ?w) xs b', ?w\<lparr>wdb := (wdb ?w)\<lparr>tick := tick (wdb ?w) + length xs\<rparr>\<rparr>)" for b'
    using Cons.prems by (intro Cons.IH) simp_all
  then show ?case using minerOwner_found [OF Cons.prems] by simp
qed simp

text \<open>What \<open>CreateSwarmJob\<close> adds when it succeeds.\<close>

definition new_job :: "string \<Rightarrow> string \<Rightarrow> string \<Rightarrow> int \<Rightarrow> job_row" where
  "new_job i m k now = \<lparr>j_id = i, j_miner = m, j_worker = k, j_assigned = now, j_ended = None, j_status = ''assigned''\<rparr>"

lemma CreateSwarmJob_Inr:
  assumes "run_state (CreateSwarmJob mid wid) d = (Inr i, t)" and "uuid_of (env d) mid = Some m" "uuid_of (env d) wid = Some k"
  shows "jobs t = jobs d @ [new_job i m k (db_now d)]"
  using assms by (auto simp: CreateSwarmJob_def inr_simps stmt_simps new_job_def)

lemma SetWorkerStatus_jobs [simp]: "jobs (snd (run_state (SetWorkerStatus a b) d)) = jobs d"
  by (rule only_jobs [OF relatesD [OF frame_SetWorkerStatus]]) simp

lemma send_True: "run_state (send c msg) w = (True, w') \<longleftrightarrow> c \<notin> set (shut w) \<and> \<not> net_fail w (writes w) \<and>
  w' = w\<lparr>writes := Suc (writes w), outbox := outbox w @ [(c, msg)]\<rparr>"
  by (auto simp: run_send)

lemma set_map_range [simp]: "set (map_range w m) = set m"
  by (simp add: map_range_def)

lemma length_map_range [simp]: "length (map_range w m) = length m"
  by (simp add: map_range_def)

lemma Assign_runs:
  assumes "faultless (wdb w)" "db_ok (wdb w)" "r \<in> set (miners (wdb w))" "uuid_of (env (wdb w)) (mn_id mn) = Some (m_id r)"
    and run: "run_state (Assign mn cur addr) w = (True, w')"
  obtains t c n k jobID where "best_of (m_owner r) (conns w) (map_range w (live w)) None = Some (t, c)"
    "k \<in> set (workers (wdb w))" "k_owner k = m_owner r" "uuid_of (env (wdb w)) (lw_id t) = Some (k_id k)"
    "c \<notin> set (shut w)"
    "jobs (wdb w') = jobs (wdb w) @ [new_job jobID (m_id r) (k_id k) (db_now ((wdb w)\<lparr>tick := n\<rparr>))]"
    "outbox w' = outbox w @ [(c, JobAssign (engine_payload jobID mn cur addr (scanWorker k) (lw_id t)))]"
proof -
  let ?n = "tick (wdb w) + length (live w)"
  let ?w = "w\<lparr>wdb := (wdb w)\<lparr>tick := ?n\<rparr>\<rparr>"
  let ?d = "(wdb w)\<lparr>tick := Suc ?n\<rparr>" and ?e = "(wdb w)\<lparr>tick := Suc (Suc ?n)\<rparr>"
  have own: "fst (run_state (minerOwner (mn_id mn)) ((wdb w)\<lparr>tick := ?n\<rparr>)) = m_owner r"
    using minerOwner_found [of "(wdb w)\<lparr>tick := ?n\<rparr>" r "mn_id mn"] assms(1-4) by simp
  note run = run [unfolded Assign_def]
  obtain t c where best: "best_of (m_owner r) (conns w) (map_range w (live w)) None = Some (t, c)"
    using run by (cases "best_of (m_owner r) (conns w) (map_range w (live w)) None")
      (auto simp: pick_target_run [OF assms(1-4)])
  note at = pick_target_run [OF assms(1-4)] best own
  obtain k0 where k0: "fst (run_state (GetWorker (m_owner r) (lw_id t)) ?d) = Inr k0"
    using run by (cases "fst (run_state (GetWorker (m_owner r) (lw_id t)) ?d)") (simp_all add: at)
  then obtain k where k: "k \<in> set (workers (wdb w))" "k_owner k = m_owner r" "k0 = scanWorker k"
    and u: "uuid_of (env (wdb w)) (lw_id t) = Some (k_id k)"
    by (rule GetWorker_row) simp
  obtain jobID where j: "fst (run_state (CreateSwarmJob (mn_id mn) (lw_id t)) ?e) = Inr jobID"
    using run by (cases "fst (run_state (CreateSwarmJob (mn_id mn) (lw_id t)) ?e)") (simp_all add: at k0)
  let ?v = "w\<lparr>wdb := snd (run_state (CreateSwarmJob (mn_id mn) (lw_id t)) ?e)\<rparr>"
  have "jobs (wdb ?v) = jobs (wdb w) @ [new_job jobID (m_id r) (k_id k) (db_now ?e)]"
    using CreateSwarmJob_Inr [of "mn_id mn" "lw_id t" ?e jobID "wdb ?v" "m_id r" "k_id k"] assms(4) u j
    by (simp add: prod_eq_iff)
  moreover obtain ok x where s: "run_state (send c (JobAssign (engine_payload jobID mn cur addr k0 (lw_id t)))) ?v = (ok, x)"
    by fastforce
  moreover have ok using run s by (cases ok) (simp_all add: at k0 j)
  moreover have "w' = x\<lparr>wdb := snd (run_state (SetWorkerStatus (lw_id t) ''assigned'') (wdb x))\<rparr>"
    using run s \<open>ok\<close> by (simp add: at k0 j)
  ultimately show thesis
    using that [OF best k(1,2) u, of jobID "Suc (Suc ?n)"] by (simp add: k(3) send_True)
qed

lemma Assign_finds:
  assumes "hub_good w" and "faultless (wdb w)" and "r \<in> set (miners (wdb w))"
    and "uuid_of (env (wdb w)) (mn_id mn) = Some (m_id r)" and "canonical (wdb w)"
    and rows: "\<forall>x \<in> set (live w). \<exists>k \<in> set (workers (wdb w)). k_id k = fst x \<and> k_owner k = lw_owner (snd x)"
    and "\<forall>x \<in> set (conns w). snd x \<notin> set (shut w)" and "\<forall>n. \<not> net_fail w n"
    and "\<forall>n. fresh_uuid (env (wdb w)) n \<notin> j_id ` set (jobs (wdb w))"
    and some: "x \<in> set (live w)" "eligible (m_owner r) w x"
  shows "fst (run_state (Assign mn cur addr) w) = True"
proof -
  have ok: "hub_ok w" and d: "db_ok (wdb w)"
    using assms(1) by (auto simp: hub_good_def owned_def tenant_ok_def)
  let ?n = "tick (wdb w) + length (live w)"
  let ?d = "(wdb w)\<lparr>tick := Suc ?n\<rparr>" and ?e = "(wdb w)\<lparr>tick := Suc (Suc ?n)\<rparr>"
  have own: "fst (run_state (minerOwner (mn_id mn)) ((wdb w)\<lparr>tick := ?n\<rparr>)) = m_owner r"
    using minerOwner_found [of "(wdb w)\<lparr>tick := ?n\<rparr>" r "mn_id mn"] assms(2,3,4) d by simp
  obtain t c where best: "best_of (m_owner r) (conns w) (map_range w (live w)) None = Some (t, c)"
    using best_of_None [of "m_owner r" w "map_range w (live w)" None] some
    by (cases "best_of (m_owner r) (conns w) (map_range w (live w)) None") auto
  note at = pick_target_run [OF assms(2) d assms(3,4)] best own
  obtain y where y: "y \<in> set (live w)" "eligible (m_owner r) w y" "t = snd y" "map_of (conns w) (fst y) = Some c"
    using best_of_Some [OF best] by auto
  have id: "lw_id t = fst y" using ok y(1,3) by (simp add: hub_ok_def)
  obtain k where k: "k \<in> set (workers (wdb w))" "k_id k = fst y" "k_owner k = m_owner r"
    using rows y(1,2) by (auto simp: eligible_def)
  have u: "uuid_of (env (wdb w)) (fst y) = Some (k_id k)" using assms(5) k(1,2) by (auto simp: canonical_def)
  have g: "fst (run_state (GetWorker (m_owner r) (fst y)) ?d) = Inr (scanWorker k)"
    using GetWorker_found [of ?d k "fst y"] assms(2) d k(1,3) u by simp
  have j: "fst (run_state (CreateSwarmJob (mn_id mn) (fst y)) ?e) = Inr (fresh_uuid (env (wdb w)) (Suc (Suc ?n)))"
    using assms(2,4,9) u k(1) assms(3)
    by (auto simp: CreateSwarmJob_def run_simps faultless_def with_uuid_def with_new_id_def require_def new_uuid_def)
  have "c \<notin> set (shut w)" using assms(7) map_of_SomeD [OF y(4)] by force
  then show ?thesis
    using g j assms(8) by (simp add: Assign_def at id run_send)
qed

lemma hub_world_faultless: "faultless (wdb hub_world)"
  by (simp add: faultless_def hub_data)

lemma hub_world_eligible:
  "eligible (m_owner (sample_miner ''q'' ''a'' ''queued'')) hub_world (''k'', sample_live ''k'' ''a'' [(''j'', ''m'')])"
  by (simp add: eligible_def hub_data)

definition queued_miner :: miner where
  "queued_miner = scanMiner (sample_miner ''q'' ''a'' ''queued'') (coin ''c1'' ''XMR'')"

lemma queued_miner_row: "sample_miner ''q'' ''a'' ''queued'' \<in> set (miners (wdb hub_world))"
  "uuid_of (env (wdb hub_world)) (mn_id queued_miner) = Some (m_id (sample_miner ''q'' ''a'' ''queued''))"
  by (simp_all add: hub_world_def hub_db_def queued_miner_def scanMiner_def sample_data)

lemma hub_world_ready:
  "\<forall>x \<in> set (live hub_world). \<exists>k \<in> set (workers (wdb hub_world)). k_id k = fst x \<and> k_owner k = lw_owner (snd x)"
  "\<forall>x \<in> set (conns hub_world). snd x \<notin> set (shut hub_world)" "\<forall>n. \<not> net_fail hub_world n"
  "\<forall>n. fresh_uuid (env (wdb hub_world)) n \<notin> j_id ` set (jobs (wdb hub_world))"
  "(''k'', sample_live ''k'' ''a'' [(''j'', ''m'')]) \<in> set (live hub_world)"
  by (simp_all add: hub_data)

lemmas hub_world_assign = hub_world_good hub_world_faultless queued_miner_row hub_world_canonical
  hub_world_ready hub_world_eligible

text \<open>C13. When \<open>Assign\<close> reports success, the miner is on a connected native worker of the miner's owner that
  has the fewest jobs among the connected native workers of that owner; exactly one job was added, for
  this miner and worker, and exactly one message was sent, the assignment, on that worker's connection.\<close>

theorem Assign_placed:
  assumes "hub_good w" and "faultless (wdb w)" and "r \<in> set (miners (wdb w))"
    and "uuid_of (env (wdb w)) (mn_id mn) = Some (m_id r)" and "canonical (wdb w)"
    and "run_state (Assign mn cur addr) w = (True, w')"
  shows "\<exists>k c l jobID now. k \<in> set (workers (wdb w)) \<and> k_owner k = m_owner r \<and>
     map_of (conns w) (lw_id l) = Some c \<and> c \<notin> set (shut w) \<and> map_of (live w) (lw_id l) = Some l \<and>
     lw_owner l = m_owner r \<and> lw_kind l \<noteq> ''browser'' \<and> uuid_of (env (wdb w)) (lw_id l) = Some (k_id k) \<and>
     (\<forall>x \<in> set (live w). eligible (m_owner r) w x \<longrightarrow> length (lw_jobs l) \<le> length (lw_jobs (snd x))) \<and>
     jobs (wdb w') = jobs (wdb w) @ [new_job jobID (m_id r) (k_id k) now] \<and>
     outbox w' = outbox w @ [(c, JobAssign (engine_payload jobID mn cur addr (scanWorker k) (lw_id l)))]"
proof -
  have ok: "hub_ok w" and d: "db_ok (wdb w)"
    using assms(1) by (auto simp: hub_good_def owned_def tenant_ok_def)
  obtain t c n k jobID where *: "best_of (m_owner r) (conns w) (map_range w (live w)) None = Some (t, c)"
    "k \<in> set (workers (wdb w))" "k_owner k = m_owner r" "uuid_of (env (wdb w)) (lw_id t) = Some (k_id k)"
    "c \<notin> set (shut w)"
    "jobs (wdb w') = jobs (wdb w) @ [new_job jobID (m_id r) (k_id k) (db_now ((wdb w)\<lparr>tick := n\<rparr>))]"
    "outbox w' = outbox w @ [(c, JobAssign (engine_payload jobID mn cur addr (scanWorker k) (lw_id t)))]"
    using Assign_runs [OF assms(2) d assms(3,4,6)] by metis
  obtain x where x: "x \<in> set (live w)" "eligible (m_owner r) w x" "t = snd x" "map_of (conns w) (fst x) = Some c"
    using best_of_Some [OF *(1)] by auto
  have "map_of (live w) (fst x) = Some t"
    using ok x(1,3) by (simp add: hub_ok_def)
  moreover have "lw_id t = fst x" using ok \<open>map_of (live w) (fst x) = Some t\<close> by (simp add: hub_ok_def)
  moreover have "\<forall>x \<in> set (live w). eligible (m_owner r) w x \<longrightarrow> load t \<le> load (snd x)"
    using best_of_Some [OF *(1)] by simp
  ultimately show ?thesis
    using * x(2-4) by (intro exI [of _ k] exI [of _ c] exI [of _ t] exI [of _ jobID]
        exI [of _ "db_now ((wdb w)\<lparr>tick := n\<rparr>)"]) (auto simp: eligible_def)
qed

theorem Assign_placed_witness:
  "map (\<lambda>j. (j_miner j, j_worker j)) (jobs (wdb (snd (run_state (Assign queued_miner (coin ''c1'' ''XMR'') ''4addr'') hub_world)))) =
    [(''m'', ''k''), (''q'', ''k'')]"
proof -
  let ?w = "snd (run_state (Assign queued_miner (coin ''c1'' ''XMR'') ''4addr'') hub_world)"
  have "fst (run_state (Assign queued_miner (coin ''c1'' ''XMR'') ''4addr'') hub_world) = True"
    by (rule Assign_finds [OF hub_world_assign])
  then have "run_state (Assign queued_miner (coin ''c1'' ''XMR'') ''4addr'') hub_world = (True, ?w)"
    by (metis prod.collapse)
  from Assign_placed [OF hub_world_good hub_world_faultless queued_miner_row hub_world_canonical this]
  obtain k i now where "k \<in> set (workers (wdb hub_world))" "k_owner k = ''a''"
    "jobs (wdb ?w) = jobs (wdb hub_world) @ [new_job i ''q'' (k_id k) now]"
    by (auto simp: sample_miner_def)
  then show ?thesis by (auto simp: hub_data new_job_def)
qed

text \<open>C14. A queued miner does not starve: when the database and the network do not fail, every live worker
  has its row and an open connection, and some native worker of the owner is connected, \<open>Assign\<close> succeeds.\<close>

theorem Assign_succeeds:
  assumes "hub_good w" and "faultless (wdb w)" and "r \<in> set (miners (wdb w))"
    and "uuid_of (env (wdb w)) (mn_id mn) = Some (m_id r)" and "canonical (wdb w)"
    and rows: "\<forall>x \<in> set (live w). \<exists>k \<in> set (workers (wdb w)). k_id k = fst x \<and> k_owner k = lw_owner (snd x)"
    and "\<forall>x \<in> set (conns w). snd x \<notin> set (shut w)" and "\<forall>n. \<not> net_fail w n"
    and "\<forall>n. fresh_uuid (env (wdb w)) n \<notin> j_id ` set (jobs (wdb w))"
    and some: "x \<in> set (live w)" "eligible (m_owner r) w x"
  shows "fst (run_state (Assign mn cur addr) w) = True"
  by (rule Assign_finds [OF assms])

theorem Assign_succeeds_witness:
  "fst (run_state (Assign queued_miner (coin ''c1'' ''XMR'') ''4addr'') hub_world) = True"
  by (rule Assign_succeeds [OF hub_world_assign])

end
