(* ===== verification/HubCounters.thy ===== *)
theory HubCounters
  imports HubInv HubSamples
begin

text \<open>
  The hub's bookkeeping for a job: share counters that survive restarts of the engine.
\<close>

subsection \<open>Share counters\<close>

text \<open>
  The reference: an engine reports cumulative counts; a count below the previous one means that the
  engine has restarted at zero. The shares of a job are the increments, in unbounded integers.
\<close>

fun shares_since :: "int \<Rightarrow> int list \<Rightarrow> int" where
  "shares_since prev [] = 0"
| "shares_since prev (x # xs) = (if x < prev then x else x - prev) + shares_since x xs"

lemma shares_since_nonneg: "\<forall>x \<in> set xs. 0 \<le> x \<Longrightarrow> 0 \<le> shares_since prev xs"
  by (induction prev xs rule: shares_since.induct) auto

lemma shares_since_mono: "sorted (prev # xs) \<Longrightarrow> shares_since prev xs = last (prev # xs) - prev"
  by (induction prev xs rule: shares_since.induct) auto

lemma sint_range: "- (2 ^ 63) \<le> sint (a :: i64)" "sint (a :: i64) < 2 ^ 63"
  using sint_ge [of a] sint_lt [of a] by simp_all

lemma sint_plus: "- (2 ^ 63) \<le> sint a + sint b \<Longrightarrow> sint a + sint b < 2 ^ 63 \<Longrightarrow> sint (a + b) = sint a + sint b"
  for a b :: i64
  unfolding sint_word_ariths by (rule signed_take_bit_int_eq_self) simp_all

lemma sint_minus: "- (2 ^ 63) \<le> sint a - sint b \<Longrightarrow> sint a - sint b < 2 ^ 63 \<Longrightarrow> sint (a - b) = sint a - sint b"
  for a b :: i64
  unfolding sint_word_ariths by (rule signed_take_bit_int_eq_self) simp_all

lemma sint_delta:
  assumes "0 \<le> sint a" "0 \<le> sint b"
  shows "sint (delta a b) = (if sint a < sint b then sint a else sint a - sint b)"
proof -
  have "sint (a - b) = sint a - sint b" using assms sint_range by (intro sint_minus) (smt (verit))+
  then show ?thesis by (simp add: delta_def word_sless_alt)
qed

lemma counts:
  assumes "\<forall>x \<in> set xs. 0 \<le> sint (fst x)" and "0 \<le> sint (js_last_acc js)" and "0 \<le> sint (js_tot_acc js)"
    and "sint (js_tot_acc js) + shares_since (sint (js_last_acc js)) (map (\<lambda>x. sint (fst x)) xs) < 2 ^ 63"
  shows "sint (js_tot_acc (fold (\<lambda>(a, r). count_report a r) xs js)) =
    sint (js_tot_acc js) + shares_since (sint (js_last_acc js)) (map (\<lambda>x. sint (fst x)) xs)"
  using assms
proof (induction xs arbitrary: js)
  case (Cons x xs)
  let ?d = "delta (fst x) (js_last_acc js)" and ?js = "count_report (fst x) (snd x) js"
  have rest: "0 \<le> shares_since (sint (fst x)) (map (\<lambda>x. sint (fst x)) xs)"
    using Cons.prems(1) by (intro shares_since_nonneg) auto
  have d: "sint ?d = (if sint (fst x) < sint (js_last_acc js) then sint (fst x) else sint (fst x) - sint (js_last_acc js))"
    using Cons.prems(1,2) by (intro sint_delta) simp_all
  then have "0 \<le> sint ?d" using Cons.prems(1) by auto
  have "sint (js_tot_acc js + ?d) = sint (js_tot_acc js) + sint ?d"
    using Cons.prems(3,4) \<open>0 \<le> sint ?d\<close> rest d by (intro sint_plus) (auto split: if_splits)
  then have tot: "sint (js_tot_acc ?js) = sint (js_tot_acc js) + sint ?d" and last: "js_last_acc ?js = fst x"
    by (simp_all add: count_report_def)
  have "sint (js_tot_acc (fold (\<lambda>(a, r). count_report a r) xs ?js)) =
    sint (js_tot_acc ?js) + shares_since (sint (js_last_acc ?js)) (map (\<lambda>x. sint (fst x)) xs)"
    using Cons.prems \<open>0 \<le> sint ?d\<close> d by (intro Cons.IH) (auto simp: tot last split: if_splits)
  then show ?case using d unfolding tot last by (cases x) simp
qed simp

lemma ActiveJob_found:
  assumes "\<And>n. \<not> fault (env d) n" "db_ok d" "j \<in> set (jobs d)" "j_ended j = None"
    and "uuid_of (env d) jobID = Some (j_id j)" "uuid_of (env d) wid = Some (j_worker j)"
  shows "run_state (ActiveJobForWorker jobID wid) d = (Inr (scanJob j), bump d)"
proof -
  have one: "filter (\<lambda>x. j_id x = j_id j) (jobs d) = [j]"
    by (rule keyed_filter_single [OF db_ok_keys(9) [OF assms(2)] assms(3)])
  have "filter (\<lambda>x. j_id x = j_id j \<and> j_worker x = j_worker j \<and> j_ended x = None) (jobs d) = [j]"
    using assms(4) one by (simp flip: filter_filter)
  then show ?thesis
    using assms by (simp add: ActiveJobForWorker_def run_simps with_uuid_def select_where3 one_row_def)
qed

text \<open>The job is active, on this worker: its reports are counted.\<close>

definition active_on :: "string \<Rightarrow> string \<Rightarrow> job_row \<Rightarrow> db \<Rightarrow> bool" where
  "active_on jobID wid j d \<longleftrightarrow> (\<forall>n. \<not> fault (env d) n) \<and> db_ok d \<and> j \<in> set (jobs d) \<and> j_ended j = None \<and>
     uuid_of (env d) jobID = Some (j_id j) \<and> uuid_of (env d) wid = Some (j_worker j)"

lemma active_on_sample: "active_on jobID wid j d \<Longrightarrow> active_on jobID wid j (snd (run_state (InsertMetricSample a b h x y) d))"
  using keepsD [OF ok_InsertMetricSample, of d a b h x y] relatesD [OF frame_InsertMetricSample, of d a b h x y]
  by (simp add: active_on_def only_def)

lemma active_on_tick [simp]: "active_on jobID wid j (d\<lparr>tick := n\<rparr>) = active_on jobID wid j d"
  by (simp add: active_on_def)

lemma handleMetrics_counts:
  assumes "active_on jobID wid j (wdb w)" and "map_of (jstates w) jobID = Some js"
  shows "map_of (jstates (snd (run_state (handleMetrics wid o' jobID h a r) w))) jobID = Some (count_report a r js)"
    and "active_on jobID wid j (wdb (snd (run_state (handleMetrics wid o' jobID h a r) w)))"
proof -
  have act: "run_state (ActiveJobForWorker jobID wid) (wdb w) = (Inr (scanJob j), bump (wdb w))"
    using assms(1) by (intro ActiveJob_found) (simp_all add: active_on_def)
  show "map_of (jstates (snd (run_state (handleMetrics wid o' jobID h a r) w))) jobID = Some (count_report a r js)"
    and "active_on jobID wid j (wdb (snd (run_state (handleMetrics wid o' jobID h a r) w)))"
    using assms by (simp_all add: handleMetrics_def act active_on_sample)
qed

lemma reports_fold:
  assumes "active_on jobID wid j (wdb w)" and "map_of (jstates w) jobID = Some js"
  shows "map_of (jstates (snd (run_state (each xs (\<lambda>(h, a, r). handleMetrics wid o' jobID h a r)) w))) jobID =
    Some (fold (\<lambda>(a, r). count_report a r) (map snd xs) js)"
  using assms
proof (induction xs arbitrary: w js)
  case (Cons x xs)
  obtain h a r where x: "x = (h, a, r)" by (cases x) auto
  note next' = handleMetrics_counts [OF Cons.prems, of o' h a r]
  show ?case using Cons.IH [OF next'(2,1)]
    by (cases "run_state (handleMetrics wid o' jobID h a r) w") (simp add: x)
qed simp


lemma hub_world_active: "active_on ''j'' ''k'' sample_job (wdb hub_world)"
  using hub_db_ok(1) by (simp add: active_on_def hub_world_def) (simp add: hub_db_def sample_job_def sample_data)


end
