(* ===== verification/HubControl.thy ===== *)
theory HubControl
  imports HubInv HubSamples
begin

text \<open>
  Control from the server's side: cancelling a miner ends its jobs and its run; what has ended stays
  ended, so that late messages about it change nothing; the log of a worker is its last 20 lines;
  the statistics; and what becomes of a worker that reconnects.
\<close>

subsection \<open>Cancelling a miner\<close>

lemma jobs_ticks [simp]:
  "jobs (snd (run_state (runAvgHashrate m) d)) = jobs d" "runs (snd (run_state (runAvgHashrate m) d)) = runs d"
  "env (snd (run_state (runAvgHashrate m) d)) = env d"
  by (simp_all add: runAvgHashrate_def run_simps)

text \<open>The database after one turn of the loop of \<open>CancelMiner\<close>.\<close>

definition calm :: "db \<Rightarrow> bool" where
  "calm d \<longleftrightarrow> (\<forall>n. \<not> fault (env d) n) \<and> (\<forall>i \<in> j_id ` set (jobs d). uuid_of (env d) i = Some i)"

lemma end_job_run:
  assumes "\<forall>n. \<not> fault (env d) n" "uuid_of (env d) i = Some i"
  shows "snd (run_state (SetSwarmJobStatus i ''ended'') d) = bump (d\<lparr>jobs := upd_where (\<lambda>j. j_id j = i \<and> j_ended j = None)
     (\<lambda>j. j\<lparr>j_status := ''ended'', j_ended := Some (db_now d)\<rparr>) (jobs d)\<rparr>)"
  using assms by (simp add: SetSwarmJobStatus_def run_simps with_uuid_def)

lemma close_run_run:
  assumes "\<forall>n. \<not> fault (env d) n" "uuid_of (env d) mid = Some u"
  shows "snd (run_state (CloseRun mid reason avg acc rej) d) = bump (d\<lparr>runs := upd_where (open_run_of u)
     (\<lambda>r. r\<lparr>r_stopped := Some (db_now d), r_reason := Some reason, r_avg := Some avg, r_acc := acc, r_rej := rej\<rparr>) (runs d)\<rparr>)"
  using assms by (simp add: CloseRun_def run_simps with_uuid_def)

lemma closed_runs:
  assumes "\<And>r. r_stopped (g r) \<noteq> None"
  shows "\<forall>r \<in> set (runs (bump (d\<lparr>runs := upd_where (open_run_of u) g rs\<rparr>))). r_miner r = u \<longrightarrow> r_stopped r \<noteq> None"
proof (intro ballI impI)
  fix r assume "r \<in> set (runs (bump (d\<lparr>runs := upd_where (open_run_of u) g rs\<rparr>)))" "r_miner r = u"
  then have "r \<in> (\<lambda>r. if open_run_of u r then g r else r) ` set rs" by (simp add: set_upd_where del: if_image_distrib)
  then obtain r' where "r = (if open_run_of u r' then g r' else r')" by (rule imageE)
  then show "r_stopped r \<noteq> None" using assms \<open>r_miner r = u\<close> by (simp add: open_run_of_def split: if_splits)
qed

lemma cancel_job_wdb:
  "wdb (snd (run_state (cancel_job mid reason j) w)) =
     (let d = snd (run_state (SetSwarmJobStatus (sj_job j) ''ended'') (wdb w)); e = snd (run_state (runAvgHashrate mid) d) in
      snd (run_state (CloseRun mid reason (fst (run_state (runAvgHashrate mid) d))
        (case map_of (jstates w) (sj_job j) of None \<Rightarrow> 0 | Some js \<Rightarrow> js_tot_acc js)
        (case map_of (jstates w) (sj_job j) of None \<Rightarrow> 0 | Some js \<Rightarrow> js_tot_rej js)) e))"
  and cancel_job_jstates:
  "jstates (snd (run_state (cancel_job mid reason j) w)) = adel (sj_job j) (jstates w)"
  by (simp_all add: cancel_job_def run_send Let_def split: option.splits)

lemma cancel_job_db:
  fixes mid reason :: string
  assumes "calm (wdb w)" and "uuid_of (env (wdb w)) mid = Some u" and "uuid_of (env (wdb w)) (sj_job j) = Some (sj_job j)"
  defines "d \<equiv> wdb (snd (run_state (cancel_job mid reason j) w))"
  shows "\<exists>now. jobs d = upd_where (\<lambda>x. j_id x = sj_job j \<and> j_ended x = None)
      (\<lambda>x. x\<lparr>j_status := ''ended'', j_ended := Some now\<rparr>) (jobs (wdb w))"
    and "\<forall>r \<in> set (runs d). r_miner r = u \<longrightarrow> r_stopped r \<noteq> None" and "env d = env (wdb w)"
proof -
  have nf: "\<forall>n. \<not> fault (env (wdb w)) n" using assms(1) by (simp add: calm_def)
  let ?d = "snd (run_state (SetSwarmJobStatus (sj_job j) ''ended'') (wdb w))"
  let ?e = "snd (run_state (runAvgHashrate mid) ?d)"
  have d: "?d = bump ((wdb w)\<lparr>jobs := upd_where (\<lambda>x. j_id x = sj_job j \<and> j_ended x = None)
     (\<lambda>x. x\<lparr>j_status := ''ended'', j_ended := Some (db_now (wdb w))\<rparr>) (jobs (wdb w))\<rparr>)"
    by (rule end_job_run [OF nf assms(3)])
  have e: "env ?e = env (wdb w)" "jobs ?e = jobs ?d" by (simp_all add: d)
  note close = close_run_run [of ?e mid u, unfolded e(1), OF nf assms(2)]
  show "\<exists>now. jobs d = upd_where (\<lambda>x. j_id x = sj_job j \<and> j_ended x = None)
      (\<lambda>x. x\<lparr>j_status := ''ended'', j_ended := Some now\<rparr>) (jobs (wdb w))"
    unfolding d_def cancel_job_wdb Let_def close by (simp add: d) blast
  show "\<forall>r \<in> set (runs d). r_miner r = u \<longrightarrow> r_stopped r \<noteq> None"
    unfolding d_def cancel_job_wdb Let_def close db.select_convs db.update_convs by (rule closed_runs) simp
  show "env d = env (wdb w)"
    unfolding d_def cancel_job_wdb Let_def close by (simp add: d)
qed

lemma cancel_job_calm: "calm (wdb w) \<Longrightarrow> uuid_of (env (wdb w)) mid = Some u \<Longrightarrow>
  uuid_of (env (wdb w)) (sj_job j) = Some (sj_job j) \<Longrightarrow> calm (wdb (snd (run_state (cancel_job mid reason j) w)))"
proof -
  assume a: "calm (wdb w)" "uuid_of (env (wdb w)) mid = Some u" "uuid_of (env (wdb w)) (sj_job j) = Some (sj_job j)"
  obtain now where jobs: "jobs (wdb (snd (run_state (cancel_job mid reason j) w))) =
    upd_where (\<lambda>x. j_id x = sj_job j \<and> j_ended x = None) (\<lambda>x. x\<lparr>j_status := ''ended'', j_ended := Some now\<rparr>) (jobs (wdb w))"
    using cancel_job_db(1) [OF a] by blast
  have ids: "j_id ` set (jobs (wdb (snd (run_state (cancel_job mid reason j) w)))) = j_id ` set (jobs (wdb w))"
    unfolding jobs by (rule upd_where_image_same) simp
  show ?thesis using a(1) unfolding calm_def ids cancel_job_db(3) [OF a] .
qed

definition active_of :: "string \<Rightarrow> db \<Rightarrow> string set" where
  "active_of u d = {j_id j |j. j \<in> set (jobs d) \<and> j_miner j = u \<and> j_ended j = None}"

lemma active_of_cancel:
  assumes "calm (wdb w)" "uuid_of (env (wdb w)) mid = Some u" "uuid_of (env (wdb w)) (sj_job j) = Some (sj_job j)"
  shows "active_of u (wdb (snd (run_state (cancel_job mid reason j) w))) = active_of u (wdb w) - {sj_job j}"
proof -
  obtain now where jobs: "jobs (wdb (snd (run_state (cancel_job mid reason j) w))) =
    upd_where (\<lambda>x. j_id x = sj_job j \<and> j_ended x = None) (\<lambda>x. x\<lparr>j_status := ''ended'', j_ended := Some now\<rparr>) (jobs (wdb w))"
    using cancel_job_db(1) [OF assms] by blast
  show ?thesis unfolding active_of_def jobs by (auto simp: set_upd_where split: if_splits)
qed

lemma others_cancel:
  assumes "calm (wdb w)" "uuid_of (env (wdb w)) mid = Some u" "uuid_of (env (wdb w)) (sj_job j) = Some (sj_job j)"
    and own: "\<forall>x \<in> set (jobs (wdb w)). j_id x = sj_job j \<longrightarrow> j_miner x = u"
  shows "filter (\<lambda>x. j_miner x \<noteq> u) (jobs (wdb (snd (run_state (cancel_job mid reason j) w)))) =
    filter (\<lambda>x. j_miner x \<noteq> u) (jobs (wdb w))"
    and "map (\<lambda>x. (j_id x, j_miner x)) (jobs (wdb (snd (run_state (cancel_job mid reason j) w)))) =
      map (\<lambda>x. (j_id x, j_miner x)) (jobs (wdb w))"
proof -
  obtain now where jobs: "jobs (wdb (snd (run_state (cancel_job mid reason j) w))) =
    upd_where (\<lambda>x. j_id x = sj_job j \<and> j_ended x = None) (\<lambda>x. x\<lparr>j_status := ''ended'', j_ended := Some now\<rparr>) (jobs (wdb w))"
    using cancel_job_db(1) [OF assms(1-3)] by blast
  have "filter (\<lambda>x. j_miner x \<noteq> u) (upd_where (\<lambda>x. j_id x = sj_job j \<and> j_ended x = None)
      (\<lambda>x. x\<lparr>j_status := ''ended'', j_ended := Some now\<rparr>) xs) = filter (\<lambda>x. j_miner x \<noteq> u) xs"
    if "\<forall>x \<in> set xs. j_id x = sj_job j \<longrightarrow> j_miner x = u" for xs
    using that by (induction xs) (auto simp: upd_where_def)
  then show "filter (\<lambda>x. j_miner x \<noteq> u) (jobs (wdb (snd (run_state (cancel_job mid reason j) w)))) =
    filter (\<lambda>x. j_miner x \<noteq> u) (jobs (wdb w))" using own unfolding jobs by blast
  show "map (\<lambda>x. (j_id x, j_miner x)) (jobs (wdb (snd (run_state (cancel_job mid reason j) w)))) =
      map (\<lambda>x. (j_id x, j_miner x)) (jobs (wdb w))"
    unfolding jobs by (rule upd_where_map_same) simp
qed

lemma cancel_all:
  fixes mid reason :: string
  assumes "calm (wdb w)" "uuid_of (env (wdb w)) mid = Some u"
    and "\<forall>j \<in> set js. uuid_of (env (wdb w)) (sj_job j) = Some (sj_job j) \<and>
      (\<forall>x \<in> set (jobs (wdb w)). j_id x = sj_job j \<longrightarrow> j_miner x = u)"
  defines "w' \<equiv> snd (run_state (each js (cancel_job mid reason)) w)"
  shows "active_of u (wdb w') = active_of u (wdb w) - sj_job ` set js \<and>
    filter (\<lambda>x. j_miner x \<noteq> u) (jobs (wdb w')) = filter (\<lambda>x. j_miner x \<noteq> u) (jobs (wdb w)) \<and>
    (\<forall>j \<in> set js. map_of (jstates w') (sj_job j) = None) \<and>
    (js \<noteq> [] \<or> (\<forall>r \<in> set (runs (wdb w)). r_miner r = u \<longrightarrow> r_stopped r \<noteq> None) \<longrightarrow>
      (\<forall>r \<in> set (runs (wdb w')). r_miner r = u \<longrightarrow> r_stopped r \<noteq> None)) \<and>
    (\<forall>i. map_of (jstates w) i = None \<longrightarrow> map_of (jstates w') i = None)"
  using assms(1-3) unfolding w'_def
proof (induction js arbitrary: w)
  case (Cons j js)
  let ?v = "snd (run_state (cancel_job mid reason j) w)"
  have j: "uuid_of (env (wdb w)) (sj_job j) = Some (sj_job j)"
    "\<forall>x \<in> set (jobs (wdb w)). j_id x = sj_job j \<longrightarrow> j_miner x = u" using Cons.prems(3) by simp_all
  note one = cancel_job_db(2,3) [OF Cons.prems(1,2) j(1), of reason]
  note ids = others_cancel [OF Cons.prems(1,2) j, of reason]
  have own: "\<forall>x \<in> set (jobs (wdb ?v)). j_id x = i \<longrightarrow> j_miner x = u"
    if "\<forall>x \<in> set (jobs (wdb w)). j_id x = i \<longrightarrow> j_miner x = u" for i
  proof (intro ballI impI)
    fix x assume x: "x \<in> set (jobs (wdb ?v))" "j_id x = i"
    then have "(i, j_miner x) \<in> set (map (\<lambda>x. (j_id x, j_miner x)) (jobs (wdb w)))"
      unfolding ids(2) [symmetric] by force
    then show "j_miner x = u" using that by auto
  qed
  have "\<forall>j \<in> set js. uuid_of (env (wdb ?v)) (sj_job j) = Some (sj_job j) \<and>
      (\<forall>x \<in> set (jobs (wdb ?v)). j_id x = sj_job j \<longrightarrow> j_miner x = u)"
    using Cons.prems(3) unfolding one(2) by (intro ballI conjI own) simp_all
  note rest = Cons.IH [OF cancel_job_calm [OF Cons.prems(1,2) j(1)] _ this, unfolded one(2), OF Cons.prems(2)]
  have "active_of u (wdb (snd (run_state (each js (cancel_job mid reason)) ?v))) =
    active_of u (wdb w) - sj_job ` set (j # js)"
    using rest active_of_cancel [OF Cons.prems(1,2) j(1), of reason] by auto
  then show ?case using rest ids(1) one(1) cancel_job_jstates [of mid reason j w] by (auto split: prod.splits)
qed simp

lemma CancelMiner_effect:
  assumes "calm (wdb w)" and "db_ok (wdb w)" and "uuid_of (env (wdb w)) mid = Some u"
    and "run_state (CancelMiner mid reason) w = (x, w')"
  shows "(\<forall>j \<in> set (jobs (wdb w')). j_miner j = u \<longrightarrow> j_ended j \<noteq> None) \<and>
     (\<forall>j \<in> set (jobs (wdb w)). j_miner j = u \<longrightarrow> j_ended j = None \<longrightarrow> map_of (jstates w') (j_id j) = None) \<and>
     ((\<exists>j \<in> set (jobs (wdb w)). j_miner j = u \<and> j_ended j = None) \<longrightarrow>
        (\<forall>r \<in> set (runs (wdb w')). r_miner r = u \<longrightarrow> r_stopped r \<noteq> None)) \<and>
     filter (\<lambda>j. j_miner j \<noteq> u) (jobs (wdb w')) = filter (\<lambda>j. j_miner j \<noteq> u) (jobs (wdb w))"
proof (intro conjI)
  let ?rows = "filter (\<lambda>j. j_miner j = u \<and> j_ended j = None) (jobs (wdb w))"
  let ?w = "w\<lparr>wdb := bump (wdb w)\<rparr>"
  let ?js = "unordered (wdb w) (map scanJob ?rows)"
  have comp: "[scanJob j. j \<leftarrow> xs, j_miner j = u, j_ended j = None] =
      map scanJob (filter (\<lambda>j. j_miner j = u \<and> j_ended j = None) xs)" for xs
    by (induction xs) auto
  have "run_state (ActiveJobsForMiner mid) (wdb w) = (Inr ?js, bump (wdb w))"
    using assms(1,3) by (simp add: ActiveJobsForMiner_def run_simps with_uuid_def calm_def comp)
  then have w': "w' = snd (run_state (each ?js (cancel_job mid reason)) ?w)"
    using assms(4) by (simp add: CancelMiner_def split: prod.splits)
  have ids: "sj_job ` set ?js = j_id ` set ?rows" by (simp add: image_image scanJob_def)
  have rows: "\<forall>j \<in> set ?js. uuid_of (env (wdb ?w)) (sj_job j) = Some (sj_job j) \<and>
      (\<forall>x \<in> set (jobs (wdb ?w)). j_id x = sj_job j \<longrightarrow> j_miner x = u)"
    using assms(1) distinct_map_eqD [OF db_ok_keys(9) [OF assms(2)]] by (auto simp: calm_def scanJob_def)
  have calm: "calm (wdb ?w)" using assms(1) by (simp add: calm_def)
  have uid: "uuid_of (env (wdb ?w)) mid = Some u" using assms(3) by simp
  note all = cancel_all [OF calm uid rows, of reason, folded w']
  have act: "active_of u (wdb ?w) = j_id ` set ?rows" by (auto simp: active_of_def)
  then have "active_of u (wdb w') = {}" using all ids by simp
  then show "\<forall>j \<in> set (jobs (wdb w')). j_miner j = u \<longrightarrow> j_ended j \<noteq> None" by (auto simp: active_of_def)
  show "filter (\<lambda>j. j_miner j \<noteq> u) (jobs (wdb w')) = filter (\<lambda>j. j_miner j \<noteq> u) (jobs (wdb w))"
    using all by simp
  show "\<forall>j \<in> set (jobs (wdb w)). j_miner j = u \<longrightarrow> j_ended j = None \<longrightarrow> map_of (jstates w') (j_id j) = None"
    using all by (auto simp: scanJob_def)
  show "(\<exists>j \<in> set (jobs (wdb w)). j_miner j = u \<and> j_ended j = None) \<longrightarrow>
      (\<forall>r \<in> set (runs (wdb w')). r_miner r = u \<longrightarrow> r_stopped r \<noteq> None)"
    using all by (auto simp: filter_empty_conv)
qed

text \<open>Cancelling writes to the jobs and the runs only.\<close>

definition jobs_runs_only :: "world \<Rightarrow> world \<Rightarrow> bool" where
  "jobs_runs_only w w' \<longleftrightarrow> only {Jobs, Runs} (wdb w) (wdb w')"

lemma jobs_runs_only_order [simp, relates_intros]: "reflp jobs_runs_only" "transp jobs_runs_only"
  by (auto simp: jobs_runs_only_def reflp_def transp_def intro: reflpD [OF only_reflp] transpD [OF only_transp])

lemma on_db_jobs_runs [relates_intros]: "relates (only {Jobs, Runs}) m \<Longrightarrow> relates jobs_runs_only (on_db m)"
  by (rule relates_zoom) (auto simp: jobs_runs_only_def)

lemma relates_only: "relates (only T) m \<Longrightarrow> T \<subseteq> U \<Longrightarrow> relates (only U) m"
  by (auto simp: relates_def intro: only_mono)

lemmas jobs_runs_frames = relates_only [OF frame_SetSwarmJobStatus, of "{Jobs, Runs}", simplified]
  relates_only [OF frame_CloseRun, of "{Jobs, Runs}", simplified]

lemma hub_jobs_runs [relates_intros]: "(\<And>w. wdb (f w) = wdb w) \<Longrightarrow> relates jobs_runs_only (modify f)"
  "relates jobs_runs_only (send c msg)"
  by (auto intro!: relatesI simp: jobs_runs_only_def send_def reflpD [OF only_reflp])

lemma CancelMiner_frame: "relates jobs_runs_only (CancelMiner i reason)"
  unfolding CancelMiner_def cancel_job_def ActiveJobsForMiner_def runAvgHashrate_def
  by (intro relates_intros jobs_runs_frames) simp_all


lemma hub_world_calm: "calm (wdb hub_world)"
  by (simp add: calm_def hub_data)


subsection \<open>What has ended stays ended\<close>

text \<open>C17. Once a job has ended, no later call (short of deletions, which may free its id) makes it active
  again: an acknowledgement or a report that names it finds no job and changes neither the jobs, the
  miners nor the counters.\<close>

theorem ended_job_is_dead:
  assumes "db_ok d" and "j \<in> set (jobs d)" and "j_ended j \<noteq> None" and "(db_call False)\<^sup>*\<^sup>* d (wdb w)"
    and "uuid_of (env (wdb w)) jobID = Some (j_id j)"
  shows "snd (run_state (handleAck wid o' jobID st err) w) = w\<lparr>wdb := bump (wdb w)\<rparr> \<and>
     snd (run_state (handleMetrics wid o' jobID h acc rej) w) = w\<lparr>wdb := bump (wdb w)\<rparr>"
proof (intro conjI)
  obtain j' where j': "j' \<in> set (jobs (wdb w))" "same_job j j'"
    using calls_jobs [OF assms(4)] assms(2) by (auto simp: continued_def)
  have ended: "j_ended x \<noteq> None" if "x \<in> set (jobs (wdb w))" "j_id x = j_id j" for x
    using distinct_map_eqD [OF db_ok_keys(9) [OF calls_ok [OF assms(4,1)]] that(1) j'(1)] j'(2) that(2) assms(3)
    by (simp add: same_job_def)
  have "filter (\<lambda>x. j_id x = j_id j \<and> j_worker x = k \<and> j_ended x = None) (jobs (wdb w)) = []" for k
    using ended by (auto simp: filter_empty_conv simp del: not_None_eq)
  then have "isl (fst (run_state (ActiveJobForWorker jobID wid) (wdb w)))"
    using assms(5) by (simp add: ActiveJobForWorker_def run_simps with_uuid_def select_where3 one_row_def split: option.splits)
  moreover have "snd (run_state (ActiveJobForWorker jobID wid) (wdb w)) = bump (wdb w)"
    by (simp add: ActiveJobForWorker_def run_simps)
  ultimately obtain e where "run_state (ActiveJobForWorker jobID wid) (wdb w) = (Inl e, bump (wdb w))"
    by (metis isl_def prod.collapse)
  then show "snd (run_state (handleAck wid o' jobID st err) w) = w\<lparr>wdb := bump (wdb w)\<rparr>"
    and "snd (run_state (handleMetrics wid o' jobID h acc rej) w) = w\<lparr>wdb := bump (wdb w)\<rparr>"
    by (simp_all add: handleAck_def handleMetrics_def)
qed

subsection \<open>Logs\<close>

definition log_line :: "(int \<Rightarrow> string) \<Rightarrow> int \<Rightarrow> string \<times> string \<Rightarrow> string" where
  "log_line stamp now x = stamp now @ '' ['' @ fst x @ ''] '' @ snd x"

lemma appendLog_logs:
  "WorkerLogs wid (snd (run_state (appendLog stamp wid lvl msg) w)) = push_log (log_line stamp (wall w) (lvl, msg)) (WorkerLogs wid w)"
  "wall (snd (run_state (appendLog stamp wid lvl msg) w)) = wall w"
  by (simp_all add: appendLog_def WorkerLogs_def log_line_def)

lemma logs_fold: "WorkerLogs wid (snd (run_state (each xs (\<lambda>(lvl, msg). appendLog stamp wid lvl msg)) w)) =
  fold push_log (map (log_line stamp (wall w)) xs) (WorkerLogs wid w)"
proof (induction xs arbitrary: w)
  case (Cons x xs)
  let ?v = "snd (run_state (appendLog stamp wid (fst x) (snd x)) w)"
  have "run_state (each (x # xs) (\<lambda>(lvl, msg). appendLog stamp wid lvl msg)) w =
    run_state (each xs (\<lambda>(lvl, msg). appendLog stamp wid lvl msg)) ?v"
    by (simp add: split_beta)
  then show ?case using Cons.IH [of ?v] by (simp add: appendLog_logs)
qed simp

text \<open>The log kept for a worker is the last 20 lines of everything it has logged, in order.\<close>

theorem WorkerLogs_tail:
  assumes "length (WorkerLogs wid w) \<le> 20"
    and "run_state (each xs (\<lambda>(lvl, msg). appendLog stamp wid lvl msg)) w = (x, w')"
  shows "WorkerLogs wid w' = drop (length (WorkerLogs wid w) + length xs - 20)
    (WorkerLogs wid w @ map (log_line stamp (wall w)) xs)"
  using worker_log.pushes_tail [OF assms(1), of "map (log_line stamp (wall w)) xs"] assms(2)
    logs_fold [of wid xs stamp w] by simp

theorem WorkerLogs_tail_witness:
  "WorkerLogs ''k'' (snd (run_state (each (replicate 25 (''info'', ''up'')) (\<lambda>(lvl, msg). appendLog (\<lambda>_. []) ''k'' lvl msg)) hub_world)) =
   replicate 20 '' [info] up''"
  by (subst WorkerLogs_tail [OF _ prod.collapse [symmetric]])
    (simp_all add: WorkerLogs_def hub_world_def log_line_def drop_replicate)

subsection \<open>Reconnection\<close>

text \<open>C19. A worker that reconnects is lost when its old connection ends: \<open>unregister\<close> goes by the worker's
  id, so the end of the replaced connection removes the entry of the new one, which stays open.\<close>

theorem reconnected_worker_lost:
  assumes "map_of (conns w) wid = Some c1" and "c2 \<noteq> c1" and "c2 \<notin> set (shut w)"
    and "run_state (do { register wid o' kind c2; ws_end wid c1 }) w = (x, w')"
  shows "\<not> Online wid w' \<and> map_of (live w') wid = None \<and> c2 \<notin> set (shut w')"
proof (intro conjI)
  have "w' = snd (run_state (do { register wid o' kind c2; ws_end wid c1 }) w)"
    using assms(4) by simp
  then show "\<not> Online wid w'" and "map_of (live w') wid = None" and "c2 \<notin> set (shut w')"
    using assms(1-3) by (simp_all add: register_def ws_end_def unregister_def Online_def split: option.splits)
qed

theorem reconnected_worker_lost_witness:
  "\<not> Online ''k'' (snd (run_state (do { register ''k'' ''a'' ''native'' 8; ws_end ''k'' 7 }) hub_world))"
  using reconnected_worker_lost [OF _ _ _ prod.collapse [symmetric], of hub_world "''k''" 7 8 "''a''" "''native''"]
  by (simp add: hub_world_def)

definition ended_db :: db where
  "ended_db = hub_db\<lparr>jobs := [sample_job\<lparr>j_ended := Some 1\<rparr>]\<rparr>"

theorem ended_job_is_dead_witness:
  "snd (run_state (handleAck ''k'' ''a'' ''j'' ''ok'' []) (hub_world\<lparr>wdb := ended_db\<rparr>)) = hub_world\<lparr>wdb := bump ended_db\<rparr>"
proof -
  have ok: "db_ok ended_db"
    by (simp add: db_ok_defs ended_db_def hub_data with_txid_def pct_ok_def)
  have j: "sample_job\<lparr>j_ended := Some 1\<rparr> \<in> set (jobs ended_db)" by (simp add: ended_db_def)
  have u: "uuid_of (env ended_db) ''j'' = Some ''j''" by (simp add: ended_db_def hub_data)
  show ?thesis
    using ended_job_is_dead [OF ok j, of "hub_world\<lparr>wdb := ended_db\<rparr>" "''j''" "''k''" "''a''" "''ok''" "[]"] u
    by (simp add: sample_job_def)
qed

subsection \<open>Statistics\<close>

text \<open>C18. The statistics of an owner list exactly the owner's workers; a revoked worker is shown as revoked
  and never counted online; the total rate is the sum of the rates of the workers listed.\<close>

theorem LiveStats_honest:
  assumes "\<forall>n. \<not> fault (env (wdb w)) n" and "run_state (LiveStats o') w = (st, w')"
  shows "mset (map lv_id (ls_workers st)) = mset (map k_id (filter (\<lambda>k. k_owner k = o') (workers (wdb w)))) \<and>
     ls_total st = length (filter (\<lambda>k. k_owner k = o') (workers (wdb w))) \<and>
     ls_online st = length (filter (\<lambda>v. lv_status v \<in> {''connected'', ''mining'', ''assigned''}) (ls_workers st)) \<and>
     ls_rate st = sum_list (map lv_rate (ls_workers st)) \<and>
     (\<forall>v \<in> set (ls_workers st). \<exists>k \<in> set (workers (wdb w)). k_id k = lv_id v \<and> k_owner k = o' \<and>
      (k_status k = ''revoked'' \<longrightarrow> lv_status v = ''revoked'') \<and>
      (\<forall>l. k_status k \<noteq> ''revoked'' \<longrightarrow> map_of (live w) (k_id k) = Some l \<longrightarrow>
        lv_rate v = lw_rate l \<and> lv_status v = (if lw_jobs l = [] then ''connected'' else ''mining'')))"
proof (intro conjI)
  have sel: "[scanWorker k. k \<leftarrow> ks, k_owner k = o'] = map scanWorker (filter (\<lambda>k. k_owner k = o') ks)" for ks
    by (induction ks) auto
  let ?ks = "order_by (wdb w) (\<lambda>k. - wk_enrolled k) (map scanWorker (filter (\<lambda>k. k_owner k = o') (workers (wdb w))))"
  have st: "st = \<lparr>ls_workers = map (worker_view (live w)) ?ks,
      ls_online = length (filter counts_online (map (worker_view (live w)) ?ks)), ls_total = length ?ks,
      ls_rate = sum_list (map lv_rate (map (worker_view (live w)) ?ks))\<rparr>"
    using assms by (auto simp: LiveStats_def ListWorkers_def run_simps sel Let_def)
  have id: "lv_id (worker_view ls k) = wk_id k" for ls k
    by (simp add: worker_view_def split: option.splits)
  have "mset (map lv_id (ls_workers st)) = image_mset wk_id (mset ?ks)"
    by (simp add: st id comp_def multiset.map_comp)
  also have "\<dots> = mset (map k_id (filter (\<lambda>k. k_owner k = o') (workers (wdb w))))"
    by (simp add: multiset.map_comp comp_def scanWorker_def)
  finally show "mset (map lv_id (ls_workers st)) = mset (map k_id (filter (\<lambda>k. k_owner k = o') (workers (wdb w))))" .
  have "length ?ks = length (map scanWorker (filter (\<lambda>k. k_owner k = o') (workers (wdb w))))"
    by (rule mset_eq_length) (rule mset_order_by)
  then show "ls_total st = length (filter (\<lambda>k. k_owner k = o') (workers (wdb w)))"
    by (simp add: st)
  show "ls_online st = length (filter (\<lambda>v. lv_status v \<in> {''connected'', ''mining'', ''assigned''}) (ls_workers st))"
    by (simp add: st counts_online_def [abs_def])
  show "ls_rate st = sum_list (map lv_rate (ls_workers st))" by (simp add: st)
  show "\<forall>v \<in> set (ls_workers st). (\<exists>k \<in> set (workers (wdb w)). k_id k = lv_id v \<and> k_owner k = o' \<and>
      (k_status k = ''revoked'' \<longrightarrow> lv_status v = ''revoked'') \<and>
      (\<forall>l. k_status k \<noteq> ''revoked'' \<longrightarrow> map_of (live w) (k_id k) = Some l \<longrightarrow>
        lv_rate v = lw_rate l \<and> lv_status v = (if lw_jobs l = [] then ''connected'' else ''mining'')))"
    by (auto simp: st worker_view_def scanWorker_def split: option.splits)
qed

theorem LiveStats_honest_witness:
  "ls_total (fst (run_state (LiveStats ''a'') hub_world)) = 1"
  using LiveStats_honest [OF _ prod.collapse [symmetric], of hub_world "''a''"] by (simp add: hub_data)

end
