(* ===== verification/Net.thy ===== *)
theory Net
  imports GoStrings
begin

text \<open>
  What the program uses of Go's \<open>net\<close>, \<open>net/url\<close> and \<open>strconv\<close>: splitting host and port, the parts of a
  URL, the classes of an address, and decimal numbers.
\<close>

subsection \<open>Host and port\<close>

definition index_char :: "char \<Rightarrow> string \<Rightarrow> nat option" where
  "index_char c s = (if c \<in> set s then Some (length (takeWhile (\<lambda>x. x \<noteq> c) s)) else None)"

definition last_index_char :: "char \<Rightarrow> string \<Rightarrow> nat option" where
  "last_index_char c s = (if c \<in> set s then Some (length s - 1 - length (takeWhile (\<lambda>x. x \<noteq> c) (rev s))) else None)"

text \<open>\<open>net.SplitHostPort\<close>: every failure is an error, none is told apart here.\<close>

definition SplitHostPort :: "string \<Rightarrow> (string \<times> string) option" where
  "SplitHostPort hp = (case last_index_char CHR '':'' hp of
     None \<Rightarrow> None
   | Some i \<Rightarrow>
       (if hp ! 0 = CHR ''['' then
          (case index_char CHR '']'' hp of
             None \<Rightarrow> None
           | Some e \<Rightarrow>
               if e + 1 \<noteq> i then None
               else if CHR ''['' \<in> set (drop 1 hp) \<or> CHR '']'' \<in> set (drop (e + 1) hp) then None
               else Some (take (e - 1) (drop 1 hp), drop (i + 1) hp))
        else
          (let host = take i hp in
           if CHR '':'' \<in> set host then None
           else if CHR ''['' \<in> set hp \<or> CHR '']'' \<in> set hp then None
           else Some (host, drop (i + 1) hp))))"

lemma takeWhile_notin: "c \<notin> set a \<Longrightarrow> takeWhile (\<lambda>x. x \<noteq> c) (a @ c # b) = a"
  by (subst takeWhile_append2) auto

lemma last_index_char_append: "c \<notin> set p \<Longrightarrow> last_index_char c (h @ c # p) = Some (length h)"
proof -
  assume "c \<notin> set p"
  then have "takeWhile (\<lambda>x. x \<noteq> c) (rev (h @ c # p)) = rev p"
    using takeWhile_notin [of c "rev p" "rev h"] by simp
  then show ?thesis by (simp add: last_index_char_def)
qed

definition host_name :: "string \<Rightarrow> bool" where
  "host_name h \<longleftrightarrow> set h \<inter> set '':[]/?#@%'' = {}"

lemma SplitHostPort_join:
  assumes "host_name h" "host_name p" "h \<noteq> []"
  shows "SplitHostPort (h @ '':'' @ p) = Some (h, p)"
proof -
  have c: "CHR '':'' \<notin> set h" "CHR '':'' \<notin> set p" "CHR ''['' \<notin> set h \<union> set p" "CHR '']'' \<notin> set h \<union> set p"
    using assms(1,2) by (auto simp: host_name_def)
  obtain x xs where h: "h = x # xs" "x \<noteq> CHR ''[''" using assms(3) c(3) by (cases h) auto
  show ?thesis
    using c last_index_char_append [OF c(2), of h] h(2)
    by (simp add: SplitHostPort_def Let_def h(1) nth_Cons')
qed

subsection \<open>Addresses\<close>

text \<open>An IP address as its bytes, 4 or 16; an IPv4 address may come in its 16-byte form.\<close>

type_synonym ip = "nat list"

definition To4 :: "ip \<Rightarrow> ip option" where
  "To4 a = (if length a = 4 then Some a
     else if length a = 16 \<and> take 10 a = replicate 10 0 \<and> take 2 (drop 10 a) = [255, 255] then Some (drop 12 a)
     else None)"

definition IsLoopback :: "ip \<Rightarrow> bool" where
  "IsLoopback a = (case To4 a of Some b \<Rightarrow> b ! 0 = 127 | None \<Rightarrow> a = replicate 15 0 @ [1])"

definition IsPrivate :: "ip \<Rightarrow> bool" where
  "IsPrivate a = (case To4 a of
     Some b \<Rightarrow> b ! 0 = 10 \<or> (b ! 0 = 172 \<and> b ! 1 div 16 = 1) \<or> (b ! 0 = 192 \<and> b ! 1 = 168)
   | None \<Rightarrow> length a = 16 \<and> a ! 0 div 2 = 126)"

definition IsLinkLocalUnicast :: "ip \<Rightarrow> bool" where
  "IsLinkLocalUnicast a = (case To4 a of
     Some b \<Rightarrow> b ! 0 = 169 \<and> b ! 1 = 254
   | None \<Rightarrow> length a = 16 \<and> a ! 0 = 254 \<and> a ! 1 div 64 = 2)"

definition IsUnspecified :: "ip \<Rightarrow> bool" where
  "IsUnspecified a \<longleftrightarrow> a = replicate 4 0 \<or> a = replicate 10 0 @ [255, 255] @ replicate 4 0 \<or> a = replicate 16 0"

subsection \<open>Numbers\<close>

definition digit :: "char \<Rightarrow> nat option" where
  "digit c = (let n = of_char c :: nat in if 48 \<le> n \<and> n \<le> 57 then Some (n - 48) else None)"

fun digits :: "int \<Rightarrow> string \<Rightarrow> int option" where
  "digits acc [] = Some acc"
| "digits acc (c # s) = (case digit c of None \<Rightarrow> None | Some d \<Rightarrow> digits (10 * acc + int d) s)"

text \<open>\<open>strconv.Atoi\<close>: \<open>None\<close> is a syntax error; a value out of range is clamped, with an error.\<close>

definition max_int :: int where
  "max_int = 2 ^ 63 - 1"

definition Atoi :: "string \<Rightarrow> (int \<times> bool)" where
  "Atoi s = (let (neg, t) = (case s of [] \<Rightarrow> (False, [])
       | c # r \<Rightarrow> if c = CHR ''-'' then (True, r) else if c = CHR ''+'' then (False, r) else (False, s)) in
     if t = [] then (0, False)
     else case digits 0 t of
       None \<Rightarrow> (0, False)
     | Some n \<Rightarrow> (let v = (if neg then - n else n) in
         if v > max_int then (max_int, False) else if v < - (2 ^ 63) then (- (2 ^ 63), False) else (v, True)))"

lemma digits_nonneg: "0 \<le> acc \<Longrightarrow> digits acc s = Some n \<Longrightarrow> 0 \<le> n"
  by (induction acc s rule: digits.induct) (auto split: option.splits)

lemma Atoi_range: "- (2 ^ 63) \<le> fst (Atoi s) \<and> fst (Atoi s) \<le> max_int"
  by (auto simp: Atoi_def max_int_def Let_def split: option.splits prod.splits)

end
