(* ===== verification/Engine.thy ===== *)
theory Engine
  imports Net
begin

text \<open>
  Mining engines: the contract of \<open>internal/engine/engine.go\<close> and its three implementations, the
  supervisor of an external miner (\<open>engine/adapter\<close>), the native stub (\<open>engine/native\<close>) and the simulated
  engine (\<open>engine/simulated\<close>).

  The operating system is the record \<open>host\<close>: files, the search path, free ports, and whether a process
  can be started; the HTTP interfaces of running miners are \<open>xmrig_api\<close> and \<open>lol_api\<close>, with their
  responses already decoded. Processes are numbers; \<open>procs\<close> is the list of those that are alive, with
  their command lines, \<open>next_pid\<close> numbers the next one. A process may also end by itself.
\<close>

subsection \<open>The contract\<close>

record adapter_config =
  ad_binary :: string
  ad_version :: string
  ad_sha256 :: "(string \<times> string) list"
  ad_args :: "string list"
  ad_api_kind :: string
  ad_api_port :: int
  ad_config_kind :: string
  ad_note :: string

record allocation =
  al_cpu :: int
  al_gpu :: int
  al_threads :: int

record engine_config =
  ec_currency :: string
  ec_algorithm :: string
  ec_pool :: string
  ec_wallet :: string
  ec_worker :: string
  ec_threads :: int
  ec_gpu_on :: bool
  ec_gpu_intensity :: int
  ec_adapter :: "adapter_config option"
  ec_extra :: "(string \<times> string) list"

record engine_stats =
  es_rate :: rat
  es_acc :: i64
  es_rej :: i64
  es_uptime :: int
  es_running :: bool
  es_available :: bool
  es_detail :: string

definition no_stats :: engine_stats where
  "no_stats = \<lparr>es_rate = 0, es_acc = 0, es_rej = 0, es_uptime = 0, es_running = False, es_available = False, es_detail = []\<rparr>"

record xmrig_summary =
  xs_total :: "rat list"
  xs_good :: i64
  xs_shares :: i64
  xs_uptime :: int

record lol_algorithm =
  la_perf :: "rat list"
  la_acc :: "i64 list"
  la_rej :: "i64 list"

record lol_summary =
  lo_algorithms :: "lol_algorithm list"
  lo_uptime :: int

record host =
  goos :: string
  goarch :: string
  is_file :: "string \<Rightarrow> bool"
  look_path :: "string \<Rightarrow> string option"
  join_path :: "string \<Rightarrow> string \<Rightarrow> string"
  file_bytes :: "string \<Rightarrow> string option"
  sha256_hex :: "string \<Rightarrow> string"
  free_port :: "nat \<Rightarrow> int option"
  can_spawn :: "nat \<Rightarrow> bool"
  lower_uni :: "string \<Rightarrow> string"
  xmrig_api :: "nat \<Rightarrow> int \<Rightarrow> string \<Rightarrow> (int \<times> xmrig_summary option) option"
  lol_api :: "nat \<Rightarrow> int \<Rightarrow> (int \<times> lol_summary option) option"
  jitter :: "nat \<Rightarrow> rat"
  map_order :: "nat \<Rightarrow> (string \<times> string) list \<Rightarrow> (string \<times> string) list"

record os =
  hst :: host
  os_now :: int
  os_step :: nat
  next_pid :: nat
  procs :: "(nat \<times> string \<times> string list) list"

abbreviation tock :: "os \<Rightarrow> os" where
  "tock s \<equiv> s\<lparr>os_step := Suc (os_step s)\<rparr>"

subsection \<open>Rendering the arguments\<close>

definition poolHostPort :: "string \<Rightarrow> string \<times> string" where
  "poolHostPort pool =
     (let s = (case index_of ''://'' pool of None \<Rightarrow> pool | Some i \<Rightarrow> drop (i + 3) pool);
          s = trim_suffix ''/'' s
      in case SplitHostPort s of Some (h, p) \<Rightarrow> (h, p) | None \<Rightarrow> (s, []))"

text \<open>\<open>fmt.Sprintf("%d", n)\<close>.\<close>

fun show_nat :: "nat \<Rightarrow> string" where
  "show_nat n = (if n < 10 then [char_of (48 + n)] else show_nat (n div 10) @ [char_of (48 + n mod 10)])"

declare show_nat.simps [simp del]

definition show_int :: "int \<Rightarrow> string" where
  "show_int n = (if n < 0 then CHR ''-'' # show_nat (nat (- n)) else show_nat (nat n))"

definition replacements :: "engine_config \<Rightarrow> int \<Rightarrow> (string \<times> string) list" where
  "replacements cfg apiPort = (case poolHostPort (ec_pool cfg) of (host, port) \<Rightarrow>
     [(''{pool}'', ec_pool cfg), (''{pool_host}'', host), (''{pool_port}'', port), (''{wallet}'', ec_wallet cfg),
      (''{worker}'', ec_worker cfg), (''{threads}'', show_int (max 1 (ec_threads cfg))),
      (''{api_port}'', show_int apiPort), (''{gpu_intensity}'', show_int (ec_gpu_intensity cfg))])"

text \<open>Go ranges over the map \<open>repl\<close> in an order of its own for every argument: \<open>perm i\<close>.\<close>

definition render_arg :: "(string \<times> string) list \<Rightarrow> string \<Rightarrow> string" where
  "render_arg repl a = fold (\<lambda>(k, v) a. replace_all k v a) repl a"

definition renderArgs :: "(nat \<Rightarrow> (string \<times> string) list \<Rightarrow> (string \<times> string) list) \<Rightarrow>
    string list \<Rightarrow> engine_config \<Rightarrow> int \<Rightarrow> string list" where
  "renderArgs perm tmpl cfg apiPort =
     map (\<lambda>(i, a). render_arg (perm i (replacements cfg apiPort)) a) (enumerate 0 tmpl)"

subsection \<open>The supervisor of an external miner\<close>

record adapter =
  a_cfg :: engine_config
  a_binary :: string
  a_cmd :: "nat option"
  a_port :: int
  a_started :: int
  a_running :: bool
  a_tail :: "string list"

datatype engine_err = NoBinary | BinaryNotFound | HashMismatch | Unreadable | NoPort | AlreadyRunning
  | SpawnFailed | NotVerified | NilAdapter

definition zero_config :: engine_config where
  "zero_config = \<lparr>ec_currency = [], ec_algorithm = [], ec_pool = [], ec_wallet = [], ec_worker = [], ec_threads = 0, ec_gpu_on = False,
     ec_gpu_intensity = 0, ec_adapter = None, ec_extra = []\<rparr>"

definition adapter_New :: adapter where
  "adapter_New = \<lparr>a_cfg = zero_config, a_binary = [], a_cmd = None, a_port = 0, a_started = 0, a_running = False, a_tail = []\<rparr>"

definition adapter_Name :: "adapter \<Rightarrow> string" where
  "adapter_Name e = (case ec_adapter (a_cfg e) of Some ad \<Rightarrow> ''adapter('' @ ad_binary ad @ '')'' | None \<Rightarrow> ''adapter'')"

definition fileSHA256 :: "host \<Rightarrow> string \<Rightarrow> string option" where
  "fileSHA256 h path = map_option (sha256_hex h) (file_bytes h path)"

text \<open>\<open>strings.EqualFold\<close>, for a first argument that is a hexadecimal number.\<close>

definition EqualFold :: "string \<Rightarrow> string \<Rightarrow> bool" where
  "EqualFold s t \<longleftrightarrow> is_ascii t \<and> map lower_char s = map lower_char t"

definition binary_name :: "host \<Rightarrow> string \<Rightarrow> string" where
  "binary_name h name = (if goos h = ''windows'' \<and> \<not> has_suffix ''.exe'' (ToLower (lower_uni h) name) then name @ ''.exe'' else name)"

definition find_binary :: "host \<Rightarrow> string \<Rightarrow> string \<Rightarrow> string \<Rightarrow> string option" where
  "find_binary h name adaptersDir explicitPath =
     (let candidates = (if explicitPath \<noteq> [] then [explicitPath] else []) @
                       (if adaptersDir \<noteq> [] then [join_path h adaptersDir name] else [])
      in case find (is_file h) candidates of Some c \<Rightarrow> if c \<noteq> [] then Some c else look_path h name | None \<Rightarrow> look_path h name)"

definition ResolveBinary :: "host \<Rightarrow> adapter_config option \<Rightarrow> string \<Rightarrow> string \<Rightarrow> engine_err + string" where
  "ResolveBinary h ad adaptersDir explicitPath = (case ad of
       None \<Rightarrow> Inl NoBinary
     | Some ad \<Rightarrow>
         if ad_binary ad = [] then Inl NoBinary
         else case find_binary h (binary_name h (ad_binary ad)) adaptersDir explicitPath of
           None \<Rightarrow> Inl BinaryNotFound
         | Some path \<Rightarrow>
             if path = [] then Inl BinaryNotFound
             else case map_of (ad_sha256 ad) (goos h @ ''/'' @ goarch h) of
               None \<Rightarrow> Inr path
             | Some want \<Rightarrow>
                 if want = [] then Inr path
                 else case fileSHA256 h path of
                   None \<Rightarrow> Inl Unreadable
                 | Some digest \<Rightarrow> if EqualFold digest want then Inr path else Inl HashMismatch)"

definition PrepareWithPaths :: "engine_config \<Rightarrow> string \<Rightarrow> string \<Rightarrow> adapter \<Rightarrow> os \<Rightarrow> engine_err option \<times> adapter \<times> os" where
  "PrepareWithPaths cfg adaptersDir explicitPath e s =
     (case ResolveBinary (hst s) (ec_adapter cfg) adaptersDir explicitPath of
        Inl err \<Rightarrow> (Some err, e, s)
      | Inr bin \<Rightarrow>
          (case ec_adapter cfg of
             None \<Rightarrow> (Some NilAdapter, e, s)
           | Some ad \<Rightarrow>
               (case (if ad_api_port ad = 0 then free_port (hst s) (os_step s) else Some (ad_api_port ad)) of
                  None \<Rightarrow> (Some NoPort, e, tock s)
                | Some port \<Rightarrow> (None, e\<lparr>a_cfg := cfg, a_binary := bin, a_port := port\<rparr>, tock s))))"

definition adapter_Prepare :: "engine_config \<Rightarrow> adapter \<Rightarrow> os \<Rightarrow> engine_err option \<times> adapter \<times> os" where
  "adapter_Prepare cfg = PrepareWithPaths cfg [] []"

text \<open>Starting before a successful preparation dereferences a nil pointer: \<open>NilAdapter\<close> stands for that panic.\<close>

definition adapter_Start :: "adapter \<Rightarrow> os \<Rightarrow> engine_err option \<times> adapter \<times> os" where
  "adapter_Start e s = (if a_running e then (Some AlreadyRunning, e, s)
     else case ec_adapter (a_cfg e) of
       None \<Rightarrow> (Some NilAdapter, e, s)
     | Some ad \<Rightarrow>
         let args = renderArgs (\<lambda>i. map_order (hst s) (os_step s + i)) (ad_args ad) (a_cfg e) (a_port e) in
         if \<not> can_spawn (hst s) (os_step s) then (Some SpawnFailed, e, tock s)
         else (None, e\<lparr>a_cmd := Some (next_pid s), a_started := os_now s, a_running := True\<rparr>,
               (tock s)\<lparr>next_pid := Suc (next_pid s), procs := (next_pid s, a_binary e, args) # procs s\<rparr>))"

text \<open>The reader of the child's output: the unfinished line and the tail, byte by byte.\<close>

definition push_tail_line :: "string \<Rightarrow> string list \<Rightarrow> string list" where
  "push_tail_line line l = (let l = l @ [line] in if length l > 50 then drop (length l - 50) l else l)"

definition tail_byte :: "char \<Rightarrow> string \<times> string list \<Rightarrow> string \<times> string list" where
  "tail_byte b st = (case st of (line, l) \<Rightarrow> if b = CHR ''\<newline>'' then ([], push_tail_line line l) else (line @ [b], l))"

definition tailLogs :: "string list \<Rightarrow> string \<times> string list \<Rightarrow> string \<times> string list" where
  "tailLogs chunks st = fold (\<lambda>buf st. fold tail_byte buf st) chunks st"

definition kill :: "nat \<Rightarrow> os \<Rightarrow> os" where
  "kill pid s = s\<lparr>procs := filter (\<lambda>p. fst p \<noteq> pid) (procs s)\<rparr>"

definition adapter_Stop :: "adapter \<Rightarrow> os \<Rightarrow> adapter \<times> os" where
  "adapter_Stop e s = (e\<lparr>a_running := False\<rparr>, (case a_cmd e of None \<Rightarrow> s | Some pid \<Rightarrow> kill pid s))"

definition adapter_SetAllocation :: "allocation \<Rightarrow> adapter \<Rightarrow> adapter" where
  "adapter_SetAllocation a e = (if \<not> a_running e then e\<lparr>a_cfg := (a_cfg e)\<lparr>ec_threads := al_threads a\<rparr>\<rparr>
     else e\<lparr>a_cfg := (a_cfg e)\<lparr>ec_threads := al_threads a, ec_gpu_intensity := al_gpu a\<rparr>\<rparr>)"

definition LogTail :: "adapter \<Rightarrow> string list" where
  "LogTail e = a_tail e"

subsection \<open>Statistics of external miners\<close>

fun fetchXmrigStats :: "(string \<Rightarrow> (int \<times> xmrig_summary option) option) \<Rightarrow> string list \<Rightarrow> engine_stats option" where
  "fetchXmrigStats get [] = None"
| "fetchXmrigStats get (path # paths) = (case get path of
     Some (status, Some v) \<Rightarrow>
       if status \<noteq> 200 then fetchXmrigStats get paths
       else Some (no_stats\<lparr>es_running := True, es_available := True, es_uptime := xs_uptime v,
         es_rate := (case xs_total v of [] \<Rightarrow> 0 | h # _ \<Rightarrow> h),
         es_acc := xs_good v, es_rej := xs_shares v - xs_good v\<rparr>)
   | _ \<Rightarrow> fetchXmrigStats get paths)"

definition fetchLolminerStats :: "(int \<times> lol_summary option) option \<Rightarrow> engine_stats option" where
  "fetchLolminerStats resp = (case resp of
     Some (status, Some v) \<Rightarrow>
       if status \<noteq> 200 then None
       else Some (no_stats\<lparr>es_running := True, es_available := True, es_uptime := lo_uptime v,
         es_rate := sum_list (map (\<lambda>a. sum_list (map (\<lambda>p. p * 1000000) (la_perf a))) (lo_algorithms v)),
         es_acc := sum_list (map (\<lambda>a. sum_list (la_acc a)) (lo_algorithms v)),
         es_rej := sum_list (map (\<lambda>a. sum_list (la_rej a)) (lo_algorithms v))\<rparr>)
   | _ \<Rightarrow> None)"

definition seconds_since :: "int \<Rightarrow> int \<Rightarrow> int" where
  "seconds_since t0 t = go_quot (t - t0) 1000000000"

definition adapter_Stats :: "adapter \<Rightarrow> os \<Rightarrow> engine_stats" where
  "adapter_Stats e s =
     (let kind = (case ec_adapter (a_cfg e) of Some ad \<Rightarrow> ad_api_kind ad | None \<Rightarrow> []);
          st = no_stats\<lparr>es_running := a_running e,
                 es_uptime := (if a_running e then seconds_since (a_started e) (os_now s) else 0)\<rparr>;
          unreachable = st\<lparr>es_detail := ''stats API unreachable''\<rparr>
      in if \<not> a_running e then st
         else if kind = ''xmrig'' then
           (case fetchXmrigStats (xmrig_api (hst s) (os_step s) (a_port e)) [''/2/summary'', ''/1/summary''] of
              Some x \<Rightarrow> x | None \<Rightarrow> unreachable)
         else if kind = ''lolminer'' then
           (case fetchLolminerStats (lol_api (hst s) (os_step s) (a_port e)) of Some x \<Rightarrow> x | None \<Rightarrow> unreachable)
         else st\<lparr>es_detail := ''no stats parser for api_kind '' @ kind\<rparr>)"

subsection \<open>The native stub and the simulated engine\<close>

definition Reason :: string where
  "Reason = ''native kHeavyHash engine unavailable in v0.1.0: '' @
     ''kaspad''@ [CHR 0x27] @ ''s pow package keeps its matrix constructor unexported (verified 2026-08-20, ISC license); '' @
     ''a correct share-validated integration is v0.2 scope (docs/roadmap.md). '' @
     ''Use engine=adapter (lolMiner) for KAS meanwhile''"

definition native_Name :: string where
  "native_Name = ''native-go''"

definition native_Prepare :: "engine_config \<Rightarrow> engine_err option" where
  "native_Prepare cfg = Some NotVerified"

definition native_Start :: "os \<Rightarrow> engine_err option \<times> os" where
  "native_Start s = (Some NotVerified, s)"

definition native_Stats :: engine_stats where
  "native_Stats = no_stats\<lparr>es_detail := Reason\<rparr>"

record simulated =
  si_cfg :: engine_config
  si_running :: bool
  si_started :: int
  si_acc :: i64

definition sim_New :: simulated where
  "sim_New = \<lparr>si_cfg = zero_config, si_running = False, si_started = 0, si_acc = 0\<rparr>"

definition sim_Name :: string where
  "sim_Name = ''simulated''"

definition sim_Prepare :: "engine_config \<Rightarrow> simulated \<Rightarrow> simulated" where
  "sim_Prepare cfg e = e\<lparr>si_cfg := cfg\<rparr>"

definition sim_Start :: "simulated \<Rightarrow> os \<Rightarrow> simulated" where
  "sim_Start e s = e\<lparr>si_running := True, si_started := os_now s\<rparr>"

definition sim_Stop :: "simulated \<Rightarrow> simulated" where
  "sim_Stop e = e\<lparr>si_running := False\<rparr>"

definition sim_SetAllocation :: "allocation \<Rightarrow> simulated \<Rightarrow> simulated" where
  "sim_SetAllocation a e = e\<lparr>si_cfg := (si_cfg e)\<lparr>ec_threads := al_threads a\<rparr>\<rparr>"

definition sim_Stats :: "simulated \<Rightarrow> os \<Rightarrow> engine_stats \<times> simulated \<times> os" where
  "sim_Stats e s =
     (let st = no_stats\<lparr>es_running := si_running e, es_available := True,
            es_detail := ''SIMULATED '' @ map char_of [226 :: nat, 128, 148] @ '' synthetic demo numbers, no pool involved''\<rparr> in
      if \<not> si_running e then (st, e, s)
      else
        let threads = (if ec_threads (si_cfg e) < 1 then 1 else ec_threads (si_cfg e));
            base = rat_of_int threads * 450;
            acc = (if jitter (hst s) (Suc (os_step s)) < 3 / 10 then si_acc e + 1 else si_acc e)
        in (st\<lparr>es_rate := base * (9 / 10 + 2 / 10 * jitter (hst s) (os_step s)),
               es_uptime := seconds_since (si_started e) (os_now s), es_acc := acc\<rparr>,
            e\<lparr>si_acc := acc\<rparr>, tock (tock s)))"

end
