(* ===== verification/Worker.thy ===== *)
theory Worker
  imports Engine "HOL-Library.AList"
begin

text \<open>
  The worker program (\<open>cmd/worker/main.go\<close>): enrollment, hardware detection, and \<open>run\<close>, which connects to
  the hub, executes jobs on engines and reports their statistics.

  The state \<open>node\<close> has the configuration, the map \<open>jobs\<close> (an association list), the operating system
  with the processes that are alive, and the messages sent so far; \<open>nd_net\<close> says which writes succeed.
  \<open>select\<close> and the two goroutines of a session become one sequence of events: a message was read, the
  ticker of the metrics fired, time passed, a process ended by itself; the end of the list is a read error.
  A context that kills a process when it is cancelled is the number of that process.
\<close>

subsection \<open>Configuration\<close>

record file_config =
  fc_app_url :: string
  fc_worker_id :: string
  fc_token :: string
  fc_wss_url :: string
  fc_name :: string
  fc_adapters_dir :: string
  fc_allow_simulated :: bool

record node_hardware =
  hw_kind :: string
  hw_os :: string
  hw_arch :: string
  hw_cpu_model :: string
  hw_cpu_cores :: int
  hw_gpu_model :: string
  hw_vram_mb :: int

subsection \<open>Hardware detection\<close>

text \<open>The first line of \<open>/proc/cpuinfo\<close> with the prefix ends the search, with or without a colon.\<close>

definition cpu_model_of :: "string \<Rightarrow> string" where
  "cpu_model_of data = (case find (has_prefix ''model name'') (split_on CHR ''\<newline>'' data) of
     None \<Rightarrow> []
   | Some line \<Rightarrow> (case index_of '':'' line of None \<Rightarrow> [] | Some i \<Rightarrow> TrimSpace (drop (i + 1) line)))"

text \<open>\<open>strings.Split\<close> with the separator \<open>", "\<close>.\<close>

fun split_comma :: "string \<Rightarrow> string list" where
  "split_comma [] = [[]]"
| "split_comma [c] = [[c]]"
| "split_comma (c # d # s) = (if c = CHR '','' \<and> d = CHR '' '' then [] # split_comma s
     else case split_comma (d # s) of [] \<Rightarrow> [[c]] | w # ws \<Rightarrow> (c # w) # ws)"

text \<open>\<open>fmt.Sscanf(s, "%d", &n)\<close> on a trimmed string: the leading number, and the old value on failure.\<close>

definition Sscanf_d :: "string \<Rightarrow> int \<Rightarrow> int" where
  "Sscanf_d s old = (let (sgn, t) = (case s of [] \<Rightarrow> (1, [])
       | c # r \<Rightarrow> if c = CHR ''-'' then (-1, r) else if c = CHR ''+'' then (1, r) else (1, s));
       ds = takeWhile (\<lambda>c. digit c \<noteq> None) t in
     if ds = [] then old
     else case digits 0 ds of None \<Rightarrow> old
       | Some n \<Rightarrow> if - (2 ^ 63) \<le> sgn * n \<and> sgn * n \<le> max_int then sgn * n else old)"

definition gpu_of :: "string \<Rightarrow> string \<times> int" where
  "gpu_of out = (let line = TrimSpace (hd (split_on CHR ''\<newline>'' out)) in
     case split_comma line of
       [model, mem] \<Rightarrow> (TrimSpace model, Sscanf_d (TrimSpace mem) 0)
     | _ \<Rightarrow> ([], 0))"

record machine =
  mc_goos :: string
  mc_goarch :: string
  mc_cpus :: int
  mc_cpuinfo :: "string option"
  mc_nvidia_smi :: "string option"
  mc_home :: string
  mc_hostname :: string

definition detectHardware :: "machine \<Rightarrow> node_hardware" where
  "detectHardware mc =
     (let gpu = (case mc_nvidia_smi mc of None \<Rightarrow> ([], 0) | Some out \<Rightarrow> gpu_of out) in
      \<lparr>hw_kind = [], hw_os = mc_goos mc, hw_arch = mc_goarch mc,
       hw_cpu_model = (if mc_goos mc = ''linux'' then (case mc_cpuinfo mc of None \<Rightarrow> [] | Some d \<Rightarrow> cpu_model_of d) else []),
       hw_cpu_cores = mc_cpus mc, hw_gpu_model = fst gpu, hw_vram_mb = snd gpu\<rparr>)"

subsection \<open>Enrollment\<close>

text \<open>The loop over the arguments: name, configuration path, positional arguments. An option without a
  value is dropped, a repeated one overwrites.\<close>

fun enroll_args :: "string list \<Rightarrow> string \<times> string \<times> string list \<Rightarrow> string \<times> string \<times> string list" where
  "enroll_args [] acc = acc"
| "enroll_args (a # as) (nm, cfg, pos) =
     (if a = ''--name'' then (case as of [] \<Rightarrow> (nm, cfg, pos) | v # as' \<Rightarrow> enroll_args as' (v, cfg, pos))
      else if a = ''--config'' then (case as of [] \<Rightarrow> (nm, cfg, pos) | v # as' \<Rightarrow> enroll_args as' (nm, v, pos))
      else enroll_args as (nm, cfg, pos @ [a]))"

text \<open>The answer to the enrollment request: no answer, or the status and the decoded body.\<close>

datatype enroll_body =
    Credentials string string string
  | ErrorBody string string
  | Undecodable

datatype enroll_err = Usage | RequestFailed | Refused string string | RefusedStatus int | BadBody | SaveFailed

definition config_dir :: "machine \<Rightarrow> (string list \<Rightarrow> string) \<Rightarrow> string \<Rightarrow> string" where
  "config_dir mc join leaf = join [mc_home mc, ''.config'', ''money-miner'', leaf]"

definition defaultConfigPath :: "machine \<Rightarrow> (string list \<Rightarrow> string) \<Rightarrow> string" where
  "defaultConfigPath mc join = config_dir mc join ''worker.json''"

text \<open>
  The result of a successful enrollment is the file written: its path and its contents. \<open>join\<close> is
  \<open>filepath.Join\<close>, \<open>post\<close> the HTTP request and \<open>can_save\<close> whether the file could be written.
\<close>

definition cmdEnroll :: "machine \<Rightarrow> (string list \<Rightarrow> string) \<Rightarrow> (string \<Rightarrow> string \<times> string \<times> node_hardware \<Rightarrow> (int \<times> enroll_body) option) \<Rightarrow>
    (string \<Rightarrow> bool) \<Rightarrow> string list \<Rightarrow> enroll_err + string \<times> file_config" where
  "cmdEnroll mc join post can_save args = (case enroll_args args ([], [], []) of (nm, cfgPath, positional) \<Rightarrow>
     (case positional of
        [url, code] \<Rightarrow>
          let appURL = trim_suffix ''/'' url;
              cfgPath = (if cfgPath = [] then defaultConfigPath mc join else cfgPath);
              nm = (if nm \<noteq> [] then nm else if mc_hostname mc \<noteq> [] then mc_hostname mc else ''worker-'' @ mc_goos mc);
              hw = (detectHardware mc)\<lparr>hw_kind := ''native''\<rparr>
          in (case post (appURL @ ''/api/swarm/enroll'') (code, nm, hw) of
                None \<Rightarrow> Inl RequestFailed
              | Some (status, body) \<Rightarrow>
                  if status \<noteq> 201 then
                    (case body of ErrorBody c msg \<Rightarrow> if msg \<noteq> [] then Inl (Refused c msg) else Inl (RefusedStatus status)
                     | _ \<Rightarrow> Inl (RefusedStatus status))
                  else
                    (case body of
                       Undecodable \<Rightarrow> Inl BadBody
                     | _ \<Rightarrow>
                         let cfg = (case body of Credentials i t u \<Rightarrow>
                                \<lparr>fc_app_url = appURL, fc_worker_id = i, fc_token = t, fc_wss_url = u, fc_name = nm,
                                 fc_adapters_dir = config_dir mc join ''adapters'', fc_allow_simulated = False\<rparr>
                              | _ \<Rightarrow>
                                \<lparr>fc_app_url = appURL, fc_worker_id = [], fc_token = [], fc_wss_url = [], fc_name = nm,
                                 fc_adapters_dir = config_dir mc join ''adapters'', fc_allow_simulated = False\<rparr>)
                         in if can_save cfgPath then Inr (cfgPath, cfg) else Inl SaveFailed))
      | _ \<Rightarrow> Inl Usage))"

subsection \<open>Engines of any kind\<close>

datatype any_engine = ESim simulated | ENat | EAda adapter

definition eng_Name :: "any_engine \<Rightarrow> string" where
  "eng_Name e = (case e of ESim _ \<Rightarrow> sim_Name | ENat \<Rightarrow> native_Name | EAda a \<Rightarrow> adapter_Name a)"

definition eng_Start :: "any_engine \<Rightarrow> os \<Rightarrow> engine_err option \<times> any_engine \<times> os" where
  "eng_Start e s = (case e of
     ESim x \<Rightarrow> (None, ESim (sim_Start x s), s)
   | ENat \<Rightarrow> (case native_Start s of (r, s') \<Rightarrow> (r, ENat, s'))
   | EAda a \<Rightarrow> (case adapter_Start a s of (r, a', s') \<Rightarrow> (r, EAda a', s')))"

definition eng_Stop :: "any_engine \<Rightarrow> os \<Rightarrow> any_engine \<times> os" where
  "eng_Stop e s = (case e of
     ESim x \<Rightarrow> (ESim (sim_Stop x), s)
   | ENat \<Rightarrow> (ENat, s)
   | EAda a \<Rightarrow> (case adapter_Stop a s of (a', s') \<Rightarrow> (EAda a', s')))"

definition eng_Stats :: "any_engine \<Rightarrow> os \<Rightarrow> engine_stats \<times> any_engine \<times> os" where
  "eng_Stats e s = (case e of
     ESim x \<Rightarrow> (case sim_Stats x s of (st, x', s') \<Rightarrow> (st, ESim x', s'))
   | ENat \<Rightarrow> (native_Stats, ENat, s)
   | EAda a \<Rightarrow> (adapter_Stats a s, EAda a, s))"

definition eng_SetAllocation :: "allocation \<Rightarrow> any_engine \<Rightarrow> any_engine" where
  "eng_SetAllocation al e = (case e of
     ESim x \<Rightarrow> ESim (sim_SetAllocation al x) | ENat \<Rightarrow> ENat | EAda a \<Rightarrow> EAda (adapter_SetAllocation al a))"

text \<open>The process that an engine has started last; a context cancels it.\<close>

definition eng_pid :: "any_engine \<Rightarrow> nat option" where
  "eng_pid e = (case e of EAda a \<Rightarrow> a_cmd a | _ \<Rightarrow> None)"

definition cancel_ctx :: "nat option \<Rightarrow> os \<Rightarrow> os" where
  "cancel_ctx c s = (case c of None \<Rightarrow> s | Some pid \<Rightarrow> kill pid s)"

subsection \<open>A session\<close>

record job_runtime =
  jr_id :: string
  jr_miner :: string
  jr_eng :: any_engine
  jr_cancel :: "nat option"

text \<open>\<open>assignPayload\<close>.\<close>

record job_offer =
  jo_job :: string
  jo_miner :: string
  jo_engine :: string
  jo_algorithm :: string
  jo_pool :: string
  jo_user :: string
  jo_wallet :: string
  jo_worker :: string
  jo_threads :: int
  jo_gpu_on :: bool
  jo_gpu_intensity :: int
  jo_adapter :: "adapter_config option"
  jo_simulated :: bool

text \<open>Messages of the hub after \<open>json.Unmarshal\<close>; \<open>WBad\<close> is one that does not decode.\<close>

datatype to_worker =
    WPing
  | WAssign job_offer
  | WCancel string
  | WAllocation string int int
  | WRevoke
  | WOther string
  | WBad

datatype ack_err = SimulatedNotAllowed | EngineFailed engine_err

datatype from_worker =
    MHello "string list" int string int
  | MPong
  | MAck string "ack_err option"
  | MMetrics string rat i64 i64 int string

record node =
  nd_cfg :: file_config
  nd_jobs :: "(string \<times> job_runtime) list"
  nd_os :: os
  nd_sent :: "from_worker list"
  nd_sends :: nat
  nd_net :: "nat \<Rightarrow> bool"

definition node_send :: "from_worker \<Rightarrow> node \<Rightarrow> bool \<times> node" where
  "node_send m n = (if nd_net n (nd_sends n)
     then (True, n\<lparr>nd_sends := Suc (nd_sends n), nd_sent := nd_sent n @ [m]\<rparr>)
     else (False, n\<lparr>nd_sends := Suc (nd_sends n)\<rparr>))"

text \<open>\<open>_ = send(..)\<close>.\<close>

abbreviation say :: "from_worker \<Rightarrow> node \<Rightarrow> node" where
  "say m n \<equiv> snd (node_send m n)"

definition offer_config :: "job_offer \<Rightarrow> engine_config" where
  "offer_config p = \<lparr>ec_currency = [], ec_algorithm = jo_algorithm p, ec_pool = jo_pool p, ec_wallet = jo_wallet p,
     ec_worker = jo_worker p, ec_threads = max 1 (jo_threads p), ec_gpu_on = jo_gpu_on p,
     ec_gpu_intensity = jo_gpu_intensity p, ec_adapter = jo_adapter p, ec_extra = []\<rparr>"

definition pick_engine :: "file_config \<Rightarrow> job_offer \<Rightarrow> any_engine option" where
  "pick_engine cfg p = (if jo_simulated p \<or> jo_engine p = ''simulated''
     then (if fc_allow_simulated cfg then Some (ESim sim_New) else None)
     else if jo_engine p = ''native-go'' then Some ENat else Some (EAda adapter_New))"

definition prepare_engine :: "file_config \<Rightarrow> engine_config \<Rightarrow> any_engine \<Rightarrow> os \<Rightarrow> engine_err option \<times> any_engine \<times> os" where
  "prepare_engine cfg ecfg e s = (case e of
     EAda a \<Rightarrow> (case PrepareWithPaths ecfg (fc_adapters_dir cfg) [] a s of (r, a', s') \<Rightarrow> (r, EAda a', s'))
   | ENat \<Rightarrow> (native_Prepare ecfg, ENat, s)
   | ESim x \<Rightarrow> (None, ESim (sim_Prepare ecfg x), s))"

definition handleAssign :: "job_offer \<Rightarrow> node \<Rightarrow> node" where
  "handleAssign p n =
     (if jo_job p = [] then n
      else case pick_engine (nd_cfg n) p of
        None \<Rightarrow> say (MAck (jo_job p) (Some SimulatedNotAllowed)) n
      | Some e \<Rightarrow>
          (case prepare_engine (nd_cfg n) (offer_config p) e (nd_os n) of
             (Some err, e1, s1) \<Rightarrow> say (MAck (jo_job p) (Some (EngineFailed err))) (n\<lparr>nd_os := s1\<rparr>)
           | (None, e1, s1) \<Rightarrow>
               (case eng_Start e1 s1 of
                  (Some err, e2, s2) \<Rightarrow> say (MAck (jo_job p) (Some (EngineFailed err))) (n\<lparr>nd_os := s2\<rparr>)
                | (None, e2, s2) \<Rightarrow> say (MAck (jo_job p) None)
                    (n\<lparr>nd_os := s2, nd_jobs := AList.update (jo_job p)
                        \<lparr>jr_id = jo_job p, jr_miner = jo_miner p, jr_eng = e2, jr_cancel = eng_pid e2\<rparr> (nd_jobs n)\<rparr>))))"

definition stop_job :: "job_runtime \<Rightarrow> os \<Rightarrow> any_engine \<times> os" where
  "stop_job j s = eng_Stop (jr_eng j) (cancel_ctx (jr_cancel j) s)"

definition handleCancel :: "string \<Rightarrow> node \<Rightarrow> node" where
  "handleCancel jobID n = (case map_of (nd_jobs n) jobID of
     None \<Rightarrow> n
   | Some j \<Rightarrow> n\<lparr>nd_os := snd (stop_job j (nd_os n)), nd_jobs := AList.delete jobID (nd_jobs n)\<rparr>)"

text \<open>\<open>handleAllocation\<close>: the adapter is stopped and started again, under the context of the session.\<close>

definition handleAllocation :: "string \<Rightarrow> int \<Rightarrow> int \<Rightarrow> node \<Rightarrow> node" where
  "handleAllocation jobID cpuPct gpuIntensity n = (case map_of (nd_jobs n) jobID of
     None \<Rightarrow> n
   | Some j \<Rightarrow>
       let e = eng_SetAllocation \<lparr>al_cpu = cpuPct, al_gpu = gpuIntensity, al_threads = 0\<rparr> (jr_eng j);
           (e', s') = (case e of
             EAda a \<Rightarrow> (case adapter_Stop a (nd_os n) of (a1, s1) \<Rightarrow>
               (case adapter_Start a1 s1 of (_, a2, s2) \<Rightarrow> (EAda a2, s2)))
           | _ \<Rightarrow> (e, nd_os n))
       in n\<lparr>nd_os := s', nd_jobs := AList.update jobID (j\<lparr>jr_eng := e'\<rparr>) (nd_jobs n)\<rparr>)"

definition handle_message :: "to_worker \<Rightarrow> node \<Rightarrow> node" where
  "handle_message m n = (case m of
       WPing \<Rightarrow> say MPong n
     | WAssign p \<Rightarrow> handleAssign p n
     | WCancel i \<Rightarrow> handleCancel i n
     | WAllocation i cpu gpu \<Rightarrow> handleAllocation i cpu gpu n
     | _ \<Rightarrow> n)"

definition report_job :: "string \<Rightarrow> node \<Rightarrow> node" where
  "report_job i n = (case map_of (nd_jobs n) i of
     None \<Rightarrow> n
   | Some j \<Rightarrow> (case eng_Stats (jr_eng j) (nd_os n) of (st, e, s) \<Rightarrow>
       say (MMetrics (jr_id j) (es_rate st) (es_acc st) (es_rej st) (es_uptime st) (eng_Name e))
         (n\<lparr>nd_os := s, nd_jobs := AList.update i (j\<lparr>jr_eng := e\<rparr>) (nd_jobs n)\<rparr>)))"

definition report_metrics :: "node \<Rightarrow> node" where
  "report_metrics n = fold report_job (map fst (nd_jobs n)) n"

datatype wevent = Received to_worker | MetricsTick | Elapse nat | Exited nat

datatype session_end = DialFailed | HelloFailed | ConnectionLost | Revoked

fun read_loop :: "wevent list \<Rightarrow> node \<Rightarrow> session_end \<times> node" where
  "read_loop [] n = (ConnectionLost, n)"
| "read_loop (Received m # es) n = (if m = WRevoke then (Revoked, n) else read_loop es (handle_message m n))"
| "read_loop (MetricsTick # es) n = read_loop es (report_metrics n)"
| "read_loop (Elapse d # es) n = read_loop es (n\<lparr>nd_os := (nd_os n)\<lparr>os_now := os_now (nd_os n) + int d\<rparr>\<rparr>)"
| "read_loop (Exited pid # es) n = read_loop es (n\<lparr>nd_os := kill pid (nd_os n)\<rparr>)"

definition hello :: "machine \<Rightarrow> file_config \<Rightarrow> from_worker" where
  "hello mc cfg = (let hw = detectHardware mc in
     MHello (''adapter'' # (if fc_allow_simulated cfg then [''simulated''] else [])) (mc_cpus mc) (hw_gpu_model hw) (hw_vram_mb hw))"

definition runSession :: "machine \<Rightarrow> bool \<Rightarrow> wevent list \<Rightarrow> node \<Rightarrow> session_end \<times> node" where
  "runSession mc dial es n = (if \<not> dial then (DialFailed, n)
     else case node_send (hello mc (nd_cfg n)) n of
       (False, n1) \<Rightarrow> (HelloFailed, n1)
     | (True, n1) \<Rightarrow> read_loop es n1)"

subsection \<open>Reconnecting\<close>

definition stopAll :: "node \<Rightarrow> node" where
  "stopAll n = n\<lparr>nd_os := fold (\<lambda>j s. snd (stop_job (snd j) s)) (nd_jobs n) (nd_os n)\<rparr>"

definition next_backoff :: "int \<Rightarrow> int" where
  "next_backoff b = (let b = b * 2 in if b > 60 * second then 60 * second else b)"

text \<open>The pause: \<open>rnd\<close> is the random number in [0, 1), the conversion to a duration truncates.\<close>

definition pause :: "int \<Rightarrow> rat \<Rightarrow> int" where
  "pause b rnd = \<lfloor>rat_of_int b * (8 / 10 + 4 / 10 * rnd)\<rfloor>"

text \<open>
  What happens in one turn of the loop of \<open>cmdRun\<close>: whether the connection is made, the events of the
  session, whether the program is interrupted during the session or the pause, and the random number.
\<close>

record turn =
  tu_dial :: bool
  tu_events :: "wevent list"
  tu_stop_session :: bool
  tu_stop_pause :: bool
  tu_random :: rat

text \<open>The result: whether the program has returned, the pauses it made, its state. \<open>[]\<close> is the loop head.\<close>

fun run_loop :: "machine \<Rightarrow> turn list \<Rightarrow> int \<Rightarrow> node \<Rightarrow> bool \<times> int list \<times> node" where
  "run_loop mc [] backoff n = (False, [], n)"
| "run_loop mc (t # ts) backoff n =
     (let (why, n1) = runSession mc (tu_dial t) (tu_events t) n;
          n2 = (stopAll n1)\<lparr>nd_jobs := []\<rparr>
      in if tu_stop_session t then (True, [], n2)
         else if tu_stop_pause t then (True, [pause backoff (tu_random t)], n2)
         else (case run_loop mc ts (next_backoff backoff) n2 of
           (fin, ps, n3) \<Rightarrow> (fin, pause backoff (tu_random t) # ps, n3)))"

text \<open>\<open>cmdRun\<close>: the last \<open>--config\<close> that has a value is the path of the configuration.\<close>

fun run_args :: "string list \<Rightarrow> string \<Rightarrow> string" where
  "run_args [] path = path"
| "run_args [a] path = path"
| "run_args (a # b # as) path = (if a = ''--config'' then run_args as b else run_args (b # as) path)"

definition cmdRun :: "machine \<Rightarrow> (string list \<Rightarrow> string) \<Rightarrow> (string \<Rightarrow> file_config option) \<Rightarrow> string list \<Rightarrow> turn list \<Rightarrow>
    os \<Rightarrow> (nat \<Rightarrow> bool) \<Rightarrow> (bool \<times> int list \<times> node) option" where
  "cmdRun mc join load args ts s net = (case load (run_args args (defaultConfigPath mc join)) of
     None \<Rightarrow> None
   | Some cfg \<Rightarrow> Some (run_loop mc ts second
       \<lparr>nd_cfg = cfg, nd_jobs = [], nd_os = s, nd_sent = [], nd_sends = 0, nd_net = net\<rparr>))"

end
