(* ===== verification/EngineProps.thy ===== *)
theory EngineProps
  imports Engine "HOL-Library.Multiset"
begin

text \<open>
  The engines keep their contract; the arguments of an external miner are the template with its
  placeholders replaced, whatever the order of the replacements; a pinned binary is run only with its
  hash; the tail of the output is its last 50 lines.
\<close>

subsection \<open>The contract\<close>

text \<open>
  What the worker relies on, for every engine: a successful start leaves it running and a failed one
  changes nothing about that, a stopped engine is not running, and an engine that is not running reports
  no rate, no shares and that it is not running.
\<close>

locale mining_engine =
  fixes running :: "'e \<Rightarrow> bool"
    and start :: "'e \<Rightarrow> os \<Rightarrow> engine_err option \<times> 'e \<times> os"
    and stop :: "'e \<Rightarrow> os \<Rightarrow> 'e \<times> os"
    and stats :: "'e \<Rightarrow> os \<Rightarrow> engine_stats \<times> 'e \<times> os"
    and allocate :: "allocation \<Rightarrow> 'e \<Rightarrow> 'e"
  assumes start_running: "start e s = (None, e', s') \<Longrightarrow> running e'"
    and start_failed: "start e s = (Some x, e', s') \<Longrightarrow> running e' = running e"
    and stop_idle: "stop e s = (e', s') \<Longrightarrow> \<not> running e'"
    and stats_running: "stats e s = (st, e', s') \<Longrightarrow> running e' = running e"
    and stats_idle: "\<not> running e \<Longrightarrow> stats e s = (st, e', s') \<Longrightarrow>
      es_rate st = 0 \<and> es_acc st = 0 \<and> es_rej st = 0 \<and> \<not> es_running st"
    and allocate_running: "running (allocate a e) = running e"
begin

lemma stopped_reports_nothing:
  assumes "stop e s = (e1, s1)" and "stats (allocate a e1) s2 = (st, e2, s3)"
  shows "es_rate st = 0 \<and> es_acc st = 0 \<and> es_rej st = 0 \<and> \<not> es_running st"
  using stats_idle [OF _ assms(2)] stop_idle [OF assms(1)] allocate_running by blast

lemma honest: "stats e s = (st, e', s') \<Longrightarrow> es_rate st \<noteq> 0 \<Longrightarrow> running e"
  using stats_idle by blast

end

interpretation adapter_engine: mining_engine a_running adapter_Start adapter_Stop
    "\<lambda>e s. (adapter_Stats e s, e, s)" adapter_SetAllocation
  by unfold_locales
    (auto simp: adapter_Start_def adapter_Stop_def adapter_Stats_def adapter_SetAllocation_def no_stats_def Let_def
      split: if_splits option.splits)

interpretation native_engine: mining_engine "\<lambda>_. False" "\<lambda>e s. case native_Start s of (r, s') \<Rightarrow> (r, e :: unit, s')"
    "\<lambda>e s. (e, s)" "\<lambda>e s. (native_Stats, e, s)" "\<lambda>_ e. e"
  by unfold_locales (auto simp: native_Start_def native_Stats_def no_stats_def)

interpretation simulated_engine: mining_engine si_running "\<lambda>e s. (None, sim_Start e s, s)" "\<lambda>e s. (sim_Stop e, s)"
    sim_Stats sim_SetAllocation
  by unfold_locales
    (auto simp: sim_Start_def sim_Stop_def sim_Stats_def sim_SetAllocation_def no_stats_def Let_def split: if_splits)

subsection \<open>Templates\<close>

text \<open>
  A template argument is text and placeholders; a placeholder is a name in braces. The reference
  rendering replaces every known placeholder at once.
\<close>

datatype piece = Lit string | Ph string

definition brace_free :: "string \<Rightarrow> bool" where
  "brace_free s \<longleftrightarrow> CHR ''{'' \<notin> set s \<and> CHR ''}'' \<notin> set s"

definition placeholder :: "string \<Rightarrow> bool" where
  "placeholder k \<longleftrightarrow> (\<exists>n. brace_free n \<and> k = ''{'' @ n @ ''}'')"

fun flat :: "piece \<Rightarrow> string" where
  "flat (Lit w) = w"
| "flat (Ph k) = k"

fun wf_piece :: "piece \<Rightarrow> bool" where
  "wf_piece (Lit w) = brace_free w"
| "wf_piece (Ph k) = placeholder k"

fun subst_piece :: "string \<Rightarrow> string \<Rightarrow> piece \<Rightarrow> piece" where
  "subst_piece k v (Lit w) = Lit w"
| "subst_piece k v (Ph k') = (if k' = k then Lit v else Ph k')"

fun value_of :: "(string \<times> string) list \<Rightarrow> piece \<Rightarrow> string" where
  "value_of repl (Lit w) = w"
| "value_of repl (Ph k) = (case map_of repl k of Some v \<Rightarrow> v | None \<Rightarrow> k)"

lemma replace_text: "CHR ''{'' \<notin> set w \<Longrightarrow> placeholder k \<Longrightarrow> replace_all k v (w @ s) = w @ replace_all k v s"
  by (induction w) (auto simp: placeholder_def)

lemma replace_hit: "placeholder k \<Longrightarrow> replace_all k v (k @ s) = v @ replace_all k v s"
proof -
  assume "placeholder k"
  then obtain c r where k: "k = c # r" by (auto simp: placeholder_def)
  have "replace_all k v (k @ s) = (if k \<noteq> [] \<and> has_prefix k (k @ s) then v @ replace_all k v (drop (length k) (k @ s))
      else c # replace_all k v (r @ s))"
    unfolding k append_Cons by (rule replace_all.simps(2))
  then show ?thesis by (simp add: k)
qed

lemma placeholder_prefix: "placeholder k \<Longrightarrow> placeholder k' \<Longrightarrow> has_prefix k (k' @ s) \<Longrightarrow> k = k'"
proof -
  assume k: "placeholder k" and k': "placeholder k'" and p: "has_prefix k (k' @ s)"
  obtain n n' where n: "brace_free n" "k = ''{'' @ n @ ''}''" and n': "brace_free n'" "k' = ''{'' @ n' @ ''}''"
    using k k' by (auto simp: placeholder_def)
  obtain t where "k' @ s = k @ t" using p by (auto simp: has_prefix_iff)
  then have e: "n' @ CHR ''}'' # s = n @ CHR ''}'' # t" by (simp add: n(2) n'(2))
  have "takeWhile (\<lambda>x. x \<noteq> CHR ''}'') (n' @ CHR ''}'' # s) = n'" "takeWhile (\<lambda>x. x \<noteq> CHR ''}'') (n @ CHR ''}'' # t) = n"
    using n(1) n'(1) by (simp_all add: takeWhile_notin brace_free_def)
  with e show "k = k'" by (simp add: n(2) n'(2))
qed

lemma replace_miss:
  assumes "placeholder k" "placeholder k'" "k \<noteq> k'"
  shows "replace_all k v (k' @ s) = k' @ replace_all k v s"
proof -
  obtain n' where n': "brace_free n'" "k' = ''{'' @ n' @ ''}''" using assms(2) by (auto simp: placeholder_def)
  have "\<not> has_prefix k (k' @ s)" using placeholder_prefix [OF assms(1,2)] assms(3) by blast
  then have "replace_all k v (k' @ s) = CHR ''{'' # replace_all k v ((n' @ ''}'') @ s)" by (simp add: n'(2))
  also have "\<dots> = CHR ''{'' # (n' @ ''}'') @ replace_all k v s"
    using n'(1) assms(1) by (subst replace_text) (auto simp: brace_free_def)
  finally show ?thesis by (simp add: n'(2))
qed

lemma replace_pieces:
  assumes "placeholder k" and "\<forall>p \<in> set ps. wf_piece p"
  shows "replace_all k v (concat (map flat ps)) = concat (map flat (map (subst_piece k v) ps))"
  using assms(2)
proof (induction ps)
  case (Cons p ps)
  then show ?case
    using assms(1) replace_text [OF _ assms(1)] replace_hit [OF assms(1)] replace_miss [OF assms(1)]
    by (cases p) (auto simp: brace_free_def)
qed simp

lemma render_pieces:
  assumes "\<forall>(k, v) \<in> set repl. placeholder k \<and> brace_free v" and "distinct (map fst repl)" and "\<forall>p \<in> set ps. wf_piece p"
  shows "render_arg repl (concat (map flat ps)) = concat (map (value_of repl) ps)"
  using assms
proof (induction repl arbitrary: ps)
  case Nil
  have "flat p = value_of [] p" for p by (cases p) simp_all
  then show ?case by (simp add: render_arg_def)
next
  case (Cons kv repl)
  obtain k v where kv: "kv = (k, v)" by fastforce
  have wf: "wf_piece (subst_piece k v p)" if "wf_piece p" for p
    using that Cons.prems(1) by (cases p) (auto simp: kv)
  have val: "value_of repl (subst_piece k v p) = value_of (kv # repl) p" for p
    using Cons.prems(2) by (cases p) (auto simp: kv dest: map_of_SomeD split: option.splits)
  have "render_arg (kv # repl) (concat (map flat ps)) = render_arg repl (concat (map flat (map (subst_piece k v) ps)))"
    using replace_pieces [of k ps v] Cons.prems(1,3) by (simp add: render_arg_def kv)
  also have "\<dots> = concat (map (value_of repl) (map (subst_piece k v) ps))"
    using Cons.prems wf by (intro Cons.IH) auto
  finally show ?case by (simp add: val comp_def)
qed

lemma value_of_cong: "map_of r = map_of r' \<Longrightarrow> value_of r p = value_of r' p"
  by (cases p) simp_all

lemma show_nat_digits: "c \<in> set (show_nat n) \<Longrightarrow> c \<in> set ''0123456789''"
proof (induction n arbitrary: c rule: show_nat.induct)
  case (1 n)
  have d: "char_of (48 + d) \<in> set ''0123456789''" if "d < 10" for d :: nat
  proof -
    have "\<forall>d \<in> set [0..<10]. char_of (48 + d) \<in> set ''0123456789''" by code_simp
    with that show ?thesis by simp
  qed
  show ?case
  proof (cases "n < 10")
    case True
    with 1 d [of n] show ?thesis by (simp add: show_nat.simps [of n])
  next
    case False
    then have "c \<in> set (show_nat (n div 10)) \<or> c = char_of (48 + n mod 10)"
      using 1(2) by (subst (asm) show_nat.simps) auto
    with 1(1) [OF False] d [of "n mod 10"] show ?thesis by (metis mod_less_divisor zero_less_numeral)
  qed
qed

lemma show_int_brace_free: "brace_free (show_int n)"
  using show_nat_digits [of "CHR ''{''" "nat n"] show_nat_digits [of "CHR ''}''" "nat n"]
    show_nat_digits [of "CHR ''{''" "nat (- n)"] show_nat_digits [of "CHR ''}''" "nat (- n)"]
  by (auto simp: brace_free_def show_int_def)

lemma SplitHostPort_subset: "SplitHostPort s = Some (h, p) \<Longrightarrow> set h \<subseteq> set s \<and> set p \<subseteq> set s"
  by (auto simp: SplitHostPort_def Let_def split: option.splits if_splits dest!: in_set_takeD in_set_dropD)

lemma poolHostPort_subset: "poolHostPort pool = (h, p) \<Longrightarrow> set h \<subseteq> set pool \<and> set p \<subseteq> set pool"
proof -
  assume e: "poolHostPort pool = (h, p)"
  define s where "s = (case index_of ''://'' pool of None \<Rightarrow> pool | Some i \<Rightarrow> drop (i + 3) pool)"
  have 1: "set s \<subseteq> set pool" by (auto simp: s_def split: option.splits dest: in_set_dropD)
  have 2: "set (trim_suffix ''/'' s) \<subseteq> set s" by (auto simp: trim_suffix_def dest: in_set_takeD)
  show ?thesis
  proof (cases "SplitHostPort (trim_suffix ''/'' s)")
    case None
    then show ?thesis using e 1 2 by (auto simp: poolHostPort_def s_def [symmetric] Let_def)
  next
    case (Some hp)
    then have "SplitHostPort (trim_suffix ''/'' s) = Some (h, p)"
      using e by (simp add: poolHostPort_def s_def [symmetric] Let_def split: prod.splits)
    from SplitHostPort_subset [OF this] 1 2 show ?thesis by blast
  qed
qed

lemma replacements_wf:
  assumes "brace_free (ec_pool cfg)" "brace_free (ec_wallet cfg)" "brace_free (ec_worker cfg)"
  shows "\<forall>(k, v) \<in> set (replacements cfg port). placeholder k \<and> brace_free v"
    and "distinct (map fst (replacements cfg port))"
proof -
  obtain h p where hp: "poolHostPort (ec_pool cfg) = (h, p)" by fastforce
  have "brace_free h" "brace_free p"
    using poolHostPort_subset [OF hp] assms(1) by (auto simp: brace_free_def)
  then show "\<forall>(k, v) \<in> set (replacements cfg port). placeholder k \<and> brace_free v"
    using assms show_int_brace_free by (auto simp: replacements_def hp placeholder_def brace_free_def)
  show "distinct (map fst (replacements cfg port))"
    by (simp add: replacements_def hp)
qed

text \<open>
  C29. The arguments of an external miner are the adapter's template with every known placeholder replaced by
  its value, at once, and do not depend on the order in which Go ranges over the map of replacements,
  provided that the pool, the wallet and the worker name have no braces.
\<close>

theorem renderArgs_reference:
  assumes "\<forall>i r. mset (perm i r) = mset r"
    and "\<forall>ps \<in> set tmpl. \<forall>p \<in> set ps. wf_piece p"
    and "brace_free (ec_pool cfg)" "brace_free (ec_wallet cfg)" "brace_free (ec_worker cfg)"
  shows "renderArgs perm (map (\<lambda>ps. concat (map flat ps)) tmpl) cfg port =
    map (\<lambda>ps. concat (map (value_of (replacements cfg port)) ps)) tmpl"
proof (rule nth_equalityI)
  let ?r = "replacements cfg port"
  fix i
  assume "i < length (renderArgs perm (map (\<lambda>ps. concat (map flat ps)) tmpl) cfg port)"
  then have i: "i < length tmpl" by (simp add: renderArgs_def)
  have set_eq: "set (perm i ?r) = set ?r" by (metis assms(1) set_mset_mset)
  have d: "distinct (map fst (perm i ?r))"
    using replacements_wf(2) [OF assms(3-5)] assms(1) by (metis mset_map mset_eq_imp_distinct_iff)
  have "map_of (perm i ?r) = map_of ?r"
    using map_of_inject_set [OF d replacements_wf(2) [OF assms(3-5)]] set_eq by blast
  then have v: "value_of (perm i ?r) = value_of ?r"
    using value_of_cong by blast
  have "render_arg (perm i ?r) (concat (map flat (tmpl ! i))) = concat (map (value_of (perm i ?r)) (tmpl ! i))"
    using replacements_wf(1) [OF assms(3-5)] assms(2) i set_eq d by (intro render_pieces) auto
  then show "renderArgs perm (map (\<lambda>ps. concat (map flat ps)) tmpl) cfg port ! i =
      map (\<lambda>ps. concat (map (value_of ?r) ps)) tmpl ! i"
    using i by (simp add: renderArgs_def nth_enumerate_eq v)
qed (simp add: renderArgs_def)

definition demo_cfg :: engine_config where
  "demo_cfg = zero_config\<lparr>ec_pool := ''ssl://pool.example:3333'', ec_wallet := ''44AFF'', ec_worker := ''w-m''\<rparr>"

theorem renderArgs_reference_witness:
  "renderArgs (\<lambda>_. rev) [''-o'', ''{pool_host}:{pool_port}'', ''--threads={threads}''] demo_cfg 4000 =
    [''-o'', ''pool.example:3333'', ''--threads=1'']"
proof -
  let ?t = "[[Lit ''-o''], [Ph ''{pool_host}'', Lit '':'', Ph ''{pool_port}''], [Lit ''--threads='', Ph ''{threads}'']]"
  have n: "show_int (max 1 (ec_threads demo_cfg)) = ''1''" by code_simp
  have p: "poolHostPort (ec_pool demo_cfg) = (''pool.example'', ''3333'')" by code_simp
  have "placeholder ''{pool_host}''" "placeholder ''{pool_port}''" "placeholder ''{threads}''"
    by (auto simp: placeholder_def brace_free_def)
  then have "renderArgs (\<lambda>_. rev) (map (\<lambda>ps. concat (map flat ps)) ?t) demo_cfg 4000 =
      map (\<lambda>ps. concat (map (value_of (replacements demo_cfg 4000)) ps)) ?t"
    by (intro renderArgs_reference) (simp_all add: demo_cfg_def zero_config_def brace_free_def)
  then show ?thesis
    by (simp add: replacements_def p n)
qed

subsection \<open>Pools and binaries\<close>

text \<open>
  Of a pool URL, with any scheme and with or without a final slash, the host and the port are recovered.
\<close>

lemma poolHostPort_url:
  assumes "CHR '':'' \<notin> set scheme" and "host_name h" "host_name p" "h \<noteq> []"
  shows "poolHostPort (scheme @ ''://'' @ h @ '':'' @ p) = (h, p) \<and>
    poolHostPort (scheme @ ''://'' @ h @ '':'' @ p @ ''/'') = (h, p)"
proof -
  have idx: "index_of ''://'' (scheme @ ''://'' @ r) = Some (length scheme)" for r
    using assms(1) by (induction scheme) auto
  have slash: "CHR ''/'' \<notin> set p" using assms(3) by (auto simp: host_name_def)
  have 1: "trim_suffix ''/'' (h @ '':'' @ p) = h @ '':'' @ p"
    using slash by (cases p rule: rev_cases) (auto simp: trim_suffix_def has_suffix_def)
  have 2: "trim_suffix ''/'' (h @ '':'' @ p @ ''/'') = h @ '':'' @ p"
    by (simp add: trim_suffix_def has_suffix_def)
  show ?thesis
    using idx [of "h @ '':'' @ p"] idx [of "h @ '':'' @ p @ ''/''"] 1 2 SplitHostPort_join [OF assms(2-4)]
    by (simp add: poolHostPort_def Let_def)
qed

text \<open>
  C28. A pinned binary is run only with its hash: whatever path is prepared, when the configuration pins a hash
  for the platform, the file at that path could be read and its SHA-256 is the pinned one, up to case.
\<close>

theorem PrepareWithPaths_pinned:
  assumes "PrepareWithPaths cfg dir path e s = (None, e', s')"
    and "ec_adapter cfg = Some ad" and "map_of (ad_sha256 ad) (goos (hst s) @ ''/'' @ goarch (hst s)) = Some want" "want \<noteq> []"
  shows "\<exists>bytes. file_bytes (hst s) (a_binary e') = Some bytes \<and> EqualFold (sha256_hex (hst s) bytes) want"
proof -
  have "ResolveBinary (hst s) (Some ad) dir path = Inr (a_binary e')"
    using assms(1,2) by (auto simp: PrepareWithPaths_def split: sum.splits option.splits)
  then show ?thesis
    using assms(3,4) by (auto simp: ResolveBinary_def fileSHA256_def split: if_splits option.splits)
qed

definition demo_host :: host where
  "demo_host = \<lparr>goos = ''linux'', goarch = ''amd64'', is_file = (\<lambda>p. p = ''/opt/xmrig''), look_path = (\<lambda>_. None),
     join_path = (\<lambda>a b. a @ ''/'' @ b), file_bytes = (\<lambda>p. if p = ''/opt/xmrig'' then Some ''elf'' else None),
     sha256_hex = (\<lambda>_. ''ab12''), free_port = (\<lambda>_. Some 4000), can_spawn = (\<lambda>_. True), lower_uni = id,
     xmrig_api = (\<lambda>_ _ _. None), lol_api = (\<lambda>_ _. None), jitter = (\<lambda>_. 1 / 2), map_order = (\<lambda>_ r. r)\<rparr>"

definition demo_os :: os where
  "demo_os = \<lparr>hst = demo_host, os_now = 0, os_step = 0, next_pid = 1, procs = []\<rparr>"

definition demo_adapter :: adapter_config where
  "demo_adapter = \<lparr>ad_binary = ''xmrig'', ad_version = [], ad_sha256 = [(''linux/amd64'', ''AB12'')], ad_args = [''-o'', ''{pool}''],
     ad_api_kind = ''xmrig'', ad_api_port = 0, ad_config_kind = [], ad_note = []\<rparr>"

theorem PrepareWithPaths_pinned_witness:
  "a_binary (fst (snd (PrepareWithPaths (demo_cfg\<lparr>ec_adapter := Some demo_adapter\<rparr>) ''/opt'' [] adapter_New demo_os))) = ''/opt/xmrig'' \<and>
   EqualFold (sha256_hex demo_host ''elf'') ''AB12''"
proof -
  let ?cfg = "demo_cfg\<lparr>ec_adapter := Some demo_adapter\<rparr>"
  let ?r = "PrepareWithPaths ?cfg ''/opt'' [] adapter_New demo_os"
  have r: "fst ?r = None \<and> a_binary (fst (snd ?r)) = ''/opt/xmrig''" by code_simp
  have "\<exists>bytes. file_bytes (hst demo_os) (a_binary (fst (snd ?r))) = Some bytes \<and> EqualFold (sha256_hex (hst demo_os) bytes) ''AB12''"
  proof (rule PrepareWithPaths_pinned)
    show "?r = (None, fst (snd ?r), snd (snd ?r))" using r by (metis prod.collapse)
    show "ec_adapter ?cfg = Some demo_adapter" by simp
    show "map_of (ad_sha256 demo_adapter) (goos (hst demo_os) @ ''/'' @ goarch (hst demo_os)) = Some ''AB12''"
      by (simp add: demo_adapter_def demo_os_def demo_host_def)
  qed simp
  with r show ?thesis by (simp add: demo_os_def demo_host_def)
qed

subsection \<open>The tail of the output\<close>

interpretation output_tail: bounded_tail push_tail_line 50
proof
  fix x and l :: "string list"
  show "push_tail_line x l = drop (length l + 1 - 50) (l @ [x])"
    by (cases "length (l @ [x]) > 50") (simp_all add: push_tail_line_def Let_def)
qed

lemma tail_bytes: "fold tail_byte s (line, l) =
  (let ls = split_on CHR ''\<newline>'' s; ls = (line @ hd ls) # tl ls in (List.last ls, fold push_tail_line (butlast ls) l))"
proof (induction s arbitrary: line l)
  case (Cons c s)
  obtain w ws where "split_on CHR ''\<newline>'' s = w # ws"
    using split_on_nonempty [of "CHR ''\<newline>''" s] by (cases "split_on CHR ''\<newline>'' s") auto
  then show ?case using Cons.IH by (auto simp: tail_byte_def Let_def)
qed simp

lemma tailLogs_concat: "tailLogs chunks st = fold tail_byte (concat chunks) st"
  by (induction chunks arbitrary: st) (simp_all add: tailLogs_def)

text \<open>
  C30. The tail of a miner's output refines its specification, the last 50 complete lines of what was read,
  with the unfinished line kept for later, however the output is cut into reads.
\<close>

theorem tailLogs_refines:
  "tailLogs chunks ([], []) =
     (let ls = split_on CHR ''\<newline>'' (concat chunks) in (List.last ls, drop (length ls - 51) (butlast ls)))"
proof -
  let ?ls = "split_on CHR ''\<newline>'' (concat chunks)"
  obtain w ws where "?ls = w # ws" using split_on_nonempty by (cases ?ls) auto
  then show ?thesis
    by (simp add: tailLogs_concat tail_bytes output_tail.pushes_tail Let_def)
qed

end
