(* ===== verification/WorkerProps.thy ===== *)
theory WorkerProps
  imports Worker EngineProps
begin

text \<open>
  The worker: its engines keep the contract, every process it has started belongs to a job and is
  killed when the session ends, a job is acknowledged once, and pauses between connections grow from one
  second to one minute.
\<close>

subsection \<open>Engines\<close>

definition eng_running :: "any_engine \<Rightarrow> bool" where
  "eng_running e = (case e of ESim x \<Rightarrow> si_running x | ENat \<Rightarrow> False | EAda a \<Rightarrow> a_running a)"

interpretation node_engine: mining_engine eng_running eng_Start eng_Stop eng_Stats eng_SetAllocation
proof
  fix e s e' s' x st al
  show "eng_Start e s = (None, e', s') \<Longrightarrow> eng_running e'"
    by (cases e) (auto simp: eng_Start_def eng_running_def sim_Start_def native_Start_def
      dest: adapter_engine.start_running split: prod.splits)
  show "eng_Start e s = (Some x, e', s') \<Longrightarrow> eng_running e' = eng_running e"
    by (cases e) (auto simp: eng_Start_def eng_running_def native_Start_def
      dest: adapter_engine.start_failed split: prod.splits)
  show "eng_Stop e s = (e', s') \<Longrightarrow> \<not> eng_running e'"
    by (cases e) (auto simp: eng_Stop_def eng_running_def sim_Stop_def dest: adapter_engine.stop_idle split: prod.splits)
  show "eng_Stats e s = (st, e', s') \<Longrightarrow> eng_running e' = eng_running e"
    by (cases e) (auto simp: eng_Stats_def eng_running_def dest: simulated_engine.stats_running split: prod.splits)
  show "\<not> eng_running e \<Longrightarrow> eng_Stats e s = (st, e', s') \<Longrightarrow>
      es_rate st = 0 \<and> es_acc st = 0 \<and> es_rej st = 0 \<and> \<not> es_running st"
  proof (cases e)
    case (ESim y)
    assume "\<not> eng_running e" "eng_Stats e s = (st, e', s')"
    then show ?thesis
      using simulated_engine.stats_idle [of y s st] by (simp add: ESim eng_Stats_def eng_running_def split: prod.splits)
  next
    case (EAda a)
    assume "\<not> eng_running e" "eng_Stats e s = (st, e', s')"
    then have "\<not> a_running a" "adapter_Stats a s = st"
      by (auto simp: EAda eng_Stats_def eng_running_def)
    then show ?thesis using adapter_engine.stats_idle [of a s st a s] by blast
  qed (auto simp: eng_Stats_def native_Stats_def no_stats_def)
  show "eng_running (eng_SetAllocation al e) = eng_running e"
    by (cases e) (simp_all add: eng_SetAllocation_def eng_running_def sim_SetAllocation_def adapter_engine.allocate_running)
qed

subsection \<open>Processes\<close>

lemma procs_kill [simp]: "procs (kill pid s) = filter (\<lambda>p. fst p \<noteq> pid) (procs s)"
  by (simp add: kill_def)

lemma procs_cancel: "procs (cancel_ctx c s) = filter (\<lambda>p. c \<noteq> Some (fst p)) (procs s)"
  by (cases c) (auto simp: cancel_ctx_def intro!: filter_cong)

lemma procs_Stop: "procs (snd (eng_Stop e s)) = filter (\<lambda>p. eng_pid e \<noteq> Some (fst p)) (procs s)"
  by (auto simp: eng_Stop_def eng_pid_def adapter_Stop_def split: any_engine.splits option.splits intro!: filter_cong)

lemma procs_stop_job:
  "procs (snd (stop_job j s)) =
     filter (\<lambda>p. jr_cancel j \<noteq> Some (fst p) \<and> eng_pid (jr_eng j) \<noteq> Some (fst p)) (procs s)"
  by (simp add: stop_job_def procs_Stop procs_cancel conj_commute)

lemma procs_stop_jobs:
  "procs (fold (\<lambda>j s. snd (stop_job (snd j) s)) js s) =
     filter (\<lambda>p. \<forall>j \<in> snd ` set js. jr_cancel j \<noteq> Some (fst p) \<and> eng_pid (jr_eng j) \<noteq> Some (fst p)) (procs s)"
  by (induction js arbitrary: s) (auto simp: procs_stop_job intro!: filter_cong)

lemma procs_Start:
  assumes "eng_Start e s = (r, e', s')"
  shows "r \<noteq> None \<Longrightarrow> procs s' = procs s"
    and "p \<in> set (procs s') \<Longrightarrow> p \<in> set (procs s) \<or> eng_pid e' = Some (fst p)"
  using assms
  by (auto simp: eng_Start_def eng_pid_def native_Start_def adapter_Start_def Let_def
    split: any_engine.splits if_splits option.splits)

lemma procs_prepare: "prepare_engine cfg ecfg e s = (r, e', s') \<Longrightarrow> procs s' = procs s"
  by (auto simp: prepare_engine_def PrepareWithPaths_def
    split: any_engine.splits sum.splits option.splits prod.splits if_splits)

lemma Stats_keeps: "eng_Stats e s = (st, e', s') \<Longrightarrow> procs s' = procs s \<and> eng_pid e' = eng_pid e"
  by (auto simp: eng_Stats_def eng_pid_def sim_Stats_def Let_def split: any_engine.splits if_splits)

lemma node_send_frame [simp]:
  "nd_jobs (snd (node_send m n)) = nd_jobs n" "nd_os (snd (node_send m n)) = nd_os n" "nd_cfg (snd (node_send m n)) = nd_cfg n"
  by (simp_all add: node_send_def)

definition covered :: "node \<Rightarrow> bool" where
  "covered n \<longleftrightarrow> distinct (map fst (nd_jobs n)) \<and>
     (\<forall>p \<in> set (procs (nd_os n)). \<exists>(i, j) \<in> set (nd_jobs n). eng_pid (jr_eng j) = Some (fst p))"

lemma covered_frame [simp]: "covered (snd (node_send m n)) = covered n"
  by (simp add: covered_def)

lemma covered_fewer:
  "covered n \<Longrightarrow> nd_jobs m = nd_jobs n \<Longrightarrow> set (procs (nd_os m)) \<subseteq> set (procs (nd_os n)) \<Longrightarrow> covered m"
  by (auto simp: covered_def)

text \<open>One job changes its engine: the processes that are new, or were the job's, are the new engine's.\<close>

lemma covered_update:
  assumes "covered n" and "distinct (map fst js)" and "map_of js i = Some j"
    and "\<And>k x. k \<noteq> i \<Longrightarrow> map_of (nd_jobs n) k = Some x \<Longrightarrow> map_of js k = Some x"
    and "\<And>p. p \<in> set (procs s) \<Longrightarrow> eng_pid (jr_eng j) = Some (fst p) \<or>
      p \<in> set (procs (nd_os n)) \<and> (\<forall>x. map_of (nd_jobs n) i = Some x \<longrightarrow> eng_pid (jr_eng x) \<noteq> Some (fst p))"
  shows "covered (n\<lparr>nd_os := s, nd_jobs := js\<rparr>)"
proof -
  have "\<exists>(k, x) \<in> set js. eng_pid (jr_eng x) = Some (fst p)" if "p \<in> set (procs s)" for p
  proof (cases "eng_pid (jr_eng j) = Some (fst p)")
    case True
    then show ?thesis using map_of_SomeD [OF assms(3)] by blast
  next
    case False
    then have p: "p \<in> set (procs (nd_os n))" "\<And>x. map_of (nd_jobs n) i = Some x \<Longrightarrow> eng_pid (jr_eng x) \<noteq> Some (fst p)"
      using assms(5) [OF that] by blast+
    obtain k x where kx: "(k, x) \<in> set (nd_jobs n)" "eng_pid (jr_eng x) = Some (fst p)"
      using assms(1) p(1) by (auto simp: covered_def)
    then have k: "map_of (nd_jobs n) k = Some x" using assms(1) by (simp add: covered_def)
    then have "k \<noteq> i" using p(2) kx(2) by auto
    then show ?thesis using map_of_SomeD [OF assms(4) [OF _ k]] kx(2) by blast
  qed
  then show ?thesis using assms(2) by (simp add: covered_def)
qed

lemma covered_handleAssign:
  assumes "covered n" and "jo_job p \<notin> fst ` set (nd_jobs n)"
  shows "covered (handleAssign p n)"
proof (cases "jo_job p = [] \<or> pick_engine (nd_cfg n) p = None")
  case True
  then show ?thesis using assms(1) by (auto simp: handleAssign_def)
next
  case False
  then obtain e where e: "jo_job p \<noteq> []" "pick_engine (nd_cfg n) p = Some e" by auto
  obtain r e1 s1 where prep: "prepare_engine (nd_cfg n) (offer_config p) e (nd_os n) = (r, e1, s1)" by (metis prod_cases3)
  obtain q e2 s2 where start: "eng_Start e1 s1 = (q, e2, s2)" by (metis prod_cases3)
  note same = procs_prepare [OF prep]
  have old: "covered (n\<lparr>nd_os := s\<rparr>)" if "procs s = procs (nd_os n)" for s
    using covered_fewer [OF assms(1)] that by simp
  have new: "map_of (nd_jobs n) (jo_job p) = None" using assms(2) by (simp add: map_of_eq_None_iff)
  let ?j = "\<lparr>jr_id = jo_job p, jr_miner = jo_miner p, jr_eng = e2, jr_cancel = eng_pid e2\<rparr>"
  have "covered (n\<lparr>nd_os := s2, nd_jobs := AList.update (jo_job p) ?j (nd_jobs n)\<rparr>)"
    using procs_Start(2) [OF start] assms(1) same new
    by (intro covered_update [OF assms(1), where i = "jo_job p" and j = ?j])
      (auto simp: distinct_update covered_def update_conv')
  then show ?thesis
    using e old [OF same] old [of s2] procs_Start(1) [OF start] same
    by (cases r; cases q) (simp_all add: handleAssign_def prep start)
qed

lemma covered_handleCancel: "covered n \<Longrightarrow> covered (handleCancel i n)"
proof (cases "map_of (nd_jobs n) i")
  case (Some j)
  assume n: "covered n"
  have "\<exists>(k, x) \<in> set (AList.delete i (nd_jobs n)). eng_pid (jr_eng x) = Some (fst p)"
    if p: "p \<in> set (procs (nd_os n))" "eng_pid (jr_eng j) \<noteq> Some (fst p)" for p
  proof -
    obtain k x where kx: "(k, x) \<in> set (nd_jobs n)" "eng_pid (jr_eng x) = Some (fst p)"
      using n p(1) by (auto simp: covered_def)
    then have "map_of (nd_jobs n) k = Some x" using n by (simp add: covered_def)
    then have "k \<noteq> i" using p(2) kx(2) Some by auto
    then show ?thesis using kx by (auto simp: AList.delete_eq)
  qed
  then show ?thesis
    using n Some by (auto simp: handleCancel_def covered_def procs_stop_job distinct_delete)
qed (simp add: handleCancel_def)

lemma covered_handleAllocation: "covered n \<Longrightarrow> covered (handleAllocation i cpu gpu n)"
proof (cases "map_of (nd_jobs n) i")
  case (Some j)
  assume n: "covered n"
  let ?e = "eng_SetAllocation \<lparr>al_cpu = cpu, al_gpu = gpu, al_threads = 0\<rparr> (jr_eng j)"
  have upd: "covered (n\<lparr>nd_os := s, nd_jobs := AList.update i (j\<lparr>jr_eng := e\<rparr>) (nd_jobs n)\<rparr>)"
    if "\<And>p. p \<in> set (procs s) \<Longrightarrow> eng_pid e = Some (fst p) \<or> p \<in> set (procs (nd_os n)) \<and> eng_pid (jr_eng j) \<noteq> Some (fst p)" for e s
    using n that Some
    by (intro covered_update [OF n, where i = i and j = "j\<lparr>jr_eng := e\<rparr>"]) (auto simp: distinct_update covered_def update_conv')
  have pid: "eng_pid ?e = eng_pid (jr_eng j)"
    by (auto simp: eng_SetAllocation_def eng_pid_def adapter_SetAllocation_def split: any_engine.splits)
  show ?thesis
  proof (cases ?e)
    case (EAda a)
    obtain a1 s1 where st: "adapter_Stop a (nd_os n) = (a1, s1)" by fastforce
    obtain r a2 s2 where go: "adapter_Start a1 s1 = (r, a2, s2)" by (metis prod_cases3)
    have 1: "procs s1 = filter (\<lambda>p. eng_pid (jr_eng j) \<noteq> Some (fst p)) (procs (nd_os n))"
      using procs_Stop [of ?e "nd_os n"] pid by (simp add: EAda eng_Stop_def st)
    have 2: "p \<in> set (procs s1) \<or> eng_pid (EAda a2) = Some (fst p)" if "p \<in> set (procs s2)" for p
      using procs_Start(2) [of "EAda a1" s1 r "EAda a2" s2 p] that by (simp add: eng_Start_def go)
    have "covered (n\<lparr>nd_os := s2, nd_jobs := AList.update i (j\<lparr>jr_eng := EAda a2\<rparr>) (nd_jobs n)\<rparr>)"
      using 1 2 by (intro upd) auto
    then show ?thesis by (simp add: handleAllocation_def Some EAda st go)
  next
    case (ESim x)
    have "covered (n\<lparr>nd_os := nd_os n, nd_jobs := AList.update i (j\<lparr>jr_eng := ?e\<rparr>) (nd_jobs n)\<rparr>)"
      using pid by (intro upd) (auto simp: ESim)
    then show ?thesis by (simp add: handleAllocation_def Some ESim)
  next
    case ENat
    have "covered (n\<lparr>nd_os := nd_os n, nd_jobs := AList.update i (j\<lparr>jr_eng := ?e\<rparr>) (nd_jobs n)\<rparr>)"
      using pid by (intro upd) (auto simp: ENat)
    then show ?thesis by (simp add: handleAllocation_def Some ENat)
  qed
qed (simp add: handleAllocation_def)

lemma keys_handleAssign: "fst ` set (nd_jobs (handleAssign p n)) \<subseteq> fst ` set (nd_jobs n) \<union> (if jo_job p = [] then {} else {jo_job p})"
  by (auto simp: handleAssign_def dom_update split: option.splits prod.splits
    simp flip: dom_map_of_conv_image_fst)

lemma keys_handleCancel: "fst ` set (nd_jobs (handleCancel i n)) \<subseteq> fst ` set (nd_jobs n)"
  by (auto simp: handleCancel_def AList.delete_eq split: option.splits)

lemma keys_handleAllocation: "fst ` set (nd_jobs (handleAllocation i c g n)) = fst ` set (nd_jobs n)"
  by (force simp: handleAllocation_def dom_update Let_def split: option.splits prod.splits
    simp flip: dom_map_of_conv_image_fst dest: domI)

lemma report_job_keeps:
  "covered n \<Longrightarrow> covered (report_job i n) \<and> fst ` set (nd_jobs (report_job i n)) = fst ` set (nd_jobs n)"
proof (cases "map_of (nd_jobs n) i")
  case (Some j)
  assume n: "covered n"
  obtain st e s where st: "eng_Stats (jr_eng j) (nd_os n) = (st, e, s)" by (metis prod_cases3)
  note keep = Stats_keeps [OF st]
  have "covered (n\<lparr>nd_os := s, nd_jobs := AList.update i (j\<lparr>jr_eng := e\<rparr>) (nd_jobs n)\<rparr>)"
    using n keep Some
    by (intro covered_update [OF n, where i = i and j = "j\<lparr>jr_eng := e\<rparr>"]) (auto simp: distinct_update covered_def update_conv')
  moreover have "fst ` set (AList.update i (j\<lparr>jr_eng := e\<rparr>) (nd_jobs n)) = fst ` set (nd_jobs n)"
    using Some by (force simp: dom_update simp flip: dom_map_of_conv_image_fst)
  ultimately show ?thesis by (simp add: report_job_def Some st)
qed (simp add: report_job_def)

lemma report_metrics_keeps:
  "covered n \<Longrightarrow> covered (report_metrics n) \<and> fst ` set (nd_jobs (report_metrics n)) = fst ` set (nd_jobs n)"
proof -
  have "covered (fold report_job is n) \<and> fst ` set (nd_jobs (fold report_job is n)) = fst ` set (nd_jobs n)"
    if "covered n" for "is" using that by (induction "is" arbitrary: n) (simp_all add: report_job_keeps)
  then show "covered n \<Longrightarrow> ?thesis" by (simp add: report_metrics_def)
qed

text \<open>The jobs that a session assigns.\<close>

fun assigned :: "wevent list \<Rightarrow> string list" where
  "assigned (Received (WAssign p) # es) = (if jo_job p = [] then assigned es else jo_job p # assigned es)"
| "assigned (e # es) = assigned es"
| "assigned [] = []"

lemma covered_message:
  assumes "covered n" and "\<And>p. m = WAssign p \<Longrightarrow> jo_job p \<noteq> [] \<Longrightarrow> jo_job p \<notin> fst ` set (nd_jobs n)"
  shows "covered (handle_message m n)"
proof (cases m)
  case (WAssign p)
  show ?thesis
  proof (cases "jo_job p = []")
    case True
    then show ?thesis using assms(1) by (simp add: WAssign handle_message_def handleAssign_def)
  next
    case False
    then show ?thesis using covered_handleAssign [OF assms(1) assms(2) [OF WAssign]] by (simp add: WAssign handle_message_def)
  qed
qed (simp_all add: assms(1) handle_message_def covered_handleCancel covered_handleAllocation)

lemma keys_message:
  "fst ` set (nd_jobs (handle_message m n)) \<subseteq> fst ` set (nd_jobs n) \<union> set (assigned [Received m])"
proof (cases m)
  case (WAssign p)
  then show ?thesis using keys_handleAssign [of p n] by (simp add: handle_message_def split: if_splits)
next
  case (WCancel i)
  then show ?thesis using keys_handleCancel [of i n] by (simp add: handle_message_def)
next
  case (WAllocation i c g)
  then show ?thesis using keys_handleAllocation [of i c g n] by (simp add: handle_message_def)
qed (simp_all add: handle_message_def)

lemma assigned_Cons: "assigned (e # es) = assigned [e] @ assigned es"
  by (cases "(e # es)" rule: assigned.cases) auto

lemma covered_read_loop:
  "covered n \<Longrightarrow> distinct (assigned es) \<Longrightarrow> set (assigned es) \<inter> fst ` set (nd_jobs n) = {} \<Longrightarrow>
   covered (snd (read_loop es n))"
proof (induction es arbitrary: n)
  case (Cons e es)
  have d: "distinct (assigned es)" using Cons.prems(2) unfolding assigned_Cons [of e es] by simp
  have f: "set (assigned es) \<inter> (fst ` set (nd_jobs n) \<union> set (assigned [e])) = {}"
    using Cons.prems(2,3) unfolding assigned_Cons [of e es] by auto
  have step: "covered (snd (read_loop es n'))"
    if "covered n'" "fst ` set (nd_jobs n') \<subseteq> fst ` set (nd_jobs n) \<union> set (assigned [e])" for n'
    using Cons.IH [OF that(1) d] that(2) f by blast
  show ?case
  proof (cases e)
    case (Received m)
    have "covered (handle_message m n)"
      using Cons.prems(1,3) by (intro covered_message) (auto simp: Received)
    from step [OF this] keys_message [of m n] show ?thesis
      using Cons.prems(1) by (simp add: Received)
  next
    case MetricsTick
    show ?thesis using step [of "report_metrics n"] report_metrics_keeps [OF Cons.prems(1)] by (simp add: MetricsTick)
  next
    case (Elapse d)
    show ?thesis using Cons.prems(1) by (simp add: Elapse, intro step) (simp_all add: covered_def)
  next
    case (Exited pid)
    show ?thesis using covered_fewer [OF Cons.prems(1)] by (simp add: Exited, intro step) auto
  qed
qed simp

lemma covered_stopAll: "covered n \<Longrightarrow> procs (nd_os (stopAll n)) = []"
proof -
  assume n: "covered n"
  have "\<exists>j \<in> snd ` set (nd_jobs n). eng_pid (jr_eng j) = Some (fst p)" if p: "p \<in> set (procs (nd_os n))" for p
  proof -
    obtain i j where "(i, j) \<in> set (nd_jobs n)" "eng_pid (jr_eng j) = Some (fst p)"
      using n p by (auto simp: covered_def)
    then show ?thesis by (intro bexI [of _ j]) force+
  qed
  then show ?thesis by (simp add: stopAll_def procs_stop_jobs filter_empty_conv) blast
qed

text \<open>
  C22. No miner survives its session: as long as every session is offered distinct jobs, whenever the worker
  waits to reconnect and when it has returned, every process that it started has been killed and its map
  of jobs is empty.
\<close>

theorem worker_leaves_no_process:
  assumes "\<forall>t \<in> set ts. distinct (assigned (tu_events t))"
    and "run_loop mc ts backoff n = (fin, ps, n')" and "nd_jobs n = []" and "procs (nd_os n) = []"
  shows "nd_jobs n' = [] \<and> procs (nd_os n') = []"
  using assms
proof (induction mc ts backoff n arbitrary: fin ps n' rule: run_loop.induct)
  case (2 mc t ts backoff n)
  obtain why n1 where s: "runSession mc (tu_dial t) (tu_events t) n = (why, n1)" by fastforce
  have start: "covered n" "covered (snd (node_send m n))" for m
    using 2(4,5) by (simp_all add: covered_def)
  obtain ok x where x: "node_send (hello mc (nd_cfg n)) n = (ok, x)" by fastforce
  have "covered x" "nd_jobs x = []" using start(2) [of "hello mc (nd_cfg n)"] 2(4) node_send_frame(1) [of "hello mc (nd_cfg n)" n]
    by (simp_all add: x)
  then have "covered n1"
    using s start(1) covered_read_loop [of x "tu_events t"] 2(2)
    by (cases ok) (auto simp: runSession_def x split: if_splits)
  then have clean: "procs (nd_os (stopAll n1)) = []" by (rule covered_stopAll)
  show ?case
  proof (cases "tu_stop_session t \<or> tu_stop_pause t")
    case True
    then show ?thesis using 2(3) clean by (auto simp: s Let_def split: if_splits)
  next
    case False
    obtain f q n3 where r: "run_loop mc ts (next_backoff backoff) ((stopAll n1)\<lparr>nd_jobs := []\<rparr>) = (f, q, n3)" by (metis prod_cases3)
    have "nd_jobs n3 = [] \<and> procs (nd_os n3) = []"
      using 2(2) False clean by (intro 2(1) [OF s [symmetric] refl refl _ _ _ r]) simp_all
    then show ?thesis using 2(3) False r by (simp add: s)
  qed
qed simp

definition demo_node :: node where
  "demo_node = \<lparr>nd_cfg = \<lparr>fc_app_url = ''https://app.example'', fc_worker_id = ''w'', fc_token = ''t'',
       fc_wss_url = ''wss://app.example/api/swarm/ws'', fc_name = ''rig'', fc_adapters_dir = ''/opt'', fc_allow_simulated = False\<rparr>,
     nd_jobs = [], nd_os = demo_os, nd_sent = [], nd_sends = 0, nd_net = (\<lambda>_. True)\<rparr>"

definition demo_offer :: job_offer where
  "demo_offer = \<lparr>jo_job = ''j'', jo_miner = ''m'', jo_engine = ''adapter'', jo_algorithm = ''randomx'',
     jo_pool = ''ssl://pool.example:3333'', jo_user = ''44AFF.w'', jo_wallet = ''44AFF'', jo_worker = ''w'', jo_threads = 4,
     jo_gpu_on = False, jo_gpu_intensity = 0, jo_adapter = Some demo_adapter, jo_simulated = False\<rparr>"

definition demo_machine :: machine where
  "demo_machine = \<lparr>mc_goos = ''linux'', mc_goarch = ''amd64'', mc_cpus = 8, mc_cpuinfo = None,
     mc_nvidia_smi = None, mc_home = ''/root'', mc_hostname = ''rig''\<rparr>"

definition demo_turn :: turn where
  "demo_turn = \<lparr>tu_dial = True, tu_events = [Received (WAssign demo_offer)],
     tu_stop_session = False, tu_stop_pause = False, tu_random = 1 / 2\<rparr>"

lemma demo_assigned: "length (procs (nd_os (snd (runSession demo_machine True (tu_events demo_turn) demo_node)))) = 1"
  by code_simp

theorem worker_leaves_no_process_witness:
  "length (procs (nd_os (snd (runSession demo_machine True (tu_events demo_turn) demo_node)))) = 1 \<and>
   procs (nd_os (snd (snd (run_loop demo_machine [demo_turn, demo_turn] second demo_node)))) = []"
proof -
  obtain fin ps n' where r: "run_loop demo_machine [demo_turn, demo_turn] second demo_node = (fin, ps, n')" by (metis prod_cases3)
  have "nd_jobs n' = [] \<and> procs (nd_os n') = []"
    by (rule worker_leaves_no_process [OF _ r]) (simp_all add: demo_turn_def demo_node_def demo_os_def)
  with demo_assigned show ?thesis unfolding r by simp
qed

subsection \<open>Assignments\<close>

lemma handleAssign_effect:
  assumes "jo_job p \<noteq> []"
  shows "\<exists>r. nd_sent (handleAssign p n) = nd_sent n @ (if nd_net n (nd_sends n) then [MAck (jo_job p) r] else []) \<and>
    (r = None \<longrightarrow> (\<exists>j. map_of (nd_jobs (handleAssign p n)) (jo_job p) = Some j \<and> eng_running (jr_eng j))) \<and>
    (r \<noteq> None \<longrightarrow> nd_jobs (handleAssign p n) = nd_jobs n \<and> procs (nd_os (handleAssign p n)) = procs (nd_os n)) \<and>
    (jo_simulated p \<and> \<not> fc_allow_simulated (nd_cfg n) \<longrightarrow> r = Some SimulatedNotAllowed) \<and>
    (jo_engine p = ''native-go'' \<and> \<not> jo_simulated p \<longrightarrow> r = Some (EngineFailed NotVerified))"
proof (cases "pick_engine (nd_cfg n) p")
  case None
  then show ?thesis
    using assms by (auto simp: handleAssign_def node_send_def pick_engine_def split: if_splits intro!: exI [of _ "Some SimulatedNotAllowed"])
next
  case (Some e)
  obtain r e1 s1 where prep: "prepare_engine (nd_cfg n) (offer_config p) e (nd_os n) = (r, e1, s1)" by (metis prod_cases3)
  obtain q e2 s2 where start: "eng_Start e1 s1 = (q, e2, s2)" by (metis prod_cases3)
  have sim: "\<not> (jo_simulated p \<and> \<not> fc_allow_simulated (nd_cfg n))" using Some by (auto simp: pick_engine_def split: if_splits)
  have nat: "r = Some NotVerified" if "jo_engine p = ''native-go'' \<and> \<not> jo_simulated p"
    using that Some prep by (auto simp: pick_engine_def prepare_engine_def native_Prepare_def)
  have refused: ?thesis if "r = Some err \<or> r = None \<and> q = Some err" for err
    using that assms nat sim procs_prepare [OF prep] procs_Start(1) [OF start]
    by (intro exI [of _ "Some (EngineFailed err)"]) (auto simp: handleAssign_def Some prep start node_send_def)
  have accepted: ?thesis if "r = None" "q = None"
    using that assms nat sim node_engine.start_running [of e1 s1 e2 s2] start
    by (intro exI [of _ None]) (auto simp: handleAssign_def Some prep node_send_def update_conv')
  show ?thesis using refused accepted by (cases r; cases q) auto
qed

text \<open>
  C23. An assigned job is answered once, with its id. It is accepted only when its engine runs under that id;
  when it is refused, jobs and processes are as before. A simulated job is refused unless the worker allows
  it, and a native one always is.
\<close>

theorem handleAssign_answered:
  assumes "jo_job p \<noteq> []"
  shows "\<exists>r. nd_sent (handleAssign p n) = nd_sent n @ (if nd_net n (nd_sends n) then [MAck (jo_job p) r] else []) \<and>
    (r = None \<longrightarrow> (\<exists>j. map_of (nd_jobs (handleAssign p n)) (jo_job p) = Some j \<and> eng_running (jr_eng j))) \<and>
    (r \<noteq> None \<longrightarrow> nd_jobs (handleAssign p n) = nd_jobs n \<and> procs (nd_os (handleAssign p n)) = procs (nd_os n)) \<and>
    (jo_simulated p \<and> \<not> fc_allow_simulated (nd_cfg n) \<longrightarrow> r = Some SimulatedNotAllowed) \<and>
    (jo_engine p = ''native-go'' \<and> \<not> jo_simulated p \<longrightarrow> r = Some (EngineFailed NotVerified))"
  using assms by (rule handleAssign_effect)

theorem handleAssign_answered_witness:
  "\<exists>r. nd_sent (handleAssign demo_offer demo_node) = [MAck ''j'' r]"
  using handleAssign_answered [of demo_offer demo_node] by (auto simp: demo_offer_def demo_node_def)

text \<open>
  Known limitation: an allocation update ignores the CPU share, and leaves a running external miner with
  one thread, whatever it had before.
\<close>

theorem allocation_single_thread:
  assumes "map_of (nd_jobs n) i = Some j" and "jr_eng j = EAda a" "a_running a" "ec_adapter (a_cfg a) = Some ad"
    and "can_spawn (hst (nd_os n)) (os_step (nd_os n))"
  shows "handleAllocation i cpu gpu n = handleAllocation i cpu' gpu n \<and>
    (\<exists>perm. hd (procs (nd_os (handleAllocation i cpu gpu n))) = (next_pid (nd_os n), a_binary a,
       renderArgs perm (ad_args ad) ((a_cfg a)\<lparr>ec_threads := 1, ec_gpu_intensity := gpu\<rparr>) (a_port a)))"
proof -
  have one: "renderArgs perm t (c\<lparr>ec_threads := 0\<rparr>) p = renderArgs perm t (c\<lparr>ec_threads := 1\<rparr>) p" for perm t c p
    by (simp add: renderArgs_def replacements_def)
  let ?c = "(a_cfg a)\<lparr>ec_gpu_intensity := gpu\<rparr>"
  have c: "(a_cfg a)\<lparr>ec_threads := x, ec_gpu_intensity := gpu\<rparr> = ?c\<lparr>ec_threads := x\<rparr>" for x by simp
  have host: "hst (snd (adapter_Stop a s)) = hst s" "os_step (snd (adapter_Stop a s)) = os_step s"
    "next_pid (snd (adapter_Stop a s)) = next_pid s" for a s
    by (auto simp: adapter_Stop_def kill_def split: option.splits)
  have "eng_SetAllocation \<lparr>al_cpu = cpu, al_gpu = gpu, al_threads = 0\<rparr> = eng_SetAllocation \<lparr>al_cpu = cpu', al_gpu = gpu, al_threads = 0\<rparr>"
    by (rule ext) (simp add: eng_SetAllocation_def adapter_SetAllocation_def sim_SetAllocation_def split: any_engine.split)
  then have "handleAllocation i cpu gpu n = handleAllocation i cpu' gpu n"
    unfolding handleAllocation_def by (rule arg_cong)
  moreover have "\<exists>perm. hd (procs (nd_os (handleAllocation i cpu gpu n))) = (next_pid (nd_os n), a_binary a,
       renderArgs perm (ad_args ad) (?c\<lparr>ec_threads := 1\<rparr>) (a_port a))"
    using assms host
    by (auto simp: handleAllocation_def eng_SetAllocation_def adapter_SetAllocation_def adapter_Start_def Let_def one c
      adapter_Stop_def split: prod.splits option.splits)
  ultimately show ?thesis by (simp only: c)
qed

definition demo_running :: node where
  "demo_running = demo_node\<lparr>nd_jobs := [(''j'', \<lparr>jr_id = ''j'', jr_miner = ''m'', jr_eng = EAda (adapter_New\<lparr>a_running := True,
     a_cmd := Some 0, a_cfg := demo_cfg\<lparr>ec_threads := 4, ec_adapter := Some demo_adapter\<rparr>\<rparr>), jr_cancel = Some 0\<rparr>)]\<rparr>"

theorem allocation_single_thread_witness:
  "handleAllocation ''j'' 50 0 demo_running = handleAllocation ''j'' 100 0 demo_running"
  using allocation_single_thread [of demo_running "''j''" _ _ demo_adapter 50 0 100]
  by (simp add: demo_running_def demo_node_def demo_os_def demo_host_def)

subsection \<open>Pauses\<close>

lemma backoff_power: "(next_backoff ^^ k) second = min (2 ^ k * second) (60 * second)"
  by (induction k) (auto simp: next_backoff_def second_def Let_def min_def)

lemma pause_range:
  assumes "0 \<le> r" "r < 1" "0 < b"
  shows "8 * b < 10 * (pause b r + 1) \<and> 10 * pause b r < 12 * b"
proof -
  let ?x = "rat_of_int b * (8 / 10 + 4 / 10 * r)"
  have "8 * rat_of_int b \<le> 10 * ?x" "10 * ?x < 12 * rat_of_int b"
    using assms by (simp_all add: distrib_left)
  moreover have "rat_of_int (pause b r) \<le> ?x" "?x < rat_of_int (pause b r) + 1"
    using floor_correct [of ?x] by (simp_all add: pause_def)
  ultimately have "rat_of_int (8 * b) < rat_of_int (10 * (pause b r + 1))" "rat_of_int (10 * pause b r) < rat_of_int (12 * b)"
    by simp_all
  then show ?thesis unfolding of_int_less_iff by blast
qed

lemma pauses:
  "run_loop mc ts b n = (fin, ps, n') \<Longrightarrow> k < length ps \<Longrightarrow>
   k < length ts \<and> ps ! k = pause ((next_backoff ^^ k) b) (tu_random (ts ! k))"
proof (induction mc ts b n arbitrary: fin ps n' k rule: run_loop.induct)
  case (2 mc t ts backoff n)
  obtain why n1 where s: "runSession mc (tu_dial t) (tu_events t) n = (why, n1)" by fastforce
  obtain f q n3 where r: "run_loop mc ts (next_backoff backoff) ((stopAll n1)\<lparr>nd_jobs := []\<rparr>) = (f, q, n3)" by (metis prod_cases3)
  consider "tu_stop_session t" | "\<not> tu_stop_session t" "tu_stop_pause t" | "\<not> tu_stop_session t" "\<not> tu_stop_pause t" by blast
  then show ?case
  proof cases
    case 3
    then have ps: "ps = pause backoff (tu_random t) # q" using 2(2) r by (simp add: s)
    show ?thesis
    proof (cases k)
      case (Suc k')
      have "k' < length ts \<and> q ! k' = pause ((next_backoff ^^ k') (next_backoff backoff)) (tu_random (ts ! k'))"
        using 2(3) 3 by (intro 2(1) [OF s [symmetric] refl refl _ _ r]) (simp_all add: ps Suc)
      then show ?thesis by (simp add: ps Suc funpow_swap1)
    qed (simp add: ps)
  qed (use 2(2,3) in \<open>auto simp: s\<close>)
qed simp

text \<open>
  The pauses between connections: the k-th is within 20 percent of the smaller of 2 to the k seconds and
  one minute.
\<close>

theorem run_loop_pauses:
  assumes "run_loop mc ts second n = (fin, ps, n')" and "\<forall>t \<in> set ts. 0 \<le> tu_random t \<and> tu_random t < 1" and "k < length ps"
  shows "8 * min (2 ^ k * second) (60 * second) < 10 * (ps ! k + 1) \<and> 10 * ps ! k < 12 * min (2 ^ k * second) (60 * second)"
proof -
  have k: "k < length ts" "ps ! k = pause (min (2 ^ k * second) (60 * second)) (tu_random (ts ! k))"
    using pauses [OF assms(1,3)] by (simp_all add: backoff_power)
  have "0 < min (2 ^ k * second) (60 * second)" by (simp add: second_def)
  then show ?thesis
    unfolding k(2) using assms(2) k(1) by (intro pause_range) (auto dest: nth_mem)
qed

theorem run_loop_pauses_witness:
  "5 < length (fst (snd (run_loop demo_machine (replicate 7 (demo_turn\<lparr>tu_dial := False\<rparr>)) second demo_node))) \<and>
   10 * fst (snd (run_loop demo_machine (replicate 7 (demo_turn\<lparr>tu_dial := False\<rparr>)) second demo_node)) ! 5 < 12 * (32 * second)"
proof -
  let ?ts = "replicate 7 (demo_turn\<lparr>tu_dial := False\<rparr>)"
  obtain fin ps n' where r: "run_loop demo_machine ?ts second demo_node = (fin, ps, n')" by (metis prod_cases3)
  have l: "length ps = 7"
    using r by (auto simp: eval_nat_numeral demo_turn_def runSession_def)
  have "10 * ps ! 5 < 12 * min (2 ^ 5 * second) (60 * second)"
    using run_loop_pauses [OF r, of 5] l by (simp add: demo_turn_def)
  with l show ?thesis unfolding r by (simp add: min_def second_def)
qed

end
