(* ===== verification/Auth.thy ===== *)
theory Auth
  imports GoStrings
begin

text \<open>
  Bearer tokens (\<open>internal/auth/auth.go\<close>): the cache of the realm's public keys, and the checks of a token.
  The library \<open>golang-jwt\<close> is the parameter \<open>jwt_lib\<close>: what it hands to the key function (the token's
  method and key id, or nothing when the token is malformed or its method is not among the valid ones), and
  its verdict once it has the key. The answer of the key server is a parameter of each call.
\<close>

record claims =
  cl_sub :: string
  cl_roles :: "string list"

fun has_role :: "string list \<Rightarrow> string \<Rightarrow> bool" where
  "has_role [] r = False"
| "has_role (x # xs) r = (if x = r then True else has_role xs r)"

definition HasRole :: "claims \<Rightarrow> string \<Rightarrow> bool" where
  "HasRole c r = has_role (cl_roles c) r"

lemma HasRole_iff: "HasRole c r \<longleftrightarrow> r \<in> set (cl_roles c)"
proof -
  have "has_role xs r \<longleftrightarrow> r \<in> set xs" for xs by (induction xs) auto
  then show ?thesis by (simp add: HasRole_def)
qed

subsection \<open>Keys\<close>

record jwk =
  jk_kty :: string
  jk_kid :: string
  jk_use :: string
  jk_n :: string
  jk_e :: string

record rsa_key =
  rsa_n :: nat
  rsa_e :: i64

text \<open>\<open>base64.RawURLEncoding.DecodeString\<close>: line breaks are skipped, padding is refused.\<close>

definition sextet :: "char \<Rightarrow> nat option" where
  "sextet c = (let n = of_char c :: nat in
     if 65 \<le> n \<and> n \<le> 90 then Some (n - 65) else if 97 \<le> n \<and> n \<le> 122 then Some (n - 71)
     else if 48 \<le> n \<and> n \<le> 57 then Some (n + 4) else if c = CHR ''-'' then Some 62
     else if c = CHR ''_'' then Some 63 else None)"

fun quanta :: "nat list \<Rightarrow> nat list option" where
  "quanta [] = Some []"
| "quanta [a] = None"
| "quanta [a, b] = Some [4 * a + b div 16]"
| "quanta [a, b, c] = Some [4 * a + b div 16, b mod 16 * 16 + c div 4]"
| "quanta (a # b # c # d # r) =
     map_option ((@) [4 * a + b div 16, b mod 16 * 16 + c div 4, c mod 4 * 64 + d]) (quanta r)"

definition b64url_decode :: "string \<Rightarrow> nat list option" where
  "b64url_decode s = (let cs = filter (\<lambda>c. c \<noteq> CHR 0x0A \<and> c \<noteq> CHR 0x0D) s; xs = map sextet cs in
     if None \<in> set xs then None else quanta (map the xs))"

definition big_endian :: "nat list \<Rightarrow> nat" where
  "big_endian bs = fold (\<lambda>b n. 256 * n + b) bs 0"

text \<open>The exponent is accumulated in an \<open>int\<close>, 64 bits.\<close>

definition exponent :: "nat list \<Rightarrow> i64" where
  "exponent bs = fold (\<lambda>b e. push_bit 8 e + of_nat b) bs 0"

record validator =
  va_jwks :: string
  va_issuer :: string
  va_keys :: "(string \<times> rsa_key) list"
  va_fresh :: "int option"

definition NewValidator :: "string \<Rightarrow> string \<Rightarrow> validator" where
  "NewValidator jwksURL issuer = \<lparr>va_jwks = jwksURL, va_issuer = issuer, va_keys = [], va_fresh = None\<rparr>"

definition add_key :: "jwk \<Rightarrow> (string \<times> rsa_key) list \<Rightarrow> (string \<times> rsa_key) list" where
  "add_key k keys = (if jk_kty k \<noteq> ''RSA'' then keys
     else case b64url_decode (jk_n k) of None \<Rightarrow> keys
     | Some nb \<Rightarrow> (case b64url_decode (jk_e k) of None \<Rightarrow> keys
       | Some eb \<Rightarrow> (jk_kid k, \<lparr>rsa_n = big_endian nb, rsa_e = exponent eb\<rparr>) # keys))"

type_synonym jwks_answer = "(int \<times> jwk list option) option"

text \<open>\<open>refresh\<close>: no answer, a status other than 200, a body that does not decode and a set without usable
  keys are errors, and leave the cache as it is. A later key replaces an earlier one with its id.\<close>

definition refresh :: "jwks_answer \<Rightarrow> int \<Rightarrow> validator \<Rightarrow> bool \<times> validator" where
  "refresh answer now v = (case answer of
     Some (status, Some ks) \<Rightarrow>
       if status \<noteq> 200 then (False, v)
       else (let keys = fold add_key ks [] in
         if keys = [] then (False, v) else (True, v\<lparr>va_keys := keys, va_fresh := Some now\<rparr>))
   | _ \<Rightarrow> (False, v))"

definition Warm :: "jwks_answer \<Rightarrow> int \<Rightarrow> validator \<Rightarrow> bool \<times> validator" where
  "Warm = refresh"

subsection \<open>Tokens\<close>

record token_claims =
  tk_sub :: string
  tk_roles :: "string list"

record jwt_lib =
  jwt_header :: "string \<Rightarrow> string list \<Rightarrow> (bool \<times> string) option"
  jwt_claims :: "string \<Rightarrow> string list \<Rightarrow> string \<Rightarrow> int \<Rightarrow> rsa_key \<Rightarrow> token_claims option"

definition stale :: "int \<Rightarrow> validator \<Rightarrow> bool" where
  "stale now v = (case va_fresh v of None \<Rightarrow> True | Some t \<Rightarrow> now - t > hour)"

definition keyFn :: "jwks_answer \<Rightarrow> int \<Rightarrow> bool \<times> string \<Rightarrow> validator \<Rightarrow> rsa_key option \<times> validator" where
  "keyFn answer now h v = (case h of (is_rsa, kid) \<Rightarrow>
     if \<not> is_rsa then (None, v)
     else let key = map_of (va_keys v) kid in
       if key = None \<or> stale now v then
         (case refresh answer now v of (ok, v') \<Rightarrow> if \<not> ok then (None, v') else (map_of (va_keys v') kid, v'))
       else (key, v))"

definition parse_bearer :: "jwt_lib \<Rightarrow> jwks_answer \<Rightarrow> int \<Rightarrow> string \<Rightarrow> validator \<Rightarrow> claims option \<times> validator" where
  "parse_bearer lib answer now bearer v =
     (if bearer = [] then (None, v)
      else case jwt_header lib bearer [''RS256''] of
        None \<Rightarrow> (None, v)
      | Some h \<Rightarrow>
          (case keyFn answer now h v of
             (None, v') \<Rightarrow> (None, v')
           | (Some key, v') \<Rightarrow>
               (case jwt_claims lib bearer [''RS256''] (va_issuer v') now key of
                  None \<Rightarrow> (None, v')
                | Some c \<Rightarrow> if tk_sub c = [] then (None, v') else (Some \<lparr>cl_sub = tk_sub c, cl_roles = tk_roles c\<rparr>, v'))))"

definition Parse :: "jwt_lib \<Rightarrow> jwks_answer \<Rightarrow> int \<Rightarrow> string \<Rightarrow> validator \<Rightarrow> claims option \<times> validator" where
  "Parse lib answer now header v = parse_bearer lib answer now (TrimSpace (trim_prefix ''Bearer '' header)) v"

text \<open>\<open>Middleware\<close>: the claims for the handler, or the answer 401.\<close>

definition auth_Middleware :: "jwt_lib \<Rightarrow> jwks_answer \<Rightarrow> int \<Rightarrow> string \<Rightarrow> validator \<Rightarrow> claims option \<times> validator" where
  "auth_Middleware lib answer now header v =
     (if \<not> has_prefix ''Bearer '' header then (None, v) else Parse lib answer now header v)"

subsection \<open>Accepted tokens\<close>

text \<open>
  What the library documents of \<open>ParseWithClaims\<close>: it accepts a token only if its signature verifies under
  the key that it was given, its issuer is the required one and it has not expired; the claims are the
  token's.
\<close>

definition jwt_verifies :: "jwt_lib \<Rightarrow> (rsa_key \<Rightarrow> string \<Rightarrow> bool) \<Rightarrow> (string \<Rightarrow> string) \<Rightarrow> (string \<Rightarrow> int) \<Rightarrow> (string \<Rightarrow> token_claims) \<Rightarrow> bool" where
  "jwt_verifies lib sig_ok issuer expiry payload \<longleftrightarrow> (\<forall>tok ms iss now key c. jwt_claims lib tok ms iss now key = Some c \<longrightarrow>
     sig_ok key tok \<and> issuer tok = iss \<and> now < expiry tok \<and> payload tok = c)"

lemma parse_bearer_Some:
  assumes "parse_bearer lib answer now tok v = (Some c, v')"
  obtains h key d where "keyFn answer now h v = (Some key, v')" "jwt_claims lib tok [''RS256''] (va_issuer v') now key = Some d"
    "tk_sub d \<noteq> []" "c = \<lparr>cl_sub = tk_sub d, cl_roles = tk_roles d\<rparr>"
  using assms by (auto simp: parse_bearer_def split: if_splits option.splits prod.splits)

lemma keyFn_cases:
  assumes "keyFn answer now h v = (Some key, v')"
  shows "fst h \<and> map_of (va_keys v') (snd h) = Some key \<and> va_issuer v' = va_issuer v \<and> \<not> stale now v' \<and>
    (v' = v \<or> (\<exists>ks. answer = Some (200, Some ks) \<and> va_keys v' = fold add_key ks []))"
  using assms
  by (auto simp: keyFn_def refresh_def stale_def Let_def hour_def minute_def second_def split: prod.splits if_splits option.splits)

text \<open>
  A request passes only with a token that verifies under a key which the realm published, in the current
  answer or in one fetched at most an hour ago, that is from the realm and has not expired; the tenant is its
  non-empty subject, and the roles are its roles.
\<close>

lemma token_sound:
  assumes "jwt_verifies lib sig_ok issuer expiry payload"
    and "auth_Middleware lib answer now header v = (Some c, v')"
    and "tok = TrimSpace (trim_prefix ''Bearer '' header)"
  shows "(\<exists>kid key t. map_of (va_keys v') kid = Some key \<and> sig_ok key tok \<and> va_fresh v' = Some t \<and> now - t \<le> hour) \<and>
    (v' = v \<or> (\<exists>ks. answer = Some (200, Some ks) \<and> va_keys v' = fold add_key ks [])) \<and>
    issuer tok = va_issuer v \<and> now < expiry tok \<and> cl_sub c = tk_sub (payload tok) \<and> cl_sub c \<noteq> [] \<and>
    cl_roles c = tk_roles (payload tok)"
proof -
  have "parse_bearer lib answer now tok v = (Some c, v')"
    using assms(2) unfolding auth_Middleware_def Parse_def assms(3) [symmetric] by (simp split: if_splits)
  then obtain h key d where p: "keyFn answer now h v = (Some key, v')"
      "jwt_claims lib tok [''RS256''] (va_issuer v') now key = Some d" "tk_sub d \<noteq> []"
      "c = \<lparr>cl_sub = tk_sub d, cl_roles = tk_roles d\<rparr>"
    by (rule parse_bearer_Some)
  note k = keyFn_cases [OF p(1)]
  have v: "sig_ok key tok" "issuer tok = va_issuer v'" "now < expiry tok" "payload tok = d"
    using assms(1) p(2) unfolding jwt_verifies_def by blast+
  have "\<exists>t. va_fresh v' = Some t \<and> now - t \<le> hour"
    using k by (cases "va_fresh v'") (simp_all add: stale_def)
  then have "\<exists>kid key t. map_of (va_keys v') kid = Some key \<and> sig_ok key tok \<and> va_fresh v' = Some t \<and> now - t \<le> hour"
    using k v(1) by blast
  with k v(2-4) p(3,4) show ?thesis by simp
qed

text \<open>A realm with one key and one token, accepted in its first hour.\<close>

definition demo_lib :: jwt_lib where
  "demo_lib = \<lparr>jwt_header = (\<lambda>tok _. if tok = ''tok'' then Some (True, ''k1'') else None),
     jwt_claims = (\<lambda>tok _ iss now key. if tok = ''tok'' \<and> iss = ''realm'' \<and> now < hour \<and> rsa_e key = 65537
       then Some \<lparr>tk_sub = ''alice'', tk_roles = [''user'']\<rparr> else None)\<rparr>"

definition demo_jwk :: jwk where
  "demo_jwk = \<lparr>jk_kty = ''RSA'', jk_kid = ''k1'', jk_use = ''sig'', jk_n = ''uw'', jk_e = ''AQAB''\<rparr>"

lemma demo_token: "TrimSpace (trim_prefix ''Bearer '' ''Bearer tok'') = ''tok''"
  by (simp add: trim_prefix_def TrimSpace_printable printable_def)

lemma demo_key: "add_key demo_jwk [] = [(''k1'', \<lparr>rsa_n = 187, rsa_e = 65537\<rparr>)]"
  by code_simp

lemma demo_accepted:
  "auth_Middleware demo_lib (Some (200, Some [demo_jwk])) 5 ''Bearer tok'' (NewValidator ''https://kc'' ''realm'') =
    (Some \<lparr>cl_sub = ''alice'', cl_roles = [''user'']\<rparr>,
     \<lparr>va_jwks = ''https://kc'', va_issuer = ''realm'', va_keys = [(''k1'', \<lparr>rsa_n = 187, rsa_e = 65537\<rparr>)], va_fresh = Some 5\<rparr>)"
  unfolding auth_Middleware_def Parse_def demo_token
  by (simp add: parse_bearer_def demo_lib_def keyFn_def refresh_def demo_key NewValidator_def hour_def minute_def second_def)

lemma demo_verifies:
  "jwt_verifies demo_lib (\<lambda>key tok. rsa_e key = 65537 \<and> tok = ''tok'') (\<lambda>_. ''realm'') (\<lambda>_. hour)
      (\<lambda>_. \<lparr>tk_sub = ''alice'', tk_roles = [''user'']\<rparr>)"
  by (auto simp: jwt_verifies_def demo_lib_def split: if_splits)

end
