(* ===== verification/RateLimit.thy ===== *)
theory RateLimit
  imports Net "HOL-Library.AList"
begin

text \<open>
  Rate limits (\<open>internal/ratelimit/ratelimit.go\<close>): token buckets by key. The bucket itself is the library
  \<open>x/time/rate\<close>: the parameter \<open>buckets\<close> makes a full bucket and takes a token from one. A call of \<open>Allow\<close>
  is one step.
\<close>

record 'b buckets =
  new_bucket :: "rat \<Rightarrow> int \<Rightarrow> 'b"
  take_token :: "int \<Rightarrow> 'b \<Rightarrow> bool \<times> 'b"

record 'b limiter =
  rl_m :: "(string \<times> 'b) list"
  rl_r :: rat
  rl_b :: int
  rl_last :: int

definition NewLimiter :: "rat \<Rightarrow> int \<Rightarrow> int \<Rightarrow> 'b limiter" where
  "NewLimiter perMinute burst now = \<lparr>rl_m = [], rl_r = perMinute / 60, rl_b = burst, rl_last = now\<rparr>"

definition evict :: "int \<Rightarrow> 'b limiter \<Rightarrow> 'b limiter" where
  "evict now l = (if length (rl_m l) > 10000 \<or> now - rl_last l > 10 * minute then l\<lparr>rl_m := [], rl_last := now\<rparr> else l)"

definition bucket_for :: "'b buckets \<Rightarrow> string \<Rightarrow> 'b limiter \<Rightarrow> 'b" where
  "bucket_for B key l = (case map_of (rl_m l) key of Some k \<Rightarrow> k | None \<Rightarrow> new_bucket B (rl_r l) (rl_b l))"

definition Allow :: "'b buckets \<Rightarrow> int \<Rightarrow> string \<Rightarrow> 'b limiter \<Rightarrow> bool \<times> 'b limiter" where
  "Allow B now key l =
     (let l = evict now l; (ok, k) = take_token B now (bucket_for B key l)
      in (ok, l\<lparr>rl_m := AList.update key k (rl_m l)\<rparr>))"

text \<open>The first address of \<open>X-Forwarded-For\<close>, or the host of the peer.\<close>

definition ClientIP :: "string \<Rightarrow> string \<Rightarrow> string" where
  "ClientIP xff remoteAddr =
     (if xff \<noteq> [] then TrimSpace (hd (split_on CHR '','' xff))
      else case SplitHostPort remoteAddr of None \<Rightarrow> remoteAddr | Some (host, _) \<Rightarrow> host)"

text \<open>\<open>Middleware\<close>: whether the next handler runs; otherwise the answer is 429.\<close>

definition rl_Middleware :: "'b buckets \<Rightarrow> ('r \<Rightarrow> string) \<Rightarrow> int \<Rightarrow> 'r \<Rightarrow> 'b limiter \<Rightarrow> bool \<times> 'b limiter" where
  "rl_Middleware B keyFn now r l = Allow B now (keyFn r) l"

subsection \<open>Sequences of requests\<close>

fun takes :: "'b buckets \<Rightarrow> int list \<Rightarrow> 'b \<Rightarrow> bool list" where
  "takes B [] k = []"
| "takes B (t # ts) k = (case take_token B t k of (ok, k') \<Rightarrow> ok # takes B ts k')"

fun requests :: "'b buckets \<Rightarrow> (int \<times> string) list \<Rightarrow> 'b limiter \<Rightarrow> (string \<times> bool) list \<times> 'b limiter" where
  "requests B [] l = ([], l)"
| "requests B ((t, key) # rs) l = (case Allow B t key l of (ok, l1) \<Rightarrow>
     (case requests B rs l1 of (oks, l2) \<Rightarrow> ((key, ok) # oks, l2)))"

definition granted :: "string \<Rightarrow> (string \<times> bool) list \<Rightarrow> nat" where
  "granted key oks = length (filter (\<lambda>p. p = (key, True)) oks)"

text \<open>
  What the library documents: a bucket starts full with \<open>b\<close> tokens and gains \<open>r\<close> per second, so within a
  window of length \<open>d\<close> a new bucket grants at most \<open>b + r d\<close>.
\<close>

definition bucket_law :: "'b buckets \<Rightarrow> rat \<Rightarrow> int \<Rightarrow> bool" where
  "bucket_law B r b \<longleftrightarrow> (\<forall>ts a d. sorted ts \<longrightarrow> set ts \<subseteq> {a..a + d} \<longrightarrow> 0 \<le> d \<longrightarrow>
     of_nat (length (filter id (takes B ts (new_bucket B r b)))) \<le> rat_of_int b + r * rat_of_int d / rat_of_int second)"

lemma length_update: "length (AList.update k v m) = (if k \<in> fst ` set m then length m else Suc (length m))"
  by (induction m) auto

lemma keys_bound: "length (rl_m (snd (Allow B now key l))) \<le> max 1 (min (Suc (length (rl_m l))) 10001)"
  by (auto simp: Allow_def Let_def evict_def length_update split: prod.splits)

text \<open>The table of buckets never holds more than 10001 keys, whatever arrives.\<close>

lemma requests_memory: "length (rl_m l) \<le> 10001 \<Longrightarrow> length (rl_m (snd (requests B rs l))) \<le> 10001"
proof (induction rs arbitrary: l)
  case (Cons r rs)
  obtain t key where r: "r = (t, key)" by fastforce
  obtain ok l1 where a: "Allow B t key l = (ok, l1)" by fastforce
  have "length (rl_m l1) \<le> 10001" using keys_bound [of B t key l] by (simp add: a)
  from Cons.IH [OF this] show ?case by (cases "requests B rs l1") (simp add: r a)
qed simp

text \<open>Without eviction, the answers for a key are those of its own bucket.\<close>

lemma no_eviction:
  assumes "finite K" "card K \<le> 10000" "fst ` set (rl_m l) \<subseteq> K" "distinct (map fst (rl_m l))" "t - rl_last l \<le> 10 * minute"
  shows "evict t l = l"
proof -
  have "length (rl_m l) = card (fst ` set (rl_m l))" using distinct_card [OF assms(4)] by simp
  also have "\<dots> \<le> 10000" using card_mono [OF assms(1,3)] assms(2) by simp
  finally show ?thesis using assms(5) by (simp add: evict_def)
qed

lemma requests_bucket:
  assumes "finite K" "card K \<le> 10000"
  shows "snd ` set rs \<subseteq> K \<Longrightarrow> fst ` set (rl_m l) \<subseteq> K \<Longrightarrow> distinct (map fst (rl_m l)) \<Longrightarrow>
    \<forall>r \<in> set rs. fst r - rl_last l \<le> 10 * minute \<Longrightarrow>
    map snd (filter (\<lambda>p. fst p = key) (fst (requests B rs l))) =
      takes B (map fst (filter (\<lambda>r. snd r = key) rs)) (bucket_for B key l)"
proof (induction rs arbitrary: l)
  case (Cons r rs)
  obtain t k where r: "r = (t, k)" by fastforce
  have ev: "evict t l = l" using Cons.prems by (intro no_eviction [OF assms]) (auto simp: r)
  obtain ok b where take: "take_token B t (bucket_for B k l) = (ok, b)" by fastforce
  let ?l = "l\<lparr>rl_m := AList.update k b (rl_m l)\<rparr>"
  have a: "Allow B t k l = (ok, ?l)" by (simp add: Allow_def ev take)
  have "fst ` set (AList.update k b (rl_m l)) \<subseteq> K"
    using Cons.prems(1,2) by (auto simp: dom_update r simp flip: dom_map_of_conv_image_fst split: if_splits)
  then have IH: "map snd (filter (\<lambda>p. fst p = key) (fst (requests B rs ?l))) =
      takes B (map fst (filter (\<lambda>r. snd r = key) rs)) (bucket_for B key ?l)"
    using Cons.prems by (intro Cons.IH) (auto simp: distinct_update)
  have "bucket_for B key ?l = (if key = k then b else bucket_for B key l)"
    by (simp add: bucket_for_def update_conv' cong: option.case_cong)
  then show ?case
    using IH take by (cases "requests B rs ?l") (auto simp: r a)
qed simp

lemma granted_filter: "granted key oks = length (filter id (map snd (filter (\<lambda>p. fst p = key) oks)))"
  by (induction oks) (auto simp: granted_def)

text \<open>
  C35. Within ten minutes of the start of a limiter, and as long as at most 10000 keys appear, a key gets at
  most its burst plus its rate in every run of requests, whatever the other keys do; and the table never
  holds more than 10001 keys.
\<close>

theorem requests_budget:
  assumes "bucket_law B (perMinute / 60) burst" and "sorted (map fst rs)"
    and "\<forall>r \<in> set rs. t0 \<le> fst r \<and> fst r \<le> t0 + 10 * minute" and "card (snd ` set rs) \<le> 10000"
    and "requests B rs (NewLimiter perMinute burst t0) = (oks, l)"
    and "\<forall>r \<in> set rs. snd r = key \<longrightarrow> a \<le> fst r \<and> fst r \<le> a + d" and "0 \<le> d"
  shows "rat_of_nat (granted key oks) \<le> rat_of_int burst + perMinute / 60 * rat_of_int d / rat_of_int second \<and>
    length (rl_m l) \<le> 10001"
proof -
  let ?l = "NewLimiter perMinute burst t0 :: 'a limiter"
  let ?ts = "map fst (filter (\<lambda>r. snd r = key) rs)"
  have "map snd (filter (\<lambda>p. fst p = key) (fst (requests B rs ?l))) = takes B ?ts (bucket_for B key ?l)"
    using assms(3,4) by (intro requests_bucket) (auto simp: NewLimiter_def)
  then have "granted key oks = length (filter id (takes B ?ts (new_bucket B (perMinute / 60) burst)))"
    by (simp add: granted_filter assms(5) bucket_for_def) (simp add: NewLimiter_def)
  moreover have "sorted ?ts" using assms(2) by (rule sorted_filter)
  moreover have "set ?ts \<subseteq> {a..a + d}" using assms(6) by auto
  ultimately have "rat_of_nat (granted key oks) \<le> rat_of_int burst + perMinute / 60 * rat_of_int d / rat_of_int second"
    using assms(1,7) unfolding bucket_law_def by auto
  moreover have "length (rl_m l) \<le> 10001"
    using requests_memory [of ?l B rs] assms(5) by (simp add: NewLimiter_def)
  ultimately show ?thesis by blast
qed

definition credit :: "nat buckets" where
  "credit = \<lparr>new_bucket = (\<lambda>_ b. nat b), take_token = (\<lambda>_ n. (n > 0, n - 1))\<rparr>"

lemma credit_law: "0 \<le> r \<Longrightarrow> 0 \<le> b \<Longrightarrow> bucket_law credit r b"
proof -
  have n: "length (filter id (takes credit ts n)) \<le> n" for ts n
  proof (induction ts arbitrary: n)
    case (Cons t ts)
    show ?case using Cons.IH [of "n - 1"] by (cases n) (simp_all add: credit_def)
  qed (simp add: credit_def)
  assume r: "0 \<le> r" and b: "0 \<le> b"
  show ?thesis
    unfolding bucket_law_def
  proof (intro allI impI)
    fix ts :: "int list" and a d :: int assume d: "0 \<le> d"
    have "rat_of_nat (length (filter id (takes credit ts (nat b)))) \<le> rat_of_int b"
      using n [of ts "nat b"] b by (metis of_nat_le_iff of_nat_nat)
    moreover have "0 \<le> r * rat_of_int d / rat_of_int second" using r d by (simp add: second_def)
    ultimately show "rat_of_nat (length (filter id (takes credit ts (new_bucket credit r b)))) \<le>
        rat_of_int b + r * rat_of_int d / rat_of_int second"
      by (simp add: credit_def)
  qed
qed

theorem requests_budget_witness:
  "fst (requests credit [(1, ''ip''), (2, ''ip''), (3, ''other''), (4, ''ip'')] (NewLimiter 30 2 0)) =
     [(''ip'', True), (''ip'', True), (''other'', True), (''ip'', False)] \<and>
   rat_of_nat (granted ''ip'' [(''ip'', True), (''ip'', True), (''other'', True), (''ip'', False)]) \<le> 2 + 1 / 2 * 4 / rat_of_int second"
proof -
  let ?rs = "[(1, ''ip''), (2, ''ip''), (3, ''other''), (4, ''ip'')] :: (int \<times> string) list"
  have r: "fst (requests credit ?rs (NewLimiter 30 2 0)) = [(''ip'', True), (''ip'', True), (''other'', True), (''ip'', False)]"
    by (simp add: Allow_def evict_def bucket_for_def NewLimiter_def credit_def minute_def second_def)
  have law: "bucket_law credit (30 / 60) 2" by (rule credit_law) simp_all
  have "rat_of_nat (granted ''ip'' (fst (requests credit ?rs (NewLimiter 30 2 0)))) \<le> rat_of_int 2 + 30 / 60 * rat_of_int 4 / rat_of_int second \<and>
      length (rl_m (snd (requests credit ?rs (NewLimiter 30 2 0)))) \<le> 10001"
    by (rule requests_budget [OF law _ _ _ prod.collapse [symmetric], where a = 0])
      (auto simp: minute_def second_def card_insert_if)
  with r show ?thesis by simp
qed

end
