(* ===== verification/Url.thy ===== *)
theory Url
  imports Net
begin

text \<open>
  What the program uses of \<open>net/url\<close>: \<open>Parse\<close> (scheme, whether there is user information, host) and
  \<open>Hostname\<close>, as in Go 1.26. Whether a bracketed host is an IPv6 address is the parameter \<open>ip6\<close>.
\<close>

record url =
  ur_scheme :: string
  ur_user :: bool
  ur_host :: string

definition char_in :: "nat \<Rightarrow> nat \<Rightarrow> char \<Rightarrow> bool" where
  "char_in a b c \<longleftrightarrow> (let n = of_char c :: nat in a \<le> n \<and> n \<le> b)"

definition letter :: "char \<Rightarrow> bool" where
  "letter c \<longleftrightarrow> char_in 65 90 c \<or> char_in 97 122 c"

definition decimal :: "char \<Rightarrow> bool" where
  "decimal c \<longleftrightarrow> char_in 48 57 c"

definition hex_value :: "char \<Rightarrow> nat option" where
  "hex_value c = (let n = of_char c :: nat in
     if decimal c then Some (n - 48) else if char_in 97 102 c then Some (n - 87)
     else if char_in 65 70 c then Some (n - 55) else None)"

text \<open>\<open>getScheme\<close>: \<open>None\<close> is the missing scheme error, \<open>Some ([], _)\<close> no scheme.\<close>

fun scheme_from :: "string \<Rightarrow> string \<Rightarrow> (string \<times> string) option" where
  "scheme_from acc [] = Some ([], rev acc)"
| "scheme_from acc (c # s) =
     (if letter c then scheme_from (c # acc) s
      else if decimal c \<or> c \<in> set ''+-.'' then
        (if acc = [] then Some ([], c # s) else scheme_from (c # acc) s)
      else if c = CHR '':'' then (if acc = [] then None else Some (rev acc, s))
      else Some ([], rev acc @ c # s))"

text \<open>\<open>strings.Cut\<close> at a byte: what is before it, and what is after it.\<close>

definition cut_at :: "char \<Rightarrow> string \<Rightarrow> string \<times> string" where
  "cut_at c s = (takeWhile (\<lambda>x. x \<noteq> c) s, drop 1 (dropWhile (\<lambda>x. x \<noteq> c) s))"

fun percent_ok :: "string \<Rightarrow> bool" where
  "percent_ok [] \<longleftrightarrow> True"
| "percent_ok (c # s) \<longleftrightarrow> (if c = CHR ''%'' then (case s of
       a # b # _ \<Rightarrow> hex_value a \<noteq> None \<and> hex_value b \<noteq> None \<and> percent_ok s | _ \<Rightarrow> False)
     else percent_ok s)"

text \<open>The bytes that may stand in a host.\<close>

definition host_char :: "char \<Rightarrow> bool" where
  "host_char c \<longleftrightarrow> letter c \<or> decimal c \<or> \<not> char_in 0 127 c \<or>
     c \<in> set ''-_.~!$&()*+,;=:[]<>'' \<or> c = CHR 0x27 \<or> c = CHR 0x22"

text \<open>\<open>unescape\<close> in the modes for hosts and for zones.\<close>

function unescape_host :: "bool \<Rightarrow> string \<Rightarrow> string option" where
  "unescape_host zone [] = Some []"
| "unescape_host zone (c # s) =
     (if c = CHR ''%'' then
        (case s of
           a # b # r \<Rightarrow>
             (case (hex_value a, hex_value b) of
                (Some x, Some y) \<Rightarrow>
                  let v = char_of (16 * x + y) in
                  if [a, b] \<noteq> ''25'' \<and> (if zone then v \<noteq> CHR '' '' \<and> \<not> host_char v else x < 8) then None
                  else map_option ((#) v) (unescape_host zone r)
              | _ \<Rightarrow> None)
         | _ \<Rightarrow> None)
      else if \<not> host_char c then None
      else map_option ((#) c) (unescape_host zone s))"
  by pat_completeness auto
termination
  by (relation "measure (length \<circ> snd)") auto

definition valid_optional_port :: "string \<Rightarrow> bool" where
  "valid_optional_port p \<longleftrightarrow> (case p of [] \<Rightarrow> True | c # s \<Rightarrow> c = CHR '':'' \<and> list_all decimal s)"

definition url_host :: "(string \<Rightarrow> bool) \<Rightarrow> string \<Rightarrow> string option" where
  "url_host ip6 host =
     (if CHR ''['' \<in> set host then
        (if hd host \<noteq> CHR ''['' \<or> CHR ''['' \<in> set (tl host) then None
         else case last_index_char CHR '']'' host of
           None \<Rightarrow> None
         | Some e \<Rightarrow>
             let port = drop (e + 1) host; name = take (e - 1) (drop 1 host) in
             if \<not> valid_optional_port port then None
             else
               (case (case index_of ''%25'' name of
                   None \<Rightarrow> unescape_host False name
                 | Some z \<Rightarrow> (case (unescape_host False (take z name), unescape_host True (drop z name)) of
                     (Some x, Some y) \<Rightarrow> Some (x @ y) | _ \<Rightarrow> None)) of
                 None \<Rightarrow> None
               | Some n \<Rightarrow> if ip6 n then Some (''['' @ n @ '']'' @ port) else None))
      else
        let (name, port) = cut_at CHR '':'' host in
        if CHR '':'' \<in> set port \<or> \<not> list_all decimal port then None
        else unescape_host False host)"

definition userinfo_char :: "char \<Rightarrow> bool" where
  "userinfo_char c \<longleftrightarrow> letter c \<or> decimal c \<or> c \<in> set ''-._:~!$&()*+,;=%@'' \<or> c = CHR 0x27"

definition url_authority :: "(string \<Rightarrow> bool) \<Rightarrow> string \<Rightarrow> (bool \<times> string) option" where
  "url_authority ip6 a = (case last_index_char CHR ''@'' a of
     None \<Rightarrow> map_option (Pair False) (url_host ip6 a)
   | Some i \<Rightarrow>
       (case url_host ip6 (drop (i + 1) a) of
          None \<Rightarrow> None
        | Some h \<Rightarrow> if list_all userinfo_char (take i a) \<and> percent_ok (take i a) then Some (True, h) else None))"

definition url_parse :: "(string \<Rightarrow> bool) \<Rightarrow> string \<Rightarrow> url option" where
  "url_parse ip6 raw =
     (let (u, frag) = cut_at CHR ''#'' raw in
      if list_ex (\<lambda>c. char_in 0 31 c \<or> of_char c = (127 :: nat)) u \<or> \<not> percent_ok frag then None
      else if u = ''*'' then Some \<lparr>ur_scheme = [], ur_user = False, ur_host = []\<rparr>
      else case scheme_from [] u of
        None \<Rightarrow> None
      | Some (sch, rest) \<Rightarrow>
          let sch = map lower_char sch; path = fst (cut_at CHR ''?'' rest) in
          if \<not> has_prefix ''/'' path \<and> sch \<noteq> [] then Some \<lparr>ur_scheme = sch, ur_user = False, ur_host = []\<rparr>
          else if \<not> has_prefix ''/'' path \<and> CHR '':'' \<in> set (fst (cut_at CHR ''/'' path)) then None
          else if (sch \<noteq> [] \<or> \<not> has_prefix ''///'' path) \<and> has_prefix ''//'' path then
            (let authority = takeWhile (\<lambda>x. x \<noteq> CHR ''/'') (drop 2 path); p = dropWhile (\<lambda>x. x \<noteq> CHR ''/'') (drop 2 path) in
             case url_authority ip6 authority of
               None \<Rightarrow> None
             | Some (user, h) \<Rightarrow> if percent_ok p then Some \<lparr>ur_scheme = sch, ur_user = user, ur_host = h\<rparr> else None)
          else if percent_ok path then Some \<lparr>ur_scheme = sch, ur_user = False, ur_host = []\<rparr> else None)"

definition Hostname :: "url \<Rightarrow> string" where
  "Hostname u =
     (let hp = ur_host u;
          h = (case last_index_char CHR '':'' hp of
            Some i \<Rightarrow> if valid_optional_port (drop i hp) then take i hp else hp | None \<Rightarrow> hp)
      in if has_prefix ''['' h \<and> has_suffix '']'' h then take (length h - 2) (drop 1 h) else h)"

subsection \<open>Ordinary URLs\<close>

text \<open>Of a URL with a host name, a port and a path without special characters, the parts are recovered.\<close>

definition plain_char :: "char \<Rightarrow> bool" where
  "plain_char c \<longleftrightarrow> letter c \<or> decimal c \<or> c \<in> set ''-.''"

lemma plain_host_char: "plain_char c \<Longrightarrow> host_char c \<and> c \<notin> set '':[]/?#@%''"
  by (auto simp: plain_char_def host_char_def letter_def decimal_def char_in_def Let_def)

lemma unescape_plain: "list_all (\<lambda>c. host_char c \<and> c \<noteq> CHR ''%'') s \<Longrightarrow> unescape_host zone s = Some s"
  by (induction s) auto

definition scheme_name :: "string \<Rightarrow> bool" where
  "scheme_name s \<longleftrightarrow> s \<noteq> [] \<and> letter (hd s) \<and> list_all (\<lambda>c. letter c \<or> decimal c \<or> c \<in> set ''+-.'') s"

lemma scheme_from_name:
  "list_all (\<lambda>c. letter c \<or> decimal c \<or> c \<in> set ''+-.'') s \<Longrightarrow> acc \<noteq> [] \<Longrightarrow>
   scheme_from acc (s @ CHR '':'' # r) = Some (rev acc @ s, r)"
  by (induction s arbitrary: acc) (auto simp: letter_def decimal_def char_in_def Let_def)

lemma scheme_from_start: "scheme_name s \<Longrightarrow> scheme_from [] (s @ CHR '':'' # r) = Some (s, r)"
  by (cases s) (simp_all add: scheme_name_def scheme_from_name)

lemma cut_at_absent: "c \<notin> set s \<Longrightarrow> cut_at c s = (s, [])"
  by (induction s) (auto simp: cut_at_def)

lemma cut_at_append: "c \<notin> set s \<Longrightarrow> cut_at c (s @ c # t) = (s, t)"
  by (induction s) (auto simp: cut_at_def)

lemma plain_not: "list_all plain_char s \<Longrightarrow> c \<in> set '':[]/?#@%'' \<Longrightarrow> c \<notin> set s"
  using plain_host_char by (fastforce simp: list_all_iff)

lemma scheme_not: "scheme_name s \<Longrightarrow> c \<in> set '':[]/?#@%*'' \<Longrightarrow> c \<notin> set s"
  by (auto simp: scheme_name_def list_all_iff letter_def decimal_def char_in_def Let_def)

lemma decimals_not: "list_all decimal s \<Longrightarrow> c \<in> set '':[]/?#@%'' \<Longrightarrow> c \<notin> set s"
  by (auto simp: list_all_iff decimal_def char_in_def Let_def)

lemma decimal_plain: "list_all decimal s \<Longrightarrow> list_all plain_char s"
  by (simp add: list_all_iff plain_char_def)

lemma colon_host_char: "host_char CHR '':''"
  by code_simp

lemma not_control:
  "list_all plain_char s \<Longrightarrow> \<not> list_ex (\<lambda>c. char_in 0 31 c \<or> of_char c = (127 :: nat)) s"
  "scheme_name s \<Longrightarrow> \<not> list_ex (\<lambda>c. char_in 0 31 c \<or> of_char c = (127 :: nat)) s"
  by (auto simp: list_ex_iff list_all_iff plain_char_def scheme_name_def letter_def decimal_def char_in_def Let_def)

lemma url_host_plain:
  assumes "list_all plain_char h" "list_all decimal p"
  shows "url_host ip6 (h @ '':'' @ p) = Some (h @ '':'' @ p)"
proof -
  have "list_all (\<lambda>c. host_char c \<and> c \<noteq> CHR ''%'') (h @ '':'' @ p)"
    using assms(1) decimal_plain [OF assms(2)] plain_host_char colon_host_char by (fastforce simp: list_all_iff)
  then show ?thesis
    using assms cut_at_append [OF plain_not [OF assms(1)], of "CHR '':''" p] unescape_plain
      plain_not [OF assms(1), of "CHR ''[''"] decimals_not [OF assms(2), of "CHR ''[''"] decimals_not [OF assms(2), of "CHR '':''"]
    by (simp add: url_host_def)
qed

lemma url_parse_plain:
  assumes "scheme_name s" "list_all plain_char h" "list_all decimal p"
  shows "url_parse ip6 (s @ ''://'' @ h @ '':'' @ p) = Some \<lparr>ur_scheme = map lower_char s, ur_user = False, ur_host = h @ '':'' @ p\<rparr>"
proof -
  define a where "a = h @ '':'' @ p"
  have pp: "list_all plain_char p" by (rule decimal_plain [OF assms(3)])
  have a: "c \<notin> set a" if "c \<in> set ''/?#@''" for c
    using plain_not [OF assms(2), of c] plain_not [OF pp, of c] that by (auto simp: a_def)
  have frag: "cut_at CHR ''#'' (s @ ''://'' @ a) = (s @ ''://'' @ a, [])"
    using scheme_not [OF assms(1)] a by (intro cut_at_absent) auto
  have query: "cut_at CHR ''?'' (''//'' @ a) = (''//'' @ a, [])"
    using a by (intro cut_at_absent) auto
  have "\<not> list_ex (\<lambda>c. char_in 0 31 c \<or> of_char c = (127 :: nat)) a"
    using not_control(1) [OF assms(2)] not_control(1) [OF pp] by (simp add: a_def char_in_def)
  then have ctl: "\<not> list_ex (\<lambda>c. char_in 0 31 c \<or> of_char c = (127 :: nat)) (s @ ''://'' @ a)"
    using not_control(2) [OF assms(1)] by (simp add: char_in_def)
  have star: "s @ ''://'' @ a \<noteq> ''*''" by (cases s) auto
  have at: "last_index_char CHR ''@'' a = None"
    using a by (auto simp: last_index_char_def)
  have rest: "takeWhile (\<lambda>x. x \<noteq> CHR ''/'') a = a" "dropWhile (\<lambda>x. x \<noteq> CHR ''/'') a = []"
    using a by (auto simp: takeWhile_eq_all_conv dropWhile_eq_Nil_conv)
  have "scheme_from [] (s @ ''://'' @ a) = Some (s, ''//'' @ a)"
    using scheme_from_start [OF assms(1), of "''//'' @ a"] by simp
  moreover have "s \<noteq> []" using assms(1) by (simp add: scheme_name_def)
  moreover have "url_host ip6 a = Some a" using url_host_plain [OF assms(2,3)] by (simp add: a_def)
  ultimately have "url_parse ip6 (s @ ''://'' @ a) = Some \<lparr>ur_scheme = map lower_char s, ur_user = False, ur_host = a\<rparr>"
    using frag query ctl star at by (simp add: url_parse_def url_authority_def rest)
  then show ?thesis by (simp add: a_def)
qed

lemma Hostname_plain:
  assumes "list_all plain_char h" "list_all decimal p"
  shows "Hostname \<lparr>ur_scheme = s, ur_user = b, ur_host = h @ '':'' @ p\<rparr> = h"
proof -
  have "last_index_char CHR '':'' (h @ '':'' @ p) = Some (length h)"
    using last_index_char_append [OF decimals_not [OF assms(2)], of "CHR '':''" h] by simp
  moreover have "\<not> has_prefix ''['' h" using plain_not [OF assms(1), of "CHR ''[''"] by (cases h) auto
  ultimately show ?thesis using assms(2) by (simp add: Hostname_def valid_optional_port_def)
qed

end
