(* ===== verification/Config.thy ===== *)
theory Config
  imports Url
begin

text \<open>
  The configuration of the server (\<open>internal/config/config.go\<close>), from an environment: a function from
  names to values, empty when unset. \<open>time.ParseDuration\<close> and \<open>strconv.Atoi\<close> are modelled with their
  limits; fractions are exact here, floating point in Go.
\<close>

record config =
  cf_listen :: string
  cf_database_url :: string
  cf_public_url :: string
  cf_issuer :: string
  cf_jwks_url :: string
  cf_allow_simulated :: bool
  cf_allowed_origins :: "string list"
  cf_poll_interval :: int
  cf_retention_interval :: int
  cf_exchange_salt :: string
  cf_seed_test_data :: bool
  cf_version :: string

definition env_or :: "(string \<Rightarrow> string) \<Rightarrow> string \<Rightarrow> string \<Rightarrow> string" where
  "env_or getenv key def = (if getenv key \<noteq> [] then getenv key else def)"

definition envBool :: "(string \<Rightarrow> string) \<Rightarrow> (string \<Rightarrow> string) \<Rightarrow> string \<Rightarrow> bool \<Rightarrow> bool" where
  "envBool uni getenv key def = (let v = ToLower uni (TrimSpace (getenv key)) in
     if v = [] then def else v = ''true'' \<or> v = ''1'' \<or> v = ''yes'')"

subsection \<open>Durations\<close>

text \<open>\<open>leadingInt\<close>: the value and the rest; \<open>None\<close> when it exceeds 2 to the 63.\<close>

fun leading_int :: "int \<Rightarrow> string \<Rightarrow> (int \<times> string) option" where
  "leading_int acc [] = Some (acc, [])"
| "leading_int acc (c # s) = (case digit c of
     None \<Rightarrow> Some (acc, c # s)
   | Some d \<Rightarrow>
       if acc > 2 ^ 63 div 10 then None
       else if 10 * acc + int d > 2 ^ 63 then None
       else leading_int (10 * acc + int d) s)"

text \<open>\<open>leadingFraction\<close>: digits that do not fit are dropped.\<close>

fun leading_fraction :: "bool \<Rightarrow> int \<Rightarrow> int \<Rightarrow> string \<Rightarrow> int \<times> int \<times> string" where
  "leading_fraction over f scale [] = (f, scale, [])"
| "leading_fraction over f scale (c # s) = (case digit c of
     None \<Rightarrow> (f, scale, c # s)
   | Some d \<Rightarrow>
       if over \<or> f > max_int div 10 \<or> 10 * f + int d > 2 ^ 63 then leading_fraction True f scale s
       else leading_fraction False (10 * f + int d) (10 * scale) s)"

definition unit_ns :: "string \<Rightarrow> int option" where
  "unit_ns u = map_of [(''ns'', 1), (''us'', 1000), (map char_of [194 :: nat, 181, 115], 1000), (map char_of [206 :: nat, 188, 115], 1000),
     (''ms'', 1000000), (''s'', second), (''m'', minute), (''h'', hour)] u"

text \<open>One number with its unit: the nanoseconds and the rest.\<close>

definition duration_item :: "string \<Rightarrow> (int \<times> string) option" where
  "duration_item s =
     (if s = [] \<or> \<not> (hd s = CHR ''.'' \<or> digit (hd s) \<noteq> None) then None
      else case leading_int 0 s of
        None \<Rightarrow> None
      | Some (v, s1) \<Rightarrow>
          let pre = length s1 \<noteq> length s;
              (f, scale, s2) = (if s1 \<noteq> [] \<and> hd s1 = CHR ''.'' then leading_fraction False 0 1 (tl s1) else (0, 1, s1));
              post = s1 \<noteq> [] \<and> hd s1 = CHR ''.'' \<and> length s2 \<noteq> length (tl s1);
              u = takeWhile (\<lambda>c. c \<noteq> CHR ''.'' \<and> digit c = None) s2;
              rest = dropWhile (\<lambda>c. c \<noteq> CHR ''.'' \<and> digit c = None) s2
          in if \<not> pre \<and> \<not> post then None
             else if u = [] then None
             else case unit_ns u of
               None \<Rightarrow> None
             | Some ns \<Rightarrow>
                 if v > 2 ^ 63 div ns then None
                 else let w = v * ns + f * ns div scale in if w > 2 ^ 63 then None else Some (w, rest))"

text \<open>The loop ends because every item is longer than nothing; \<open>fuel\<close> is the length of the text.\<close>

fun duration_items :: "nat \<Rightarrow> int \<Rightarrow> string \<Rightarrow> int option" where
  "duration_items fuel acc [] = Some acc"
| "duration_items 0 acc (c # s) = None"
| "duration_items (Suc fuel) acc (c # s) = (case duration_item (c # s) of
     None \<Rightarrow> None
   | Some (w, rest) \<Rightarrow> if acc + w > 2 ^ 63 then None else duration_items fuel (acc + w) rest)"

definition ParseDuration :: "string \<Rightarrow> int option" where
  "ParseDuration s =
     (let (neg, t) = (case s of [] \<Rightarrow> (False, []) | c # r \<Rightarrow>
         if c = CHR ''-'' then (True, r) else if c = CHR ''+'' then (False, r) else (False, s)) in
      if t = ''0'' then Some 0
      else if t = [] then None
      else case duration_items (length t) 0 t of
        None \<Rightarrow> None
      | Some d \<Rightarrow> if neg then Some (- d) else if d > max_int then None else Some d)"

text \<open>A bare number is seconds; the product is an \<open>int64\<close> and wraps.\<close>

definition envDuration :: "(string \<Rightarrow> string) \<Rightarrow> string \<Rightarrow> int \<Rightarrow> int" where
  "envDuration getenv key def = (let v = getenv key in
     if v = [] then def
     else case ParseDuration v of
       Some d \<Rightarrow> d
     | None \<Rightarrow> (case Atoi v of (n, ok) \<Rightarrow> if ok then sint (word_of_int n * word_of_int second :: i64) else def))"

subsection \<open>Loading\<close>

definition allowed_origins :: "string \<Rightarrow> string list" where
  "allowed_origins origins = filter (\<lambda>x. x \<noteq> []) (map TrimSpace (split_on CHR '','' origins))"

text \<open>The configuration, and whether it is complete; an incomplete one stops the server.\<close>

definition Load :: "(string \<Rightarrow> string) \<Rightarrow> (string \<Rightarrow> string) \<Rightarrow> config \<times> bool" where
  "Load uni getenv =
     (let public = trim_suffix ''/'' (env_or getenv ''MM_PUBLIC_URL'' ''http://127.0.0.1:8080'');
          c = \<lparr>cf_listen = env_or getenv ''MM_LISTEN'' ''127.0.0.1:8080'', cf_database_url = getenv ''MM_DATABASE_URL'',
            cf_public_url = public,
            cf_issuer = env_or getenv ''MM_OIDC_ISSUER'' ''https://auth.thecsdoctor.com/realms/money-miner'',
            cf_jwks_url = env_or getenv ''MM_OIDC_JWKS_URL'' ''http://keycloak:8080/realms/money-miner/protocol/openid-connect/certs'',
            cf_allow_simulated = envBool uni getenv ''ALLOW_SIMULATED'' False,
            cf_allowed_origins = allowed_origins (env_or getenv ''MM_ALLOWED_ORIGINS'' public),
            cf_poll_interval = envDuration getenv ''MM_PAYOUT_POLL_INTERVAL'' (10 * minute),
            cf_retention_interval = envDuration getenv ''MM_RETENTION_INTERVAL'' hour,
            cf_exchange_salt = env_or getenv ''MM_EXCHANGE_KEY_SALT'' ''money-miner-v0.1'',
            cf_seed_test_data = envBool uni getenv ''SEED_TEST_DATA'' False,
            cf_version = env_or getenv ''MM_VERSION'' ''dev''\<rparr>
      in (c, cf_database_url c \<noteq> []))"

text \<open>\<open>originHosts\<close> of \<open>cmd/server/main.go\<close>.\<close>

fun originHosts :: "(string \<Rightarrow> bool) \<Rightarrow> string list \<Rightarrow> string list" where
  "originHosts ip6 [] = []"
| "originHosts ip6 (o' # os) = (case url_parse ip6 o' of
     None \<Rightarrow> originHosts ip6 os
   | Some u \<Rightarrow> if ur_host u \<noteq> [] then ur_host u # originHosts ip6 os else originHosts ip6 os)"

subsection \<open>Durations are in range, and every text is decided\<close>

lemma leading_int_shorter: "leading_int acc s = Some (v, r) \<Longrightarrow> length r \<le> length s"
  by (induction acc s rule: leading_int.induct) (auto split: option.splits if_splits)

lemma leading_fraction_shorter: "leading_fraction b f sc s = (f', sc', r) \<Longrightarrow> length r \<le> length s"
  by (induction b f sc s rule: leading_fraction.induct) (auto split: option.splits if_splits)

lemma duration_item_shorter:
  assumes "duration_item s = Some (w, r)"
  shows "length r < length s"
proof -
  obtain v s1 where v: "leading_int 0 s = Some (v, s1)"
    using assms by (auto simp: duration_item_def split: if_splits option.splits)
  obtain f sc s2 where f: "(if s1 \<noteq> [] \<and> hd s1 = CHR ''.'' then leading_fraction False 0 1 (tl s1) else (0, 1, s1)) = (f, sc, s2)"
    by (metis prod_cases3)
  let ?P = "\<lambda>c. c \<noteq> CHR ''.'' \<and> digit c = None"
  have "takeWhile ?P s2 \<noteq> []" "r = dropWhile ?P s2"
    using assms unfolding duration_item_def Let_def v option.case prod.case f by (auto split: if_splits option.splits)
  then have "length r < length s2"
    using arg_cong [OF takeWhile_dropWhile_id [of ?P s2], of length] unfolding length_append by (cases "takeWhile ?P s2") auto
  also have "length s2 \<le> length s1"
    using f leading_fraction_shorter [of False 0 1 "tl s1" f sc s2] by (cases s1) (auto split: if_splits)
  also have "length s1 \<le> length s" by (rule leading_int_shorter [OF v])
  finally show ?thesis .
qed

text \<open>The loop of \<open>ParseDuration\<close> ends: more fuel than the length of the text changes nothing.\<close>

lemma duration_items_fuel: "length s \<le> n \<Longrightarrow> duration_items n acc s = duration_items (length s) acc s"
proof (induction "length s" arbitrary: n acc s rule: less_induct)
  case less
  show ?case
  proof (cases s)
    case (Cons c t)
    then obtain m where n: "n = Suc m" using less.prems by (cases n) auto
    show ?thesis
    proof (cases "duration_item (c # t)")
      case (Some wr)
      obtain w r where wr: "wr = (w, r)" by fastforce
      have "length r < length s" using duration_item_shorter [of "c # t" w r] Some Cons wr by simp
      then show ?thesis
        using less.hyps [of r m] less.hyps [of r "length t"] less.prems by (simp add: Cons n Some wr)
    qed (simp add: Cons n)
  qed (cases n; simp)
qed

lemma duration_items_bound: "acc \<le> 2 ^ 63 \<Longrightarrow> duration_items n acc s = Some d \<Longrightarrow> d \<le> 2 ^ 63"
  by (induction n acc s rule: duration_items.induct) (auto split: option.splits if_splits)

text \<open>The loop as it is written, without fuel: \<open>None\<close> would be that it never returns.\<close>

partial_function (option) duration_loop :: "int \<Rightarrow> string \<Rightarrow> int option option" where
  "duration_loop acc s = (if s = [] then Some (Some acc)
     else case duration_item s of
       None \<Rightarrow> Some None
     | Some (w, rest) \<Rightarrow> if acc + w > 2 ^ 63 then Some None else duration_loop (acc + w) rest)"

lemma duration_loop_returns: "duration_loop acc s = Some (duration_items (length s) acc s)"
proof (induction "length s" arbitrary: acc s rule: less_induct)
  case less
  show ?case
  proof (cases s)
    case (Cons c t)
    show ?thesis
    proof (cases "duration_item s")
      case (Some wr)
      obtain w r where wr: "wr = (w, r)" by fastforce
      have r: "length r < length s" using duration_item_shorter [of s w r] Some wr by simp
      have "duration_items (length t) (acc + w) r = duration_items (length r) (acc + w) r"
        using r Cons by (intro duration_items_fuel) simp
      then show ?thesis using less.hyps [OF r] Some Cons by (subst duration_loop.simps) (simp add: wr)
    qed (subst duration_loop.simps, simp add: Cons)
  qed (subst duration_loop.simps, simp)
qed

lemma leading_int_nonneg: "0 \<le> acc \<Longrightarrow> leading_int acc s = Some (v, r) \<Longrightarrow> 0 \<le> v"
  by (induction acc s rule: leading_int.induct) (auto split: option.splits if_splits)

lemma leading_fraction_nonneg: "0 \<le> f \<Longrightarrow> 0 < sc \<Longrightarrow> leading_fraction b f sc s = (f', sc', r) \<Longrightarrow> 0 \<le> f' \<and> 0 < sc'"
  by (induction b f sc s rule: leading_fraction.induct) (auto split: option.splits if_splits)

lemma unit_ns_pos: "unit_ns u = Some ns \<Longrightarrow> 0 < ns"
  by (auto simp: unit_ns_def second_def minute_def hour_def split: if_splits)

lemma duration_item_nonneg:
  assumes "duration_item s = Some (w, r)"
  shows "0 \<le> w"
proof -
  obtain v s1 where v: "leading_int 0 s = Some (v, s1)"
    using assms by (auto simp: duration_item_def split: if_splits option.splits)
  obtain f sc s2 where f: "(if s1 \<noteq> [] \<and> hd s1 = CHR ''.'' then leading_fraction False 0 1 (tl s1) else (0, 1, s1)) = (f, sc, s2)"
    by (metis prod_cases3)
  obtain ns where ns: "unit_ns (takeWhile (\<lambda>c. c \<noteq> CHR ''.'' \<and> digit c = None) s2) = Some ns" "w = v * ns + f * ns div sc"
    using assms unfolding duration_item_def Let_def v option.case prod.case f by (auto split: if_splits option.splits)
  have "0 \<le> f \<and> 0 < sc" using f leading_fraction_nonneg [of 0 1 False "tl s1" f sc s2] by (auto split: if_splits)
  then show ?thesis
    using leading_int_nonneg [OF _ v] unit_ns_pos [OF ns(1)] by (simp add: ns(2) pos_imp_zdiv_nonneg_iff)
qed

lemma duration_items_nonneg: "0 \<le> acc \<Longrightarrow> duration_items n acc s = Some d \<Longrightarrow> 0 \<le> d"
  by (induction n acc s rule: duration_items.induct) (auto split: option.splits if_splits dest: duration_item_nonneg)



text \<open>A bare number of seconds wraps around, so a large interval becomes a negative one, and the ticker panics.\<close>

lemma bare_seconds_wrap: "envDuration (\<lambda>_. ''9300000000'') key def = - 9146744073709551616"
  "envDuration (\<lambda>_. ''0'') key def = 0"
  by (simp add: envDuration_def, code_simp)+

end
