(* ===== verification/Api.thy ===== *)
theory Api
  imports Hub Auth RateLimit Config Wallet
begin

text \<open>
  The HTTP surface (\<open>internal/api\<close>): one definition per handler, over the state \<open>world\<close> of hub, store and
  event broker. A handler gets the tenant of the token, the parts of the request that it reads, and its
  body after \<open>decode\<close> (\<open>None\<close> when it does not decode). The answer is a status with a value, or a status
  with the code of the error envelope; the texts for people are left out.

  The record \<open>api_env\<close> has the configuration and what the handlers use of the outside: the Unicode tables,
  DNS (which may answer differently at every database statement), and the parser of RFC 3339 times.
\<close>

record api_env =
  ae_cfg :: config
  ae_rt :: runtime
  ae_upper :: "string \<Rightarrow> string"
  ae_lower :: "string \<Rightarrow> string"
  ae_ip6 :: "string \<Rightarrow> bool"
  ae_lookup :: "nat \<Rightarrow> string \<Rightarrow> ip list option"
  ae_time :: "string \<Rightarrow> int option"

datatype 'a reply = Reply int 'a | Err int string

fun status_of :: "'a reply \<Rightarrow> int" where
  "status_of (Reply n a) = n"
| "status_of (Err n c) = n"

subsection \<open>Helpers\<close>

text \<open>\<open>storeErr\<close>, when there is an error.\<close>

definition storeErr :: "string \<Rightarrow> store_err \<Rightarrow> 'a reply" where
  "storeErr conflictCode e = (case e of
     ErrNotFound \<Rightarrow> Err 404 ''not_found'' | ErrConflict \<Rightarrow> Err 409 conflictCode | PgErr _ \<Rightarrow> Err 500 ''internal'')"

text \<open>A store call; on an error the handler answers with it and returns.\<close>

definition stored :: "string \<Rightarrow> (db, store_err + 'a) state \<Rightarrow> ('a \<Rightarrow> (world, 'b reply) state) \<Rightarrow> (world, 'b reply) state" where
  "stored conflictCode m k = do {
     r \<leftarrow> on_db m;
     case r of Inl e \<Rightarrow> ret (storeErr conflictCode e) | Inr a \<Rightarrow> k a
   }"

text \<open>A store call whose error has a meaning of its own.\<close>

definition lookup_or :: "'b reply \<Rightarrow> (db, 'e + 'a) state \<Rightarrow> ('a \<Rightarrow> (world, 'b reply) state) \<Rightarrow> (world, 'b reply) state" where
  "lookup_or other m k = do { r \<leftarrow> on_db m; case r of Inl _ \<Rightarrow> ret other | Inr a \<Rightarrow> k a }"

definition decoded :: "'r option \<Rightarrow> ('r \<Rightarrow> (world, 'b reply) state) \<Rightarrow> (world, 'b reply) state" where
  "decoded body k = (case body of None \<Rightarrow> ret (Err 400 ''bad_request'') | Some req \<Rightarrow> k req)"

definition guard :: "bool \<Rightarrow> 'b reply \<Rightarrow> (world, 'b reply) state \<Rightarrow> (world, 'b reply) state" where
  "guard ok other k = (if ok then k else ret other)"

definition pagination :: "string \<Rightarrow> string \<Rightarrow> int \<times> int" where
  "pagination limit_q offset_q =
     (let lm = fst (Atoi limit_q); ofs = fst (Atoi offset_q);
          lm = (if lm \<le> 0 then 50 else lm); lm = (if lm > 200 then 200 else lm)
      in (lm, if ofs < 0 then 0 else ofs))"

definition parseTime :: "api_env \<Rightarrow> string \<Rightarrow> int option" where
  "parseTime E s = (if s = [] then None else ae_time E s)"

datatype pool_url_error = Unparseable | SchemeNotAllowed string | HasCredentials | NoHost | Unresolved | NotPublic ip

definition refused_ip :: "ip \<Rightarrow> bool" where
  "refused_ip a \<longleftrightarrow> IsLoopback a \<or> IsPrivate a \<or> IsLinkLocalUnicast a \<or> IsUnspecified a"

definition pool_schemes :: "string list" where
  "pool_schemes = [''stratum+tcp'', ''stratum+ssl'', ''stratum'', ''http'', ''https'']"

definition validatePoolURL :: "(string \<Rightarrow> bool) \<Rightarrow> (string \<Rightarrow> ip list option) \<Rightarrow> string \<Rightarrow> pool_url_error option" where
  "validatePoolURL ip6 lookup raw = (case url_parse ip6 raw of
     None \<Rightarrow> Some Unparseable
   | Some u \<Rightarrow>
       if ur_scheme u \<notin> set pool_schemes then Some (SchemeNotAllowed (ur_scheme u))
       else if ur_user u then Some HasCredentials
       else if Hostname u = [] then Some NoHost
       else case lookup (Hostname u) of
         None \<Rightarrow> Some Unresolved
       | Some ips \<Rightarrow> map_option NotPublic (find refused_ip ips))"

definition pool_checked :: "api_env \<Rightarrow> string \<Rightarrow> (world, 'b reply) state \<Rightarrow> (world, 'b reply) state" where
  "pool_checked E raw k = do {
     n \<leftarrow> gets (\<lambda>w. tick (wdb w));
     guard (validatePoolURL (ae_ip6 E) (ae_lookup E n) raw = None) (Err 400 ''pool_url_invalid'') k
   }"

text \<open>The wallet of a request, if it names one, must be the owner's.\<close>

definition wallet_checked :: "string \<Rightarrow> string option \<Rightarrow> (world, 'b reply) state \<Rightarrow> (world, 'b reply) state" where
  "wallet_checked owner wid k = (case wid of
     None \<Rightarrow> k | Some i \<Rightarrow> lookup_or (Err 400 ''wallet_unknown'') (WalletAddress owner i) (\<lambda>_. k))"

subsection \<open>Currencies and wallets\<close>

definition handleListCurrencies :: "(world, currency list reply) state" where
  "handleListCurrencies = stored [] ListCurrencies (\<lambda>items. ret (Reply 200 items))"

definition handleGetCurrency :: "api_env \<Rightarrow> string \<Rightarrow> (world, currency reply) state" where
  "handleGetCurrency E sy = stored [] (GetCurrency (ToUpper (ae_upper E) sy)) (\<lambda>c. ret (Reply 200 c))"

definition handleListWallets :: "string \<Rightarrow> (world, wallet list reply) state" where
  "handleListWallets owner = stored [] (ListWallets owner) (\<lambda>items. ret (Reply 200 items))"

record wallet_req =
  wr_currency :: string
  wr_address :: string
  wr_label :: string

definition handleCreateWallet :: "api_env \<Rightarrow> string \<Rightarrow> wallet_req option \<Rightarrow> (world, wallet reply) state" where
  "handleCreateWallet E owner body = decoded body (\<lambda>req.
     let cur = ToUpper (ae_upper E) (TrimSpace (wr_currency req)) in
     lookup_or (Err 400 ''currency_unknown'') (GetCurrency cur) (\<lambda>_.
     guard (Validate (ae_upper E) cur (wr_address req) = Inr ()) (Err 400 ''wallet_invalid'')
     (stored ''wallet_exists'' (CreateWallet owner cur (TrimSpace (wr_address req)) (wr_label req) True) (\<lambda>wal.
     ret (Reply 201 wal)))))"

definition handleDeleteWallet :: "string \<Rightarrow> string \<Rightarrow> (world, unit reply) state" where
  "handleDeleteWallet owner i = stored [] (DeleteWallet owner i) (\<lambda>_. ret (Reply 204 ()))"

subsection \<open>Miners\<close>

text \<open>\<open>withLive\<close>: the freshest sample of a running miner, 0 for the others; an error leaves what was there.\<close>

fun withLive :: "miner list \<Rightarrow> (world, miner list) state" where
  "withLive [] = ret []"
| "withLive (m # ms) = do {
     m' \<leftarrow> (if mn_status m \<noteq> ''running'' then ret (m\<lparr>mn_rate := 0\<rparr>)
       else do {
         r \<leftarrow> on_db (LiveHashrate (mn_id m));
         ret (case r of Inl _ \<Rightarrow> m | Inr (h, _, _) \<Rightarrow> m\<lparr>mn_rate := h\<rparr>)
       });
     ms' \<leftarrow> withLive ms;
     ret (m' # ms')
   }"

definition handleListMiners :: "string \<Rightarrow> (world, miner list reply) state" where
  "handleListMiners owner = stored [] (ListMiners owner) (\<lambda>items. do { ms \<leftarrow> withLive items; ret (Reply 200 ms) })"

record miner_req =
  mr_name :: string
  mr_currency :: string
  mr_wallet :: "string option"
  mr_pool :: string
  mr_engine :: string
  mr_cpu :: int
  mr_gpu :: int

text \<open>A string field of a JSON object: keys are compared without case, the last one counts, \<open>null\<close> does not.\<close>

definition field_str :: "string \<Rightarrow> (string \<times> json) list \<Rightarrow> string" where
  "field_str key kvs = (case find (\<lambda>(k, v). map lower_char k = key \<and> (case v of JStr _ \<Rightarrow> True | _ \<Rightarrow> False)) (rev kvs) of
     Some (_, JStr s) \<Rightarrow> s | _ \<Rightarrow> [])"

definition parsePools :: "json \<Rightarrow> string list" where
  "parsePools raw = (case raw of
     JArr xs \<Rightarrow> map (\<lambda>x. case x of JObj kvs \<Rightarrow> field_str ''url'' kvs | _ \<Rightarrow> []) xs
   | _ \<Rightarrow> [])"

definition currencySettingFor :: "string \<Rightarrow> string \<Rightarrow> (db, store_err + currency_setting) state" where
  "currencySettingFor owner sy = and_then (ListCurrencySettings owner) (\<lambda>items.
     ret (case find (\<lambda>cs. ct_currency cs = sy) items of None \<Rightarrow> Inl ErrNotFound | Some cs \<Rightarrow> Inr cs))"

text \<open>The engine of a new miner, or the code of the error.\<close>

definition resolve_engine :: "config \<Rightarrow> string \<Rightarrow> string + string" where
  "resolve_engine cfg eng =
     (if eng = [] \<or> eng = ''adapter'' then Inr ''adapter''
      else if eng = ''native-go'' then Inl ''engine_unavailable''
      else if eng = ''simulated'' then (if cf_allow_simulated cfg then Inr ''simulated'' else Inl ''simulated_disabled'')
      else Inl ''bad_request'')"

text \<open>The pool of a new miner: of the request, else of the owner's settings, else the first of the catalog.\<close>

definition resolve_pool :: "string \<Rightarrow> currency \<Rightarrow> string \<Rightarrow> (world, string) state" where
  "resolve_pool owner cur requested =
     (let p = TrimSpace requested in
      if p \<noteq> [] then ret p
      else do {
        r \<leftarrow> on_db (currencySettingFor owner (symbol cur));
        let q = (case r of Inl _ \<Rightarrow> [] | Inr cs \<Rightarrow> ct_pool cs);
        ret (if q \<noteq> [] then q
          else case find (\<lambda>u. u \<noteq> []) (parsePools (pools cur)) of None \<Rightarrow> [] | Some u \<Rightarrow> u)
      })"

definition handleCreateMiner :: "api_env \<Rightarrow> string \<Rightarrow> miner_req option \<Rightarrow> (world, miner reply) state" where
  "handleCreateMiner E owner body = decoded body (\<lambda>req.
     let name = TrimSpace (mr_name req) in
     guard (name \<noteq> [] \<and> length name \<le> 80) (Err 400 ''bad_request'')
     (lookup_or (Err 400 ''currency_unknown'') (GetCurrency (ToUpper (ae_upper E) (TrimSpace (mr_currency req)))) (\<lambda>cur.
     guard (enabled cur \<and> engine_strategy cur \<noteq> ''deferred'') (Err 400 ''currency_deferred'')
     (case resolve_engine (ae_cfg E) (mr_engine req) of
        Inl code \<Rightarrow> ret (Err 400 code)
      | Inr engineName \<Rightarrow> do {
          poolURL \<leftarrow> resolve_pool owner cur (mr_pool req);
          guard (poolURL \<noteq> []) (Err 400 ''pool_required'')
          (pool_checked E poolURL
          (wallet_checked owner (mr_wallet req)
          (let cpu = (if mr_cpu req = 0 then 50 else mr_cpu req); gpu = mr_gpu req in
           guard (1 \<le> cpu \<and> cpu \<le> 100 \<and> 0 \<le> gpu \<and> gpu \<le> 100) (Err 400 ''bad_request'')
           (stored [] (CreateMiner \<lparr>cm_owner = owner, cm_name = name, cm_currency = symbol cur, cm_wallet = mr_wallet req,
               cm_engine = engineName, cm_pool = poolURL, cm_cpu = cpu, cm_gpu = gpu\<rparr>)
             (\<lambda>m. ret (Reply 201 m))))))
        }))))"

text \<open>\<open>MinerDetail\<close>: the run and the workers are left out when their queries fail.\<close>

definition handleGetMiner :: "string \<Rightarrow> string \<Rightarrow> (world, (miner \<times> miner_run option \<times> worker list) reply) state" where
  "handleGetMiner owner i = stored [] (GetMiner owner i) (\<lambda>m. do {
     run \<leftarrow> on_db (CurrentRun (mn_id m));
     wks \<leftarrow> on_db (WorkersForMiner (mn_id m));
     ms \<leftarrow> withLive [m];
     ret (Reply 200 (hd ms, (case run of Inl _ \<Rightarrow> None | Inr r \<Rightarrow> r), (case wks of Inl _ \<Rightarrow> [] | Inr ks \<Rightarrow> ks)))
   })"

definition handlePatchMiner :: "api_env \<Rightarrow> string \<Rightarrow> string \<Rightarrow> (string option \<times> string option \<times> string option) option \<Rightarrow>
    (world, miner reply) state" where
  "handlePatchMiner E owner i body = decoded body (\<lambda>(name, wid, pool).
     let finish = wallet_checked owner wid (stored [] (PatchMiner owner i name wid pool) (\<lambda>m. ret (Reply 200 m))) in
     case pool of None \<Rightarrow> finish | Some p \<Rightarrow> pool_checked E p finish)"

text \<open>The miner is cancelled before the owner is checked.\<close>

definition handleDeleteMiner :: "string \<Rightarrow> string \<Rightarrow> (world, unit reply) state" where
  "handleDeleteMiner owner i = do {
     CancelMiner i ''user'';
     stored [] (DeleteMiner owner i) (\<lambda>_. ret (Reply 204 ()))
   }"

definition handleStartMiner :: "string \<Rightarrow> string \<Rightarrow> (world, miner reply) state" where
  "handleStartMiner owner i = stored [] (GetMiner owner i) (\<lambda>m.
     guard (mn_status m \<noteq> ''running'' \<and> mn_status m \<noteq> ''queued'') (Err 409 ''already_running'')
     (guard (mn_wallet m \<noteq> None \<or> mn_engine m = ''simulated'') (Err 400 ''wallet_required'')
     (stored [] (GetCurrency (mn_currency m)) (\<lambda>cur.
      stored [] (OpenRun (mn_id m)) (\<lambda>_. do {
        walletAddr \<leftarrow> wallet_of owner (mn_wallet m);
        ignore (on_db (SetMinerStatus i ''queued''));
        ok \<leftarrow> Assign m cur walletAddr;
        (if ok then publish owner ''miner_status'' [(''miner_id'', EStr i), (''status'', EStr ''assigned'')]
         else publish owner ''miner_status'' [(''miner_id'', EStr i), (''status'', EStr ''queued''),
           (''detail'', EStr (''waiting for a connected worker (enroll one in Settings '' @
              map char_of [226 :: nat, 134, 146] @ '' Swarm)''))]);
        ret (Reply 202 (m\<lparr>mn_status := ''queued''\<rparr>))
      })))))"

definition handleStopMiner :: "string \<Rightarrow> string \<Rightarrow> (world, miner reply) state" where
  "handleStopMiner owner i = stored [] (GetMiner owner i) (\<lambda>m. do {
     CancelMiner i ''user'';
     ignore (on_db (SetMinerStatus i ''stopped''));
     publish owner ''miner_status'' [(''miner_id'', EStr i), (''status'', EStr ''stopped'')];
     ret (Reply 202 (m\<lparr>mn_status := ''stopped''\<rparr>))
   })"

definition handleMinerAllocation :: "string \<Rightarrow> string \<Rightarrow> (int \<times> int) option \<Rightarrow> (world, miner reply) state" where
  "handleMinerAllocation owner i body = decoded body (\<lambda>(cpu, gpu).
     guard (1 \<le> cpu \<and> cpu \<le> 100 \<and> 0 \<le> gpu \<and> gpu \<le> 100) (Err 400 ''bad_request'')
     (stored [] (SetMinerAllocation owner i cpu gpu) (\<lambda>m. do {
        AllocationUpdate (mn_id m) cpu gpu;
        ret (Reply 200 m)
      })))"

definition handleMinerHistory :: "api_env \<Rightarrow> string \<Rightarrow> string \<Rightarrow> string \<Rightarrow> string \<Rightarrow> string \<Rightarrow>
    (world, (miner_run list \<times> metric_point list) reply) state" where
  "handleMinerHistory E owner i resolution from_q to_q = stored [] (GetMiner owner i) (\<lambda>_.
     stored [] (ListRuns i 100) (\<lambda>rs. do {
       now \<leftarrow> gets wall;
       let from_ts = (case parseTime E from_q of None \<Rightarrow> now - 7 * 24 * hour | Some t \<Rightarrow> t);
       let to_ts = (case parseTime E to_q of None \<Rightarrow> now | Some t \<Rightarrow> t);
       stored [] (if resolution = ''raw'' then RecentMetrics i 500 else HourlyRollups i from_ts to_ts)
         (\<lambda>series. ret (Reply 200 (rs, series)))
     }))"

definition handleMinerMetrics :: "string \<Rightarrow> string \<Rightarrow> string \<Rightarrow> (world, metric_point list reply) state" where
  "handleMinerMetrics owner i limit_q = stored [] (GetMiner owner i) (\<lambda>_.
     let lm = fst (Atoi limit_q); lm = (if lm \<le> 0 \<or> lm > 1000 then 120 else lm) in
     stored [] (RecentMetrics i lm) (\<lambda>items. ret (Reply 200 items)))"

subsection \<open>Workers\<close>

definition handleListWorkers :: "string \<Rightarrow> (world, worker list reply) state" where
  "handleListWorkers owner = stored [] (ListWorkers owner) (\<lambda>items. do {
     w \<leftarrow> gets id;
     ret (Reply 200 (map (\<lambda>k. if Online (wk_id k) w \<and> wk_status k \<noteq> ''revoked'' \<and> (wk_status k = ''enrolled'' \<or> wk_status k = ''offline'')
       then k\<lparr>wk_status := ''connected''\<rparr> else k) items))
   })"

definition handleGetWorker :: "string \<Rightarrow> string \<Rightarrow> (world, (worker \<times> bool \<times> string list) reply) state" where
  "handleGetWorker owner i = stored [] (GetWorker owner i) (\<lambda>k. do {
     w \<leftarrow> gets id;
     ret (Reply 200 (k, Online (wk_id k) w, WorkerLogs (wk_id k) w))
   })"

text \<open>The worker is read again for the answer; nothing is shown when that fails.\<close>

definition handleRevokeWorker :: "string \<Rightarrow> string \<Rightarrow> (world, worker option reply) state" where
  "handleRevokeWorker owner i = stored [] (RevokeWorker owner i) (\<lambda>_. do {
     Hub_RevokeWorker i;
     k \<leftarrow> on_db (GetWorker owner i);
     publish owner ''worker_left'' [(''id'', EStr i), (''revoked'', EBool True)];
     ret (Reply 200 (case k of Inl _ \<Rightarrow> None | Inr k \<Rightarrow> Some k))
   })"

text \<open>The connection is closed before the owner is checked.\<close>

definition handleDeleteWorker :: "string \<Rightarrow> string \<Rightarrow> (world, unit reply) state" where
  "handleDeleteWorker owner i = do {
     Hub_RevokeWorker i;
     stored [] (DeleteWorker owner i) (\<lambda>_. ret (Reply 204 ()))
   }"

subsection \<open>Join codes and statistics\<close>

definition handleListJoinCodes :: "string \<Rightarrow> (world, code_info list reply) state" where
  "handleListJoinCodes owner = lookup_or (Err 500 ''internal'') (Codes_List owner) (\<lambda>items. ret (Reply 200 items))"

text \<open>The id, the code, its expiry and the command to enroll.\<close>

definition handleCreateJoinCode :: "api_env \<Rightarrow> string \<Rightarrow> (world, (string \<times> string \<times> int \<times> string) reply) state" where
  "handleCreateJoinCode E owner = lookup_or (Err 500 ''internal'') (Codes_Create (ae_rt E) owner) (\<lambda>(info, plain).
     ret (Reply 201 (ci_id info, plain, ci_expires info,
       ''money-miner-worker enroll '' @ cf_public_url (ae_cfg E) @ '' '' @ plain)))"

definition handleDeleteJoinCode :: "string \<Rightarrow> string \<Rightarrow> (world, unit reply) state" where
  "handleDeleteJoinCode owner i = lookup_or (Err 404 ''not_found'') (Codes_Revoke owner i) (\<lambda>_. ret (Reply 204 ()))"

definition handleSwarmStats :: "string \<Rightarrow> (world, (live_stats \<times> int \<times> rat) reply) state" where
  "handleSwarmStats owner = do {
     stats \<leftarrow> LiveStats owner;
     shares \<leftarrow> on_db (Shares24h owner);
     pays \<leftarrow> on_db (Payouts24h owner);
     ret (Reply 200 (stats, (case shares of Inl _ \<Rightarrow> 0 | Inr n \<Rightarrow> n), (case pays of Inl _ \<Rightarrow> 0 | Inr a \<Rightarrow> a)))
   }"

subsection \<open>Payouts and settings\<close>

definition handleListPayouts :: "api_env \<Rightarrow> string \<Rightarrow> string \<Rightarrow> string \<Rightarrow> string \<Rightarrow> (world, (payout list \<times> nat) reply) state" where
  "handleListPayouts E owner limit_q offset_q currency_q = (case pagination limit_q offset_q of (lm, ofs) \<Rightarrow>
     stored [] (ListPayouts owner (ToUpper (ae_upper E) (TrimSpace currency_q)) lm ofs) (\<lambda>r. ret (Reply 200 r)))"

definition handleListBlocksFound :: "string \<Rightarrow> (world, block_found list reply) state" where
  "handleListBlocksFound owner = stored [] (ListBlocksFound owner) (\<lambda>items. ret (Reply 200 items))"

definition handleListSettings :: "string \<Rightarrow> (world, (string \<times> json) list reply) state" where
  "handleListSettings owner = stored [] (ListSettings owner) (\<lambda>m. ret (Reply 200 m))"

text \<open>The pattern of setting keys and exchange names.\<close>

definition setting_key :: "string \<Rightarrow> bool" where
  "setting_key k \<longleftrightarrow> 1 \<le> length k \<and> length k \<le> 40 \<and> list_all (\<lambda>c. char_in 97 122 c \<or> decimal c \<or> c \<in> set ''_.-'') k"

text \<open>
  A raw value is its length and the value; \<open>None\<close> is a missing field. The answer says whether the body has
  \<open>ok\<close>: without a value the handler returns without writing anything, which is status 200.
\<close>

definition handlePutSetting :: "string \<Rightarrow> string \<Rightarrow> (nat \<times> json) option option \<Rightarrow> (world, bool reply) state" where
  "handlePutSetting owner key body = guard (setting_key key) (Err 400 ''bad_request'')
     (decoded body (\<lambda>value. case value of
        None \<Rightarrow> ret (Reply 200 False)
      | Some (len, v) \<Rightarrow> guard (len \<le> 8192) (Err 400 ''bad_request'')
          (stored [] (PutSetting owner key v) (\<lambda>_. ret (Reply 200 True)))))"

definition handleListCurrencySettings :: "string \<Rightarrow> (world, currency_setting list reply) state" where
  "handleListCurrencySettings owner = stored [] (ListCurrencySettings owner) (\<lambda>items. ret (Reply 200 items))"

record currency_setting_req =
  cr_pool :: string
  cr_enabled :: "bool option"
  cr_adapter :: "(nat \<times> json) option"

definition handlePutCurrencySetting :: "api_env \<Rightarrow> string \<Rightarrow> string \<Rightarrow> currency_setting_req option \<Rightarrow> (world, bool reply) state" where
  "handlePutCurrencySetting E owner sy body = (let sy = ToUpper (ae_upper E) sy in
     lookup_or (Err 400 ''currency_unknown'') (GetCurrency sy) (\<lambda>_.
     decoded body (\<lambda>req.
       let finish = guard (case cr_adapter req of None \<Rightarrow> True | Some (len, _) \<Rightarrow> len \<le> 8192) (Err 400 ''bad_request'')
         (stored [] (PutCurrencySetting owner sy (cr_pool req) (case cr_enabled req of None \<Rightarrow> True | Some b \<Rightarrow> b)
             (map_option snd (cr_adapter req)))
           (\<lambda>_. ret (Reply 200 True)))
       in if cr_pool req \<noteq> [] then pool_checked E (cr_pool req) finish else finish)))"

definition handleListExchangeSettings :: "string \<Rightarrow> (world, exchange_setting list reply) state" where
  "handleListExchangeSettings owner = stored [] (ListExchangeSettings owner) (\<lambda>items. ret (Reply 200 items))"

text \<open>Every currency of the request, in order, must be of the catalog.\<close>

fun known_currencies :: "string list \<Rightarrow> (world, bool) state" where
  "known_currencies [] = ret True"
| "known_currencies (c # cs) = do {
     r \<leftarrow> on_db (GetCurrency c);
     case r of Inl _ \<Rightarrow> ret False | Inr _ \<Rightarrow> known_currencies cs
   }"

definition handlePutExchangeSetting :: "api_env \<Rightarrow> string \<Rightarrow> string \<Rightarrow> (string list option \<times> string) option \<Rightarrow> (world, bool reply) state" where
  "handlePutExchangeSetting E owner exchange body = (let exchange = ToLower (ae_lower E) (TrimSpace exchange) in
     guard (setting_key exchange) (Err 400 ''bad_request'')
     (decoded body (\<lambda>(curs, apiKey).
       let curs = map_option (map (\<lambda>c. ToUpper (ae_upper E) (TrimSpace c))) curs;
           pgpKey = (if apiKey \<noteq> [] then cf_exchange_salt (ae_cfg E) @ '':'' @ owner else [])
       in do {
         known \<leftarrow> known_currencies (case curs of None \<Rightarrow> [] | Some cs \<Rightarrow> cs);
         guard known (Err 400 ''currency_unknown'')
         (stored [] (PutExchangeSetting owner exchange curs apiKey pgpKey) (\<lambda>_. ret (Reply 200 True)))
       })))"

subsection \<open>Event streams\<close>

text \<open>
  \<open>handleEvents\<close>: opening the stream, one turn of its loop with what it writes, and the deferred
  unsubscription. The channel of a turn is the stream's; a closed channel ends it.
\<close>

datatype frame = FConnected | FEvent event | FTick live_stats | FPing

definition events_open :: "string \<Rightarrow> (world, (nat \<times> frame) reply) state" where
  "events_open owner = do {
     r \<leftarrow> gets (\<lambda>w. Subscribe owner (evb w));
     modify (\<lambda>w. w\<lparr>evb := snd r\<rparr>);
     ret (case fst r of None \<Rightarrow> Err 429 ''too_many_streams'' | Some ch \<Rightarrow> Reply 200 (ch, FConnected))
   }"

datatype stream_turn = TEvent | TTick | THeartbeat

definition events_turn :: "string \<Rightarrow> nat \<Rightarrow> stream_turn \<Rightarrow> (world, frame option) state" where
  "events_turn owner ch t = (case t of
     TEvent \<Rightarrow> do {
       r \<leftarrow> gets (\<lambda>w. receive ch (evb w));
       modify (\<lambda>w. w\<lparr>evb := snd r\<rparr>);
       ret (map_option FEvent (fst r))
     }
   | TTick \<Rightarrow> do { st \<leftarrow> LiveStats owner; ret (Some (FTick st)) }
   | THeartbeat \<Rightarrow> ret (Some FPing))"

definition events_close :: "string \<Rightarrow> nat \<Rightarrow> (world, unit) state" where
  "events_close owner ch = modify (\<lambda>w. w\<lparr>evb := unsubscribe owner ch (evb w)\<rparr>)"

subsection \<open>The public surface\<close>

text \<open>\<open>Ping\<close> succeeds or not; the answer is 200 in both cases.\<close>

definition handleHealthz :: "api_env \<Rightarrow> bool \<Rightarrow> (string \<times> string) reply" where
  "handleHealthz E ping = Reply 200 (cf_version (ae_cfg E), if ping then ''ok'' else ''error'')"

definition wssURL :: "config \<Rightarrow> string" where
  "wssURL cfg = replace_first ''http://'' ''ws://'' (replace_first ''https://'' ''wss://'' (cf_public_url cfg)) @ ''/api/swarm/ws''"

definition handleEnroll :: "api_env \<Rightarrow> (string \<times> string \<times> hardware) option \<Rightarrow> (world, (string \<times> string \<times> string) reply) state" where
  "handleEnroll E body = decoded body (\<lambda>(code, name, hw).
     guard (TrimSpace name \<noteq> []) (Err 400 ''bad_request'')
     (lookup_or (Err 404 ''code_invalid'') (Enroll (ae_rt E) code name hw) (\<lambda>res.
      ret (Reply 201 (er_worker res, er_token res, wssURL (ae_cfg E))))))"

definition handleJoinInfo :: "api_env \<Rightarrow> string \<Rightarrow> (world, string reply) state" where
  "handleJoinInfo E code = lookup_or (Err 404 ''code_invalid'') (CheckCode (ae_rt E) code) (\<lambda>_.
     ret (Reply 200 (trim_prefix ''http://'' (trim_prefix ''https://'' (cf_public_url (ae_cfg E))))))"

subsection \<open>The router\<close>

record 'b server =
  sv_world :: world
  sv_auth :: validator
  sv_authed :: "'b limiter"
  sv_enroll :: "'b limiter"
  sv_join :: "'b limiter"

definition NewServer :: "world \<Rightarrow> validator \<Rightarrow> int \<Rightarrow> 'b server" where
  "NewServer w v now = \<lparr>sv_world = w, sv_auth = v, sv_authed = NewLimiter 300 300 now,
     sv_enroll = NewLimiter 10 10 now, sv_join = NewLimiter 30 30 now\<rparr>"

abbreviation on_world :: "(world, 'a) state \<Rightarrow> ('b server, 'a) state" where
  "on_world m \<equiv> zoom sv_world (\<lambda>w s. s\<lparr>sv_world := w\<rparr>) m"

text \<open>An authenticated route: the token, then the tenant's budget, then the handler with the tenant.\<close>

definition authed :: "jwt_lib \<Rightarrow> 'b buckets \<Rightarrow> jwks_answer \<Rightarrow> int \<Rightarrow> string \<Rightarrow> (string \<Rightarrow> (world, 'a reply) state) \<Rightarrow>
    ('b server, 'a reply) state" where
  "authed lib B answer now header h = do {
     r \<leftarrow> gets (\<lambda>s. auth_Middleware lib answer now header (sv_auth s));
     modify (\<lambda>s. s\<lparr>sv_auth := snd r\<rparr>);
     case fst r of
       None \<Rightarrow> ret (Err 401 ''unauthorized'')
     | Some c \<Rightarrow> do {
         q \<leftarrow> gets (\<lambda>s. rl_Middleware B cl_sub now c (sv_authed s));
         modify (\<lambda>s. s\<lparr>sv_authed := snd q\<rparr>);
         if fst q then on_world (h (cl_sub c)) else ret (Err 429 ''rate_limited'')
       }
   }"

text \<open>The two limited public routes, by the address of the client.\<close>

definition enroll_route :: "'b buckets \<Rightarrow> int \<Rightarrow> string \<Rightarrow> string \<Rightarrow> (world, 'a reply) state \<Rightarrow> ('b server, 'a reply) state" where
  "enroll_route B now xff remote h = do {
     q \<leftarrow> gets (\<lambda>s. rl_Middleware B (\<lambda>_. ClientIP xff remote) now () (sv_enroll s));
     modify (\<lambda>s. s\<lparr>sv_enroll := snd q\<rparr>);
     if fst q then on_world h else ret (Err 429 ''rate_limited'')
   }"

definition join_route :: "'b buckets \<Rightarrow> int \<Rightarrow> string \<Rightarrow> string \<Rightarrow> (world, 'a reply) state \<Rightarrow> ('b server, 'a reply) state" where
  "join_route B now xff remote h = do {
     q \<leftarrow> gets (\<lambda>s. rl_Middleware B (\<lambda>_. ClientIP xff remote) now () (sv_join s));
     modify (\<lambda>s. s\<lparr>sv_join := snd q\<rparr>);
     if fst q then on_world h else ret (Err 429 ''rate_limited'')
   }"

text \<open>\<open>cors\<close>: whether the headers that allow the origin are set, and whether the request is answered with 204 at once.\<close>

definition cors :: "config \<Rightarrow> string \<Rightarrow> string \<Rightarrow> bool \<times> bool" where
  "cors cfg origin meth = (origin \<noteq> [] \<and> origin \<in> set (cf_allowed_origins cfg), meth = ''OPTIONS'')"

subsection \<open>Starting the server\<close>

text \<open>\<open>seedTestData\<close> of \<open>cmd/server/main.go\<close>: the demo wallet and miner of the test user.\<close>

definition demoXMR :: string where
  "demoXMR = ''44AFFq5kSiGBoZ4sMDRsFSBzNdkW7jcqEW4nQWYkWfFdDHmsFSeNm5xQDLGzP4Srp2TnHv7EwVzq2tZzrVMxV4CUVuDE6Q''"

definition seedTestData :: "config \<Rightarrow> string \<Rightarrow> (db, store_err + unit) state" where
  "seedTestData cfg sub = (if sub = [] then ret (Inr ())
     else and_then (ListMiners sub) (\<lambda>existing.
       if existing \<noteq> [] then ret (Inr ())
       else and_then (CreateWallet sub ''XMR'' demoXMR ''demo (seeded)'' True) (\<lambda>wal.
         and_then (CreateMiner \<lparr>cm_owner = sub, cm_name = ''Demo XMR miner'', cm_currency = ''XMR'', cm_wallet = Some (wa_id wal),
             cm_engine = (if cf_allow_simulated cfg then ''simulated'' else ''adapter''),
             cm_pool = ''stratum+ssl://pool.supportxmr.com:443'', cm_cpu = 50, cm_gpu = 0\<rparr>)
           (\<lambda>_. ret (Inr ())))))"

text \<open>The tickers of the retention and payout loops panic on an interval that is not positive; \<open>RunRollupLoop\<close> guards it.\<close>

definition NewTicker :: "int \<Rightarrow> int option" where
  "NewTicker d = (if d \<le> 0 then None else Some d)"

fun repeat :: "nat \<Rightarrow> ('s, unit) state \<Rightarrow> ('s, unit) state" where
  "repeat 0 m = ret ()"
| "repeat (Suc n) m = do { m; repeat n m }"

text \<open>\<open>Retention.Run\<close> for \<open>n\<close> ticks: \<open>None\<close> is the panic.\<close>

definition Retention_once :: "(db, unit) state" where
  "Retention_once = ignore RollupOnce"

definition Retention_Run :: "int \<Rightarrow> nat \<Rightarrow> (db, unit) state option" where
  "Retention_Run interval n = map_option (\<lambda>_. repeat (Suc n) Retention_once) (NewTicker interval)"

definition RunRollupLoop :: "int \<Rightarrow> nat \<Rightarrow> (db, unit) state option" where
  "RunRollupLoop every n = map_option (\<lambda>_. repeat n (ignore RollupOnce)) (NewTicker (if every \<le> 0 then hour else every))"

end
