(* ===== verification/ApiProps.thy ===== *)
theory ApiProps
  imports Api HubControl EngineProps
begin

text \<open>
  The HTTP surface: who reaches a handler, what the guard of pool URLs lets through, what a created miner
  is, how large a page can be, and what a deletion does to another tenant.
\<close>

subsection \<open>Answers that are not errors\<close>

text \<open>The steps of a handler that answered with a value.\<close>

named_theorems reply_simps

lemma guard_Reply [reply_simps]:
  "run_state (guard b (Err n c) k) w = (Reply s a, w') \<longleftrightarrow> b \<and> run_state k w = (Reply s a, w')"
  by (simp add: guard_def)

lemma stored_Reply [reply_simps]: "run_state (stored cc m k) w = (Reply s a, w') \<longleftrightarrow>
  (\<exists>x d. run_state m (wdb w) = (Inr x, d) \<and> run_state (k x) (w\<lparr>wdb := d\<rparr>) = (Reply s a, w'))"
  by (cases "run_state m (wdb w)") (auto simp: stored_def storeErr_def split: sum.splits store_err.splits)

lemma lookup_Reply [reply_simps]: "run_state (lookup_or (Err n c) m k) w = (Reply s a, w') \<longleftrightarrow>
  (\<exists>x d. run_state m (wdb w) = (Inr x, d) \<and> run_state (k x) (w\<lparr>wdb := d\<rparr>) = (Reply s a, w'))"
  by (cases "run_state m (wdb w)") (auto simp: lookup_or_def split: sum.splits)

lemma decoded_Reply [reply_simps]: "run_state (decoded body k) w = (Reply s a, w') \<longleftrightarrow>
  (\<exists>req. body = Some req \<and> run_state (k req) w = (Reply s a, w'))"
  by (cases body) (simp_all add: decoded_def)

lemma pool_checked_Reply [reply_simps]: "run_state (pool_checked E p k) w = (Reply s a, w') \<longleftrightarrow>
  validatePoolURL (ae_ip6 E) (ae_lookup E (tick (wdb w))) p = None \<and> run_state k w = (Reply s a, w')"
  by (simp add: pool_checked_def reply_simps)

lemma wallet_checked_Reply [reply_simps]: "run_state (wallet_checked owner wid k) w = (Reply s a, w') \<longleftrightarrow>
  (case wid of None \<Rightarrow> run_state k w = (Reply s a, w')
   | Some i \<Rightarrow> \<exists>x d. run_state (WalletAddress owner i) (wdb w) = (Inr x, d) \<and> run_state k (w\<lparr>wdb := d\<rparr>) = (Reply s a, w'))"
  by (simp add: wallet_checked_def reply_simps split: option.splits)

lemma ret_Reply [reply_simps]: "run_state (ret r) w = (q, w') \<longleftrightarrow> q = r \<and> w' = w"
  by auto

subsection \<open>Authenticated routes\<close>

text \<open>
  C31. An authenticated route runs its handler only for a tenant who is the subject of a token that verifies
  under a key which the realm published at most an hour ago, that the realm issued and that has not expired;
  and only within the tenant's budget. Otherwise it answers 401 or 429, and nothing but the caches changes.
\<close>

theorem authed_sound:
  assumes "jwt_verifies lib sig_ok issuer expiry payload"
    and "run_state (authed lib B answer now header h) s = (r, s')"
  shows "(r = Err 401 ''unauthorized'' \<or> r = Err 429 ''rate_limited'') \<and> sv_world s' = sv_world s \<or>
    (\<exists>tok kid key v. tok = TrimSpace (trim_prefix ''Bearer '' header) \<and>
       map_of (va_keys (sv_auth s')) kid = Some key \<and> sig_ok key tok \<and> va_fresh (sv_auth s') = Some v \<and> now - v \<le> hour \<and>
       issuer tok = va_issuer (sv_auth s) \<and> now < expiry tok \<and> tk_sub (payload tok) \<noteq> [] \<and>
       fst (Allow B now (tk_sub (payload tok)) (sv_authed s)) \<and>
       (r, sv_world s') = run_state (h (tk_sub (payload tok))) (sv_world s))"
proof -
  obtain c v' where m: "auth_Middleware lib answer now header (sv_auth s) = (c, v')" by fastforce
  show ?thesis
  proof (cases c)
    case None
    then show ?thesis using assms(2) by (auto simp: authed_def m)
  next
    case (Some cl)
    note sound = token_sound [OF assms(1) m [unfolded Some] refl]
    obtain ok l where a: "Allow B now (cl_sub cl) (sv_authed s) = (ok, l)" by fastforce
    show ?thesis
    proof (cases ok)
      case False
      then show ?thesis using assms(2) by (auto simp: authed_def m Some rl_Middleware_def a)
    next
      case True
      have "(r, sv_world s') = run_state (h (cl_sub cl)) (sv_world s)" "sv_auth s' = v'"
        using assms(2) True by (auto simp: authed_def m Some rl_Middleware_def a run_zoom split: prod.splits)
      with sound a True show ?thesis by auto
    qed
  qed
qed

text \<open>A server in its first hour, and a request with its token.\<close>

definition demo_server :: "nat server" where
  "demo_server = NewServer hub_world (NewValidator ''https://kc'' ''realm'') 0"

theorem authed_sound_witness:
  "\<exists>w'. run_state (authed demo_lib credit (Some (200, Some [demo_jwk])) 5 ''Bearer tok'' handleListWallets) demo_server =
     (fst (run_state (handleListWallets ''alice'') hub_world), w')"
proof -
  obtain r s' where run: "run_state (authed demo_lib credit (Some (200, Some [demo_jwk])) 5 ''Bearer tok'' handleListWallets) demo_server = (r, s')"
    by fastforce
  have "r \<noteq> Err 401 ''unauthorized'' \<and> r \<noteq> Err 429 ''rate_limited''"
  proof -
    have "r = fst (run_state (handleListWallets ''alice'') hub_world)"
      using run demo_accepted
      by (simp add: authed_def demo_server_def NewServer_def rl_Middleware_def Allow_def evict_def NewLimiter_def
        bucket_for_def credit_def minute_def second_def run_zoom split: prod.splits)
    then show ?thesis
      by (cases "run_state (ListWallets ''alice'') (wdb hub_world)")
        (auto simp: handleListWallets_def stored_def storeErr_def split: sum.splits store_err.splits)
  qed
  with authed_sound [OF demo_verifies run]
  have "(r, sv_world s') = run_state (handleListWallets ''alice'') (sv_world demo_server)" by auto
  then show ?thesis using run by (auto simp: demo_server_def NewServer_def dest: sym)
qed

subsection \<open>The guard of pool URLs\<close>

text \<open>An IPv4 address outside the ranges for loopback, private networks, link-local and the unspecified one.\<close>

definition public_v4 :: "nat \<Rightarrow> nat \<Rightarrow> nat \<Rightarrow> nat \<Rightarrow> bool" where
  "public_v4 a b c d \<longleftrightarrow> a \<noteq> 127 \<and> a \<noteq> 10 \<and> \<not> (a = 172 \<and> 16 \<le> b \<and> b \<le> 31) \<and> \<not> (a = 192 \<and> b = 168) \<and>
     \<not> (a = 169 \<and> b = 254) \<and> [a, b, c, d] \<noteq> [0, 0, 0, 0]"

lemma zeros: "replicate 4 (0 :: nat) = [0, 0, 0, 0]"
  by (simp add: numeral_eq_Suc)

lemma To4_mapped: "To4 (replicate 10 0 @ [255, 255, a, b, c, d]) = Some [a, b, c, d]"
  by (simp add: To4_def)

lemma refused_v4: "\<not> refused_ip [a, b, c, d] \<Longrightarrow> public_v4 a b c d"
  by (auto simp: refused_ip_def public_v4_def IsLoopback_def IsPrivate_def IsLinkLocalUnicast_def IsUnspecified_def To4_def zeros)

lemma refused_mapped:
  assumes "\<not> refused_ip (replicate 10 0 @ [255, 255, a, b, c, d])"
  shows "public_v4 a b c d"
proof -
  have "[a, b, c, d] \<noteq> [0, 0, 0, 0]"
    using assms by (auto simp: refused_ip_def IsUnspecified_def zeros)
  moreover have "a \<noteq> 127 \<and> a \<noteq> 10 \<and> \<not> (a = 172 \<and> b div 16 = 1) \<and> \<not> (a = 192 \<and> b = 168) \<and> \<not> (a = 169 \<and> b = 254)"
    using assms by (simp add: refused_ip_def IsLoopback_def IsPrivate_def IsLinkLocalUnicast_def To4_mapped)
  ultimately show ?thesis by (auto simp: public_v4_def)
qed


definition demo_dns :: "string \<Rightarrow> ip list option" where
  "demo_dns h = (if h = ''pool.example'' then Some [[93, 184, 216, 34]] else None)"

lemma demo_pool_ok: "validatePoolURL (\<lambda>_. False) demo_dns ''stratum+tcp://pool.example:3333'' = None"
  by code_simp


text \<open>
  A URL with a path that contains another host passes the check of its own host, while the worker's splitting
  takes the last colon.
\<close>

lemma pool_host_differs:
  "validatePoolURL (\<lambda>_. False) demo_dns ''stratum+tcp://pool.example/@10.0.0.1:3333'' = None \<and>
   poolHostPort ''stratum+tcp://pool.example/@10.0.0.1:3333'' = (''pool.example/@10.0.0.1'', ''3333'')"
  by code_simp

subsection \<open>Creating a miner\<close>

lemma GetCurrency_found: "run_state (GetCurrency sy) d = (Inr c, d') \<longleftrightarrow>
  \<not> fault (env d) (tick d) \<and> d' = bump d \<and> (\<exists>cs. currency_rows sy d = c # cs)"
  by (auto simp: GetCurrency_def inr_simps one_row_Inr)

lemma WalletAddress_found: "run_state (WalletAddress owner i) d = (Inr a, d') \<Longrightarrow>
  d' = bump d \<and> (\<exists>x \<in> set (wallets d). uuid_of (env d) i = Some (w_id x) \<and> w_owner x = owner)"
  by (auto simp: WalletAddress_def inr_simps stmt_simps select_where2 filter_eq_Cons_iff)

lemma currencySettingFor_ticks: "snd (run_state (currencySettingFor owner sy) d) = bump d"
  by (auto simp: currencySettingFor_def ListCurrencySettings_def run_simps split: sum.splits)

lemma resolve_pool_ticks: "run_state (resolve_pool owner cur p) w = (url, w') \<Longrightarrow> \<exists>n. w' = w\<lparr>wdb := (wdb w)\<lparr>tick := n\<rparr>\<rparr>"
proof (cases "TrimSpace p = []")
  case True
  assume "run_state (resolve_pool owner cur p) w = (url, w')"
  then have "w' = w\<lparr>wdb := bump (wdb w)\<rparr>"
    using True currencySettingFor_ticks [of owner "symbol cur" "wdb w"] by (auto simp: resolve_pool_def Let_def)
  then show ?thesis by blast
next
  case False
  assume "run_state (resolve_pool owner cur p) w = (url, w')"
  then have "w' = w\<lparr>wdb := (wdb w)\<lparr>tick := tick (wdb w)\<rparr>\<rparr>" using False by (simp add: resolve_pool_def)
  then show ?thesis by blast
qed

definition created_row :: "create_miner_params \<Rightarrow> db \<Rightarrow> miner_row \<Rightarrow> bool" where
  "created_row q d row \<longleftrightarrow> (\<exists>c cs. currency_rows (cm_currency q) d = c # cs \<and> m_currency row = cur_id c) \<and>
     m_owner row = cm_owner q \<and> m_name row = cm_name q \<and> m_engine row = cm_engine q \<and> m_pool row = cm_pool q \<and>
     m_cpu row = cm_cpu q \<and> m_gpu row = cm_gpu q \<and> m_status row = ''created'' \<and>
     (case cm_wallet q of None \<Rightarrow> m_wallet row = None | Some i \<Rightarrow> m_wallet row = uuid_of (env d) i)"

lemma insert_miner_row:
  assumes "insert_miner q d = Inr (i, d')"
  shows "\<exists>row. d' = d\<lparr>miners := miners d @ [row]\<rparr> \<and> created_row q d row"
proof -
  let ?row = "\<lambda>c wid. \<lparr>m_id = i, m_owner = cm_owner q, m_name = cm_name q,
        m_currency = cur_id c, m_wallet = wid, m_engine = cm_engine q, m_pool = cm_pool q,
        m_cpu = cm_cpu q, m_gpu = cm_gpu q, m_status = ''created'', m_created = db_now d, m_updated = db_now d\<rparr>"
  obtain wid c cs where "(case cm_wallet q of None \<Rightarrow> wid = None | Some i \<Rightarrow> wid = uuid_of (env d) i)"
    and c: "currency_rows (cm_currency q) d = c # cs"
    and d': "d' = d\<lparr>miners := miners d @ [?row c wid]\<rparr>"
    using assms by (auto simp: insert_miner_def stmt_simps split: option.splits)
  then have "created_row q d (?row c wid)" by (auto simp: created_row_def split: option.splits)
  with d' show ?thesis by blast
qed

lemma CreateMiner_row:
  assumes "run_state (CreateMiner q) d = (Inr m, d')"
  shows "\<exists>row n. d' = d\<lparr>miners := miners d @ [row], tick := n\<rparr> \<and> created_row q d row"
proof -
  obtain i d1 n where ins: "insert_miner q d = Inr (i, d1)" and d': "d' = d1\<lparr>tick := n\<rparr>"
    using assms by (auto simp: CreateMiner_def GetMiner_def inr_simps)
  from insert_miner_row [OF ins] show ?thesis unfolding d' by auto
qed

lemma wallet_checked_ticks:
  assumes "run_state (wallet_checked owner wid k) w = (Reply s a, w')"
  shows "\<exists>n. run_state k (w\<lparr>wdb := (wdb w)\<lparr>tick := n\<rparr>\<rparr>) = (Reply s a, w') \<and>
    (\<forall>i. wid = Some i \<longrightarrow> (\<exists>x \<in> set (wallets (wdb w)). uuid_of (env (wdb w)) i = Some (w_id x) \<and> w_owner x = owner))"
proof (cases wid)
  case None
  then show ?thesis using assms by (intro exI [of _ "tick (wdb w)"]) (simp add: reply_simps)
next
  case (Some i)
  then obtain x d where "run_state (WalletAddress owner i) (wdb w) = (Inr x, d)" "run_state k (w\<lparr>wdb := d\<rparr>) = (Reply s a, w')"
    using assms by (auto simp: reply_simps)
  then show ?thesis using WalletAddress_found [of owner i "wdb w"] Some by fastforce
qed

definition fits :: "api_env \<Rightarrow> string \<Rightarrow> world \<Rightarrow> miner_row \<Rightarrow> bool" where
  "fits E owner w row \<longleftrightarrow> m_owner row = owner \<and> m_name row \<noteq> [] \<and> length (m_name row) \<le> 80 \<and> m_status row = ''created'' \<and>
     1 \<le> m_cpu row \<and> m_cpu row \<le> 100 \<and> 0 \<le> m_gpu row \<and> m_gpu row \<le> 100 \<and>
     (m_engine row = ''adapter'' \<or> m_engine row = ''simulated'' \<and> cf_allow_simulated (ae_cfg E)) \<and>
     (\<exists>n. validatePoolURL (ae_ip6 E) (ae_lookup E n) (m_pool row) = None) \<and>
     (\<exists>c \<in> set (currencies (wdb w)). m_currency row = cur_id c \<and> enabled c \<and> engine_strategy c \<noteq> ''deferred'') \<and>
     (case m_wallet row of None \<Rightarrow> True | Some i \<Rightarrow> \<exists>x \<in> set (wallets (wdb w)). w_id x = i \<and> w_owner x = owner)"

text \<open>What a request has passed when its miner is inserted.\<close>

definition admitted :: "api_env \<Rightarrow> string \<Rightarrow> world \<Rightarrow> create_miner_params \<Rightarrow> bool" where
  "admitted E owner w q \<longleftrightarrow> cm_owner q = owner \<and> cm_name q \<noteq> [] \<and> length (cm_name q) \<le> 80 \<and>
     1 \<le> cm_cpu q \<and> cm_cpu q \<le> 100 \<and> 0 \<le> cm_gpu q \<and> cm_gpu q \<le> 100 \<and>
     (cm_engine q = ''adapter'' \<or> cm_engine q = ''simulated'' \<and> cf_allow_simulated (ae_cfg E)) \<and>
     (\<exists>n. validatePoolURL (ae_ip6 E) (ae_lookup E n) (cm_pool q) = None) \<and>
     (\<exists>c cs. currency_rows (cm_currency q) (wdb w) = c # cs \<and> enabled c \<and> engine_strategy c \<noteq> ''deferred'') \<and>
     (\<forall>i. cm_wallet q = Some i \<longrightarrow> (\<exists>x \<in> set (wallets (wdb w)). uuid_of (env (wdb w)) i = Some (w_id x) \<and> w_owner x = owner))"

lemma engine_choice_Reply [reply_simps]: "run_state (case r of Inl code \<Rightarrow> ret (Err 400 code) | Inr e \<Rightarrow> k e) w = (Reply s a, w') \<longleftrightarrow>
  (\<exists>e. r = Inr e \<and> run_state (k e) w = (Reply s a, w'))"
  by (cases r) auto

lemma bind_Reply: "run_state (Monad_Syntax.bind m k) w = (Reply s a, w') \<longleftrightarrow>
  (\<exists>x w1. run_state m w = (x, w1) \<and> run_state (k x) w1 = (Reply s a, w'))"
  by (cases "run_state m w") auto

lemma handleCreateMiner_admits:
  assumes "run_state (handleCreateMiner E owner body) w = (Reply st m, w')"
  shows "\<exists>q n. admitted E owner w q \<and> run_state (stored [] (CreateMiner q) (\<lambda>m. ret (Reply 201 m)))
    (w\<lparr>wdb := (wdb w)\<lparr>tick := n\<rparr>\<rparr>) = (Reply st m, w')"
proof -
  obtain req where "body = Some req" using assms by (auto simp: handleCreateMiner_def reply_simps)
  let ?sy = "ToUpper (ae_upper E) (TrimSpace (mr_currency req))"
  let ?cpu = "if mr_cpu req = 0 then 50 else mr_cpu req" and ?name = "TrimSpace (mr_name req)"
  let ?q = "\<lambda>cur eng url. \<lparr>cm_owner = owner, cm_name = ?name, cm_currency = symbol cur, cm_wallet = mr_wallet req,
      cm_engine = eng, cm_pool = url, cm_cpu = ?cpu, cm_gpu = mr_gpu req\<rparr>"
  let ?ok = "1 \<le> ?cpu \<and> ?cpu \<le> 100 \<and> 0 \<le> mr_gpu req \<and> mr_gpu req \<le> 100"
  let ?create = "\<lambda>cur eng url. stored [] (CreateMiner (?q cur eng url)) (\<lambda>m. ret (Reply 201 m))"
  obtain cur cs eng url w2 where name: "?name \<noteq> []" "length ?name \<le> 80"
    and cur: "currency_rows ?sy (wdb w) = cur # cs" "enabled cur" "engine_strategy cur \<noteq> ''deferred''"
    and eng: "resolve_engine (ae_cfg E) (mr_engine req) = Inr eng"
    and pool: "run_state (resolve_pool owner cur (mr_pool req)) (w\<lparr>wdb := bump (wdb w)\<rparr>) = (url, w2)"
      "validatePoolURL (ae_ip6 E) (ae_lookup E (tick (wdb w2))) url = None"
    and wal: "run_state (wallet_checked owner (mr_wallet req) (guard ?ok (Err 400 ''bad_request'') (?create cur eng url))) w2
      = (Reply st m, w')"
    using assms unfolding \<open>body = Some req\<close> handleCreateMiner_def Let_def
      decoded_Reply guard_Reply lookup_Reply engine_choice_Reply bind_Reply pool_checked_Reply GetCurrency_found by blast
  obtain n2 where w2: "w2 = w\<lparr>wdb := (wdb w)\<lparr>tick := n2\<rparr>\<rparr>" using resolve_pool_ticks [OF pool(1)] by auto
  from wallet_checked_ticks [OF wal] obtain n where n: "?ok"
      "run_state (?create cur eng url) (w\<lparr>wdb := (wdb w)\<lparr>tick := n\<rparr>\<rparr>) = (Reply st m, w')"
      "\<forall>i. mr_wallet req = Some i \<longrightarrow> (\<exists>x \<in> set (wallets (wdb w)). uuid_of (env (wdb w)) i = Some (w_id x) \<and> w_owner x = owner)"
    by (auto simp: guard_Reply w2)
  have "eng = ''adapter'' \<or> eng = ''simulated'' \<and> cf_allow_simulated (ae_cfg E)"
    using eng by (auto simp: resolve_engine_def split: if_splits)
  moreover have "symbol cur = ?sy" using cur(1) by (auto simp: currency_rows_def filter_eq_Cons_iff)
  ultimately have "admitted E owner w (?q cur eng url)"
    using name cur n(1,3) pool(2) by (auto simp: admitted_def)
  with n(2) show ?thesis by blast
qed

lemma admitted_fits:
  assumes "created_row q ((wdb w)\<lparr>tick := n\<rparr>) row" "admitted E owner w q"
  shows "fits E owner w row"
proof -
  have "\<exists>c \<in> set (currencies (wdb w)). m_currency row = cur_id c \<and> enabled c \<and> engine_strategy c \<noteq> ''deferred''"
  proof -
    have same: "currency_rows sy ((wdb w)\<lparr>tick := n\<rparr>) = currency_rows sy (wdb w)" for sy by (simp add: currency_rows_def)
    obtain c cs where "currency_rows (cm_currency q) (wdb w) = c # cs" "enabled c \<and> engine_strategy c \<noteq> ''deferred''"
      using assms(2) by (auto simp: admitted_def)
    moreover from this(1) have "m_currency row = cur_id c" using assms(1) unfolding created_row_def same by auto
    ultimately show ?thesis by (auto simp: currency_rows_def filter_eq_Cons_iff)
  qed
  moreover have "case m_wallet row of None \<Rightarrow> True | Some i \<Rightarrow> \<exists>x \<in> set (wallets (wdb w)). w_id x = i \<and> w_owner x = owner"
    using assms by (cases "cm_wallet q") (auto simp: created_row_def admitted_def)
  ultimately show ?thesis
    using assms unfolding fits_def created_row_def admitted_def by auto
qed

text \<open>
  C33. A miner is created only as it may be: it belongs to the tenant, has a name of at most 80 bytes, shares in
  range, an engine that the server allows, a pool that passed the guard, a currency that is enabled and not
  deferred, and a wallet of the tenant or none; and nothing else of the database changes.
\<close>

theorem handleCreateMiner_creates:
  assumes "run_state (handleCreateMiner E owner body) w = (Reply st m, w')"
  shows "st = 201 \<and> (\<exists>row n. w' = w\<lparr>wdb := (wdb w)\<lparr>miners := miners (wdb w) @ [row], tick := n\<rparr>\<rparr> \<and> fits E owner w row)"
proof -
  obtain q n where adm: "admitted E owner w q" and run: "run_state (stored [] (CreateMiner q) (\<lambda>m. ret (Reply 201 m)))
      (w\<lparr>wdb := (wdb w)\<lparr>tick := n\<rparr>\<rparr>) = (Reply st m, w')"
    using handleCreateMiner_admits [OF assms] by blast
  then obtain d where "run_state (CreateMiner q) ((wdb w)\<lparr>tick := n\<rparr>) = (Inr m, d)" "st = 201" "w' = w\<lparr>wdb := d\<rparr>"
    by (auto simp: reply_simps)
  with CreateMiner_row obtain row k where "w' = w\<lparr>wdb := (wdb w)\<lparr>miners := miners (wdb w) @ [row], tick := k\<rparr>\<rparr>"
      "created_row q ((wdb w)\<lparr>tick := n\<rparr>) row" by fastforce
  moreover from this adm have "fits E owner w row" by (intro admitted_fits)
  ultimately show ?thesis using \<open>st = 201\<close> by blast
qed

definition api_cfg :: config where
  "api_cfg = \<lparr>cf_listen = '':8080'', cf_database_url = [], cf_public_url = ''https://mm.example'', cf_issuer = ''https://kc'',
     cf_jwks_url = [], cf_allow_simulated = False, cf_allowed_origins = [], cf_poll_interval = 0,
     cf_retention_interval = 0, cf_exchange_salt = ''salt'', cf_seed_test_data = False, cf_version = ''1''\<rparr>"

definition demo_api :: api_env where
  "demo_api = \<lparr>ae_cfg = api_cfg, ae_rt = sample_rt, ae_upper = id, ae_lower = id, ae_ip6 = (\<lambda>_. False),
     ae_lookup = (\<lambda>_. demo_dns), ae_time = (\<lambda>_. None)\<rparr>"

definition demo_miner_req :: miner_req where
  "demo_miner_req = \<lparr>mr_name = ''rig'', mr_currency = ''XMR'', mr_wallet = None,
     mr_pool = ''stratum+tcp://pool.example:3333'', mr_engine = [], mr_cpu = 0, mr_gpu = 0\<rparr>"

lemma trim_demo: "TrimSpace ''rig'' = ''rig''" "ToUpper id (TrimSpace ''XMR'') = ''XMR''"
  "TrimSpace ''stratum+tcp://pool.example:3333'' = ''stratum+tcp://pool.example:3333''"
  by (subst TrimSpace_printable, code_simp, code_simp?)+

lemma demo_db:
  "currency_rows ''XMR'' (wdb hub_world) = [coin ''c1'' ''XMR'']" "fault (env (wdb hub_world)) n = False"
  "enabled (coin ''c1'' ''XMR'')" "engine_strategy (coin ''c1'' ''XMR'') = ''adapter''" "symbol (coin ''c1'' ''XMR'') = ''XMR''"
  by (simp_all add: currency_rows_def hub_data)

lemma demo_insert: "\<exists>m d. run_state (CreateMiner \<lparr>cm_owner = ''a'', cm_name = ''rig'', cm_currency = ''XMR'', cm_wallet = None,
    cm_engine = ''adapter'', cm_pool = p, cm_cpu = 50, cm_gpu = 0\<rparr>) (bump (wdb hub_world)) = (Inr m, d)"
  by (simp add: CreateMiner_def GetMiner_def insert_miner_def run_simps stmt_simps currency_rows_def
    miner_rows_def pct_ok_def int4_def with_new_id_def with_uuid_opt_def with_uuid_def require_def chain_def one_row_def wallet_ref_ok_def hub_data new_uuid_def)

lemma demo_create: "\<exists>m w'. run_state (handleCreateMiner demo_api ''a'' (Some demo_miner_req)) hub_world = (Reply 201 m, w')"
proof -
  obtain m d where ins: "run_state (CreateMiner \<lparr>cm_owner = ''a'', cm_name = ''rig'', cm_currency = ''XMR'', cm_wallet = None,
      cm_engine = ''adapter'', cm_pool = ''stratum+tcp://pool.example:3333'', cm_cpu = 50, cm_gpu = 0\<rparr>) (bump (wdb hub_world)) = (Inr m, d)"
    using demo_insert by blast
  have cur: "run_state (GetCurrency ''XMR'') (wdb hub_world) = (Inr (coin ''c1'' ''XMR''), bump (wdb hub_world))"
    by (simp add: GetCurrency_found demo_db)
  show ?thesis
    by (simp add: handleCreateMiner_def demo_miner_req_def decoded_def guard_def trim_demo demo_api_def lookup_or_def cur
      demo_db Let_def resolve_engine_def resolve_pool_def pool_checked_def demo_pool_ok wallet_checked_def stored_def ins)
qed

theorem handleCreateMiner_creates_witness:
  "\<exists>row. miners (wdb (snd (run_state (handleCreateMiner demo_api ''a'' (Some demo_miner_req)) hub_world))) =
     miners (wdb hub_world) @ [row] \<and> fits demo_api ''a'' hub_world row"
proof -
  obtain m w' where run: "run_state (handleCreateMiner demo_api ''a'' (Some demo_miner_req)) hub_world = (Reply 201 m, w')"
    using demo_create by blast
  from handleCreateMiner_creates [OF run] show ?thesis unfolding run by auto
qed

subsection \<open>Deleting the miner of another tenant\<close>

lemma drop_miners_none: "filter p (miners d) = [] \<Longrightarrow> drop_miners p d = d"
  by (simp add: drop_miners_def filter_empty_conv upd_where_def)

lemma DeleteMiner_foreign:
  assumes "distinct (map m_id (miners d))" "m \<in> set (miners d)" "m_owner m \<noteq> owner" "uuid_of (env d) i = Some (m_id m)" "\<forall>n. \<not> fault (env d) n"
  shows "run_state (DeleteMiner owner i) d = (Inl ErrNotFound, bump d)"
proof -
  have "filter (\<lambda>x. m_id x = m_id m \<and> m_owner x = owner) (miners d) = []"
    using assms(2,3) distinct_map_eqD [OF assms(1)] by (auto simp: filter_empty_conv)
  then show ?thesis
    using assms(4,5) by (simp add: DeleteMiner_def affected_def run_simps with_uuid_def Let_def drop_miners_none)
qed

text \<open>
  C34. The owner is checked too late: when a tenant asks to delete a running miner of somebody else, the answer
  is 404 and the miner stays, but its jobs have been ended and its run has been closed.
\<close>

theorem delete_foreign_miner:
  assumes "calm (wdb w)" and "db_ok (wdb w)" and "m \<in> set (miners (wdb w))" and "m_owner m \<noteq> owner"
    and "uuid_of (env (wdb w)) i = Some (m_id m)"
    and "\<exists>j \<in> set (jobs (wdb w)). j_miner j = m_id m \<and> j_ended j = None"
    and "run_state (handleDeleteMiner owner i) w = (r, w')"
  shows "r = Err 404 ''not_found'' \<and> miners (wdb w') = miners (wdb w) \<and>
    (\<forall>j \<in> set (jobs (wdb w')). j_miner j = m_id m \<longrightarrow> j_ended j \<noteq> None) \<and>
    (\<forall>x \<in> set (runs (wdb w')). r_miner x = m_id m \<longrightarrow> r_stopped x \<noteq> None)"
proof -
  obtain x v where v: "run_state (CancelMiner i ''user'') w = (x, v)" by (rule that [OF prod.collapse [symmetric]])
  note ended = CancelMiner_effect [OF assms(1,2,5) v]
  have frame: "only {Jobs, Runs} (wdb w) (wdb v)"
    using relatesD [OF CancelMiner_frame, of w i "''user''"] v by (simp add: jobs_runs_only_def)
  have "run_state (DeleteMiner owner i) (wdb v) = (Inl ErrNotFound, bump (wdb v))"
    using frame assms(1,3-5) db_ok_keys(5) [OF assms(2)] by (intro DeleteMiner_foreign [where m = m]) (auto simp: only_def calm_def)
  then have "r = Err 404 ''not_found''" "wdb w' = bump (wdb v)"
    using assms(7) v by (auto simp: handleDeleteMiner_def stored_def storeErr_def)
  then show ?thesis using ended frame assms(6) by (auto simp: only_def)
qed

lemma hub_row_m: "sample_miner ''m'' ''a'' ''running'' \<in> set (miners (wdb hub_world))"
  "m_owner (sample_miner ''m'' ''a'' ''running'') \<noteq> ''b''"
  "uuid_of (env (wdb hub_world)) ''m'' = Some (m_id (sample_miner ''m'' ''a'' ''running''))"
  "\<exists>j \<in> set (jobs (wdb hub_world)). j_miner j = m_id (sample_miner ''m'' ''a'' ''running'') \<and> j_ended j = None"
  "db_ok (wdb hub_world)"
  using hub_db_ok(1) by (simp_all add: hub_world_def) (simp_all add: hub_data)

theorem delete_foreign_miner_witness:
  "fst (run_state (handleDeleteMiner ''b'' ''m'') hub_world) = Err 404 ''not_found'' \<and>
   filter (\<lambda>j. j_miner j = ''m'' \<and> j_ended j = None) (jobs (wdb (snd (run_state (handleDeleteMiner ''b'' ''m'') hub_world)))) = []"
  using delete_foreign_miner [OF hub_world_calm hub_row_m(5,1-4) prod.collapse [symmetric]]
  by (auto simp: filter_empty_conv sample_miner_def)

subsection \<open>Pages\<close>

lemma pagination_bounds: "pagination lq oq = (lm, ofs) \<Longrightarrow> 1 \<le> lm \<and> lm \<le> 200 \<and> 0 \<le> ofs"
  by (auto simp: pagination_def Let_def split: if_splits)

lemma ListPayouts_page:
  assumes "\<forall>n. \<not> fault (env d) n" "0 \<le> lm" "0 \<le> ofs"
  shows "run_state (ListPayouts owner cur lm ofs) d =
    (Inr (take (nat lm) (drop (nat ofs) (order_by (bump d) (\<lambda>p. - pt_detected p) (payout_hits owner cur d))), length (payout_hits owner cur d)),
     bump (bump d))"
proof -
  have "payout_hits owner cur (bump d) = payout_hits owner cur d" by (simp add: payout_hits_def)
  then show ?thesis using assms by (simp add: ListPayouts_def run_simps limit_offset_def)
qed

text \<open>
  Whatever the query says, also with numbers that overflow, are negative or are no numbers, a page of payouts
  has at most 200 entries, all of them the tenant's, the total counts all of the tenant's, and nothing is left out
  when the total fits into a page at offset 0.
\<close>

theorem handleListPayouts_page:
  assumes "\<forall>n. \<not> fault (env (wdb w)) n" and "pagination lq oq = (lm, ofs)"
    and "hits = payout_hits owner (ToUpper (ae_upper E) (TrimSpace cq)) (wdb w)"
  shows "\<exists>items. run_state (handleListPayouts E owner lq oq cq) w = (Reply 200 (items, length hits), w\<lparr>wdb := bump (bump (wdb w))\<rparr>) \<and>
    length items \<le> 200 \<and> set items \<subseteq> set hits \<and> sorted (map (\<lambda>p. - pt_detected p) items) \<and>
    int (length items) = max 0 (min lm (int (length hits) - ofs)) \<and>
    (ofs = 0 \<longrightarrow> length hits \<le> nat lm \<longrightarrow> mset items = mset hits)"
proof -
  let ?page = "take (nat lm) (drop (nat ofs) (order_by (bump (wdb w)) (\<lambda>p. - pt_detected p) hits))"
  have b: "1 \<le> lm" "lm \<le> 200" "0 \<le> ofs" using pagination_bounds [OF assms(2)] by blast+
  have len: "length (order_by (bump (wdb w)) (\<lambda>p. - pt_detected p) hits) = length hits"
    by (metis mset_order_by size_mset)
  have "run_state (handleListPayouts E owner lq oq cq) w = (Reply 200 (?page, length hits), w\<lparr>wdb := bump (bump (wdb w))\<rparr>)"
    using ListPayouts_page [OF assms(1), of lm ofs] b unfolding assms(3)
    by (simp add: handleListPayouts_def assms(2) stored_def)
  moreover have "set ?page \<subseteq> set hits"
    using set_take_subset set_drop_subset by (metis set_order_by subset_trans)
  moreover have "sorted (map (\<lambda>p. - pt_detected p) ?page)"
    unfolding take_map [symmetric] drop_map [symmetric] by (intro sorted_wrt_take sorted_wrt_drop sorted_order_by)
  moreover have "length ?page \<le> 200" "int (length ?page) = max 0 (min lm (int (length hits) - ofs))"
    using b by (auto simp: len)
  moreover have "ofs = 0 \<longrightarrow> length hits \<le> nat lm \<longrightarrow> mset ?page = mset hits" by (simp add: len)
  ultimately show ?thesis by blast
qed

definition sample_payout :: "string \<Rightarrow> string \<Rightarrow> int \<Rightarrow> payout_row" where
  "sample_payout i owner t = \<lparr>p_id = i, p_owner = owner, p_currency = ''c1'', p_wallet = None, p_amount = 1, p_txid = None,
     p_url = None, p_pool = None, p_verified = False, p_paid = None, p_detected = t, p_raw = JNull\<rparr>"

definition paid_world :: world where
  "paid_world = hub_world\<lparr>wdb := hub_db\<lparr>payouts := [sample_payout ''p'' ''a'' 1, sample_payout ''q'' ''a'' 2, sample_payout ''r'' ''b'' 3]\<rparr>\<rparr>"

theorem handleListPayouts_page_witness:
  "\<exists>p. fst (run_state (handleListPayouts demo_api ''a'' ''1'' ''-5'' []) paid_world) = Reply 200 ([p], 2)"
proof -
  have q: "pagination ''1'' ''-5'' = (1, 0)" by code_simp
  have nf: "\<forall>n. \<not> fault (env (wdb paid_world)) n" by (simp add: paid_world_def hub_data)
  have hits: "length (payout_hits ''a'' [] (wdb paid_world)) = 2"
    by (simp add: payout_hits_def paid_world_def sample_payout_def hub_data)
  have cur: "ToUpper (ae_upper demo_api) (TrimSpace []) = []" by (simp add: TrimSpace_printable ToUpper_def is_ascii_def)
  from handleListPayouts_page [OF nf q refl, where owner = "''a''" and E = demo_api and cq = "[]"] obtain items where
    items: "run_state (handleListPayouts demo_api ''a'' ''1'' ''-5'' []) paid_world = (Reply 200 (items, 2), paid_world\<lparr>wdb := bump (bump (wdb paid_world))\<rparr>)"
      "int (length items) = 1"
    unfolding cur hits by auto
  from items(2) obtain p where "items = [p]" by (cases items) auto
  with items(1) show ?thesis by auto
qed

end
