(* ===== verification/Payouts.thy ===== *)
theory Payouts
  imports Hub
begin

text \<open>
  The payout observer (\<open>internal/payouts/poller.go\<close>): it asks the pools' interfaces for payments to the
  wallets, and records those that are new. The outside is the record \<open>payout_env\<close>: the HTTP answers (by
  the number of the statement, so that they may differ), the parser of JSON texts, \<open>Sscanf("%g")\<close> and the
  parser of RFC 3339 times. A nil raw response is stored as \<open>JNull\<close>.
\<close>

record payout_env =
  pe_fetch :: "nat \<Rightarrow> string \<Rightarrow> (int \<times> string) option"
  pe_json :: "string \<Rightarrow> json option"
  pe_scan :: "string \<Rightarrow> rat option"
  pe_time :: "string \<Rightarrow> int option"

record pool_api =
  pa_owner :: string
  pa_symbol :: string
  pa_address :: string
  pa_tx_tpl :: string
  pa_pool_name :: string
  pa_url :: string

record payment =
  pm_txid :: string
  pm_amount :: rat
  pm_paid :: "int option"

subsection \<open>Reading a pool's answer\<close>

text \<open>A key of a decoded object: the last one with that name.\<close>

definition get_key :: "string \<Rightarrow> (string \<times> json) list \<Rightarrow> json option" where
  "get_key k kvs = map_of (rev kvs) k"

fun first_text :: "string list \<Rightarrow> (string \<times> json) list \<Rightarrow> string" where
  "first_text [] kvs = []"
| "first_text (k # ks) kvs = (case get_key k kvs of
     Some (JStr s) \<Rightarrow> if s \<noteq> [] then s else first_text ks kvs | _ \<Rightarrow> first_text ks kvs)"

definition amount_step :: "payout_env \<Rightarrow> (string \<times> json) list \<Rightarrow> string \<Rightarrow> rat \<Rightarrow> rat" where
  "amount_step E kvs k a = (case get_key k kvs of
     Some (JNum v) \<Rightarrow> v | Some (JStr s) \<Rightarrow> (case pe_scan E s of Some f \<Rightarrow> f | None \<Rightarrow> a) | _ \<Rightarrow> a)"

text \<open>\<open>int64(v)\<close> truncates.\<close>

definition go_trunc :: "rat \<Rightarrow> int" where
  "go_trunc v = (if v < 0 then \<lceil>v\<rceil> else \<lfloor>v\<rfloor>)"

definition paid_step :: "payout_env \<Rightarrow> (string \<times> json) list \<Rightarrow> string \<Rightarrow> int option \<Rightarrow> int option" where
  "paid_step E kvs k t = (case get_key k kvs of
     Some (JNum v) \<Rightarrow> Some (go_trunc v * second)
   | Some (JStr s) \<Rightarrow> (case pe_time E s of Some x \<Rightarrow> Some x | None \<Rightarrow> t) | _ \<Rightarrow> t)"

definition read_payment :: "payout_env \<Rightarrow> (string \<times> json) list \<Rightarrow> payment" where
  "read_payment E kvs =
     \<lparr>pm_txid = first_text [''tx'', ''txid'', ''tx_hash'', ''txHash'', ''hash''] kvs,
      pm_amount = fold (amount_step E kvs) [''amount'', ''value''] 0,
      pm_paid = fold (paid_step E kvs) [''timestamp'', ''time'', ''date'', ''created_at''] None\<rparr>"

fun first_array :: "string list \<Rightarrow> (string \<times> json) list \<Rightarrow> json list" where
  "first_array [] kvs = []"
| "first_array (k # ks) kvs = (case get_key k kvs of Some (JArr xs) \<Rightarrow> xs | _ \<Rightarrow> first_array ks kvs)"

definition extractPayments :: "payout_env \<Rightarrow> string \<Rightarrow> payment list" where
  "extractPayments E body = (case pe_json E body of
     Some (JObj kvs) \<Rightarrow> concat (map (\<lambda>x. case x of JObj m \<Rightarrow> [read_payment E m] | _ \<Rightarrow> []) (first_array [''payments'', ''Payments''] kvs))
   | _ \<Rightarrow> [])"

subsection \<open>Recording\<close>

definition explorer_url :: "string \<Rightarrow> string \<Rightarrow> string" where
  "explorer_url tpl txid = (if txid \<noteq> [] \<and> contains ''{txid}'' tpl then replace_all ''{txid}'' txid tpl else [])"

definition record_payment :: "payout_env \<Rightarrow> pool_api \<Rightarrow> string \<Rightarrow> payment \<Rightarrow> (world, unit) state" where
  "record_payment E q body pay = (if pm_amount pay \<le> 0 then ret ()
     else do {
       let url = explorer_url (pa_tx_tpl q) (pm_txid pay);
       let raw = (if length body > 16384 then JNull else case pe_json E body of Some j \<Rightarrow> j | None \<Rightarrow> JNull);
       r \<leftarrow> on_db (InsertPayout (pa_owner q) (pa_symbol q) (pa_address q) (pm_amount pay) (pm_txid pay) url
              (pa_pool_name q) (pm_paid pay) raw);
       case r of
         Inl _ \<Rightarrow> ret ()
       | Inr inserted \<Rightarrow> if inserted then publish (pa_owner q) ''payout_detected''
             [(''currency'', EStr (pa_symbol q)), (''amount'', ENum (pm_amount pay)), (''txid'', EStr (pm_txid pay)),
              (''explorer_url'', EStr url), (''verified'', EBool (url \<noteq> []))]
           else ret ()
     })"

definition check_pool :: "payout_env \<Rightarrow> pool_api \<Rightarrow> (world, unit) state" where
  "check_pool E q = do {
     n \<leftarrow> gets (\<lambda>w. tick (wdb w));
     case pe_fetch E n (pa_url q) of
       None \<Rightarrow> ret ()
     | Some (status, full) \<Rightarrow>
         if status \<noteq> 200 then ret ()
         else let body = take (4 * 2 ^ 20) full in each (extractPayments E body) (record_payment E q body)
   }"

text \<open>
  The pools of a currency, decoded into structs with \<open>name\<close>, \<open>url\<close> and \<open>api_tpl\<close>: keys are compared
  without case, \<open>null\<close> leaves a field alone, anything else than a text is an error of the whole.
\<close>

fun pool_fields :: "(string \<times> json) list \<Rightarrow> string \<times> string \<Rightarrow> (string \<times> string) option" where
  "pool_fields [] acc = Some acc"
| "pool_fields ((k, v) # kvs) (nm, tpl) = (let key = map lower_char k in
     if key \<notin> {''name'', ''url'', ''api_tpl''} then pool_fields kvs (nm, tpl)
     else case v of
       JNull \<Rightarrow> pool_fields kvs (nm, tpl)
     | JStr s \<Rightarrow> pool_fields kvs (if key = ''name'' then (s, tpl) else if key = ''api_tpl'' then (nm, s) else (nm, tpl))
     | _ \<Rightarrow> None)"

fun pool_entries :: "json list \<Rightarrow> (string \<times> string) list option" where
  "pool_entries [] = Some []"
| "pool_entries (x # xs) = (case (case x of JObj kvs \<Rightarrow> pool_fields kvs ([], []) | JNull \<Rightarrow> Some ([], []) | _ \<Rightarrow> None) of
     None \<Rightarrow> None
   | Some p \<Rightarrow> map_option ((#) p) (pool_entries xs))"

definition poll_pools :: "json \<Rightarrow> (string \<times> string) list option" where
  "poll_pools j = (case j of JArr xs \<Rightarrow> pool_entries xs | JNull \<Rightarrow> Some [] | _ \<Rightarrow> None)"

definition poll_row :: "payout_env \<Rightarrow> pool_wallet \<Rightarrow> (world, unit) state" where
  "poll_row E r = (case poll_pools (pw_pools r) of
     None \<Rightarrow> ret ()
   | Some ps \<Rightarrow> each ps (\<lambda>(nm, tpl).
       if tpl = [] \<or> \<not> contains ''{address}'' tpl then ret ()
       else check_pool E \<lparr>pa_owner = pw_owner r, pa_symbol = pw_symbol r, pa_address = pw_address r,
              pa_tx_tpl = pw_tx_tpl r, pa_pool_name = nm, pa_url = replace_all ''{address}'' (pw_address r) tpl\<rparr>))"

definition poll_once :: "payout_env \<Rightarrow> (world, unit) state" where
  "poll_once E = do {
     r \<leftarrow> on_db WalletsWithPoolAPI;
     case r of Inl _ \<Rightarrow> ret () | Inr rows \<Rightarrow> each rows (poll_row E)
   }"

text \<open>\<open>Run\<close> for \<open>n\<close> ticks; \<open>None\<close> is the panic of \<open>time.NewTicker\<close>.\<close>

fun poll_ticks :: "payout_env \<Rightarrow> nat \<Rightarrow> (world, unit) state" where
  "poll_ticks E 0 = ret ()"
| "poll_ticks E (Suc n) = do { poll_once E; poll_ticks E n }"

definition Poller_Run :: "payout_env \<Rightarrow> int \<Rightarrow> nat \<Rightarrow> (world, unit) state option" where
  "Poller_Run E interval n = (if interval \<le> 0 then None else Some (poll_ticks E n))"

end
