(* ===== verification/PayoutProps.thy ===== *)
theory PayoutProps
  imports Payouts HubSamples
begin

text \<open>
  What a round of the payout observer does: it appends payouts that a pool reported, for owners of
  wallets, and changes nothing else of the database, the hub or the connections.
\<close>

definition seen :: "payout_env \<Rightarrow> string set \<Rightarrow> payout_row \<Rightarrow> bool" where
  "seen E ow p \<longleftrightarrow> p_amount p > 0 \<and> \<not> p_verified p \<and> p_owner p \<in> ow \<and>
     (\<exists>n url body pay. pe_fetch E n url = Some (200, body) \<and> pay \<in> set (extractPayments E (take (4 * 2 ^ 20) body)) \<and>
        p_amount p = pm_amount pay \<and> p_txid p = nullif_empty (pm_txid pay) \<and> p_paid p = pm_paid pay)"

definition observed :: "payout_env \<Rightarrow> string set \<Rightarrow> world \<Rightarrow> world \<Rightarrow> bool" where
  "observed E ow w w' \<longleftrightarrow> (\<exists>new k b. w' = w\<lparr>wdb := (wdb w)\<lparr>payouts := payouts (wdb w) @ new, tick := k\<rparr>, evb := b\<rparr> \<and>
     (\<forall>p \<in> set new. seen E ow p))"

lemma observed_refl: "reflp (observed E ow)"
proof (rule reflpI)
  fix w show "observed E ow w w"
    unfolding observed_def by (intro exI [of _ "[]"] exI [of _ "tick (wdb w)"] exI [of _ "evb w"]) simp
qed

lemma observed_trans: "transp (observed E ow)"
proof (rule transpI)
  fix u v w assume "observed E ow u v" "observed E ow v w"
  then obtain a k b a' k' b' where
    v: "v = u\<lparr>wdb := (wdb u)\<lparr>payouts := payouts (wdb u) @ a, tick := k\<rparr>, evb := b\<rparr>" "\<forall>p \<in> set a. seen E ow p" and
    w: "w = v\<lparr>wdb := (wdb v)\<lparr>payouts := payouts (wdb v) @ a', tick := k'\<rparr>, evb := b'\<rparr>" "\<forall>p \<in> set a'. seen E ow p"
    by (auto simp: observed_def)
  have "w = u\<lparr>wdb := (wdb u)\<lparr>payouts := payouts (wdb u) @ (a @ a'), tick := k'\<rparr>, evb := b'\<rparr>"
    unfolding w(1) by (simp add: v(1))
  moreover have "\<forall>p \<in> set (a @ a'). seen E ow p" using v(2) w(2) by auto
  ultimately show "observed E ow u w" unfolding observed_def by blast
qed

lemmas observed_intros = relates_intros observed_refl observed_trans

lemma insert_payout_appends:
  assumes "insert_payout owner sy addr amount txid url pool paid raw d = Inr (n, d')"
  shows "(n = 0 \<and> d' = d) \<or> (n = 1 \<and> (\<exists>p. d' = d\<lparr>payouts := payouts d @ [p]\<rparr> \<and> p_owner p = owner \<and> p_amount p = amount \<and>
    p_txid p = nullif_empty txid \<and> p_paid p = paid \<and> \<not> p_verified p))"
  using assms by (auto simp: insert_payout_def with_new_id_Inr Let_def split: list.splits if_splits)

lemma InsertPayout_appends:
  assumes "run_state (InsertPayout owner sy addr amount txid url pool paid raw) d = (r, d')"
  shows "\<exists>new k. d' = d\<lparr>payouts := payouts d @ new, tick := k\<rparr> \<and> (\<forall>p \<in> set new. p_owner p = owner \<and> p_amount p = amount \<and>
    p_txid p = nullif_empty txid \<and> p_paid p = paid \<and> \<not> p_verified p)"
proof (cases "fault (env d) (tick d)")
  case True
  then show ?thesis using assms by (intro exI [of _ "[]"] exI [of _ "Suc (tick d)"]) (auto simp: InsertPayout_def run_simps)
next
  case ok: False
  show ?thesis
  proof (cases "insert_payout owner sy addr amount txid url pool paid raw d")
    case (Inl e)
    then show ?thesis using assms ok by (intro exI [of _ "[]"] exI [of _ "Suc (tick d)"]) (auto simp: InsertPayout_def run_simps)
  next
    case (Inr nd)
    obtain n u where nd: "nd = (n, u)" by fastforce
    have d': "d' = bump u" using assms ok Inr nd by (auto simp: InsertPayout_def run_simps)
    from insert_payout_appends [OF Inr [unfolded nd]] show ?thesis
    proof (elim disjE conjE exE)
      assume "u = d"
      then show ?thesis using d' by (intro exI [of _ "[]"] exI [of _ "Suc (tick d)"]) simp
    next
      fix p assume "u = d\<lparr>payouts := payouts d @ [p]\<rparr>" "p_owner p = owner" "p_amount p = amount"
        "p_txid p = nullif_empty txid" "p_paid p = paid" "\<not> p_verified p"
      then show ?thesis using d' by (intro exI [of _ "[p]"] exI [of _ "Suc (tick d)"]) simp
    qed
  qed
qed

lemma record_payment_observed:
  assumes "pe_fetch E n url = Some (200, body)" and "pay \<in> set (extractPayments E (take (4 * 2 ^ 20) body))" and "pa_owner q \<in> ow"
  shows "relates (observed E ow) (record_payment E q b pay)"
proof (cases "pm_amount pay \<le> 0")
  case True
  then show ?thesis by (simp add: record_payment_def relates_return observed_refl)
next
  case False
  have "observed E ow w (w\<lparr>wdb := snd (run_state (InsertPayout (pa_owner q) sy addr (pm_amount pay) (pm_txid pay) u nm (pm_paid pay) raw) (wdb w)), evb := b'\<rparr>)"
    for w sy addr u nm raw b'
  proof -
    let ?m = "InsertPayout (pa_owner q) sy addr (pm_amount pay) (pm_txid pay) u nm (pm_paid pay) raw"
    obtain new k where d: "snd (run_state ?m (wdb w)) = (wdb w)\<lparr>payouts := payouts (wdb w) @ new, tick := k\<rparr>"
        and new: "\<forall>p \<in> set new. p_owner p = pa_owner q \<and> p_amount p = pm_amount pay \<and> p_txid p = nullif_empty (pm_txid pay) \<and>
          p_paid p = pm_paid pay \<and> \<not> p_verified p"
      using InsertPayout_appends [OF prod.collapse [symmetric]] by blast
    have "\<forall>p \<in> set new. seen E ow p"
      using new False assms unfolding seen_def by (metis linorder_not_le)
    then show ?thesis unfolding observed_def d by blast
  qed
  note step = this
  have "observed E ow w (w\<lparr>wdb := snd (run_state (InsertPayout (pa_owner q) sy addr (pm_amount pay) (pm_txid pay) u nm (pm_paid pay) raw) (wdb w))\<rparr>)"
    for w sy addr u nm raw
    using step [where b' = "evb w" and w = w] by simp
  with step show ?thesis
    by (intro relatesI) (simp add: record_payment_def False Let_def split: sum.splits prod.splits if_splits)
qed

lemma check_pool_observed: "pa_owner q \<in> ow \<Longrightarrow> relates (observed E ow) (check_pool E q)"
  unfolding check_pool_def Let_def
  by (intro observed_intros record_payment_observed) (auto split: prod.splits)

lemma poll_row_observed: "pw_owner r \<in> ow \<Longrightarrow> relates (observed E ow) (poll_row E r)"
  unfolding poll_row_def by (intro observed_intros check_pool_observed) auto

lemma WalletsWithPoolAPI_owners:
  "run_state WalletsWithPoolAPI d = (r, d') \<Longrightarrow> d' = bump d \<and> (\<forall>rows. r = Inr rows \<longrightarrow> pw_owner ` set rows \<subseteq> w_owner ` set (wallets d))"
  by (auto simp: WalletsWithPoolAPI_def run_simps split: if_splits)

text \<open>
  C36. Payouts are observed, never made: a round of the poller leaves every table but the payouts as it is, keeps
  every payout, and adds only unverified payouts of a positive amount, to owners of wallets, each as a pool
  reported it.
\<close>

theorem poll_once_observes:
  assumes "run_state (poll_once E) w = (x, w')"
  shows "\<exists>new k b. w' = w\<lparr>wdb := (wdb w)\<lparr>payouts := payouts (wdb w) @ new, tick := k\<rparr>, evb := b\<rparr> \<and>
    (\<forall>p \<in> set new. p_amount p > 0 \<and> \<not> p_verified p \<and> p_owner p \<in> w_owner ` set (wallets (wdb w)) \<and>
       (\<exists>n url body pay. pe_fetch E n url = Some (200, body) \<and> pay \<in> set (extractPayments E (take (4 * 2 ^ 20) body)) \<and>
          p_amount p = pm_amount pay \<and> p_txid p = nullif_empty (pm_txid pay) \<and> p_paid p = pm_paid pay))"
proof -
  let ?ow = "w_owner ` set (wallets (wdb w))"
  obtain r d where r: "run_state WalletsWithPoolAPI (wdb w) = (r, d)" by fastforce
  have d: "d = bump (wdb w)" and own: "\<And>rows. r = Inr rows \<Longrightarrow> pw_owner ` set rows \<subseteq> ?ow"
    using WalletsWithPoolAPI_owners [OF r] by blast+
  have tick: "observed E ?ow w (w\<lparr>wdb := bump (wdb w)\<rparr>)"
    unfolding observed_def by (intro exI [of _ "[]"] exI [of _ "Suc (tick (wdb w))"] exI [of _ "evb w"]) simp
  have "observed E ?ow w w'"
  proof (cases r)
    case (Inl e)
    then show ?thesis using assms tick by (simp add: poll_once_def r d)
  next
    case (Inr rows)
    have "relates (observed E ?ow) (each rows (poll_row E))"
      using own [OF Inr] by (intro observed_intros poll_row_observed) auto
    from relatesD [OF this, of "w\<lparr>wdb := bump (wdb w)\<rparr>"] have "observed E ?ow (w\<lparr>wdb := bump (wdb w)\<rparr>) w'"
      using assms by (simp add: poll_once_def r d Inr)
    with tick show ?thesis using transpD [OF observed_trans] by blast
  qed
  then show ?thesis by (simp only: observed_def seen_def)
qed

text \<open>A pool that reports one payment to the wallet of owner \<open>a\<close>, and one of nothing.\<close>

definition demo_pools :: payout_env where
  "demo_pools = \<lparr>pe_fetch = (\<lambda>n url. if url = ''p/4'' then Some (200, ''body'') else None),
     pe_json = (\<lambda>_. Some (JObj [(''payments'', JArr [JObj [(''tx'', JStr ''t''), (''amount'', JNum 2)], JObj [(''tx'', JStr ''s'')]])])),
     pe_scan = (\<lambda>_. None), pe_time = (\<lambda>_. None)\<rparr>"

definition demo_wallets :: world where
  "demo_wallets = hub_world\<lparr>wdb := sample_db\<lparr>
     currencies := [(coin ''c1'' ''XMR'')\<lparr>pools := JArr [JObj [(''api_tpl'', JStr ''p/{address}'')]]\<rparr>],
     wallets := [\<lparr>w_id = ''w'', w_owner = ''a'', w_currency = ''c1'', w_address = ''4'', w_label = None, w_validated = True, w_created = 0\<rparr>]\<rparr>\<rparr>"

lemma demo_row: "run_state WalletsWithPoolAPI (wdb demo_wallets) = (Inr [\<lparr>pw_owner = ''a'', pw_symbol = ''XMR'', pw_address = ''4'',
    pw_tx_tpl = ''t/{txid}'', pw_pools = JArr [JObj [(''api_tpl'', JStr ''p/{address}'')]]\<rparr>], bump (wdb demo_wallets))"
proof -
  have "like_api_tpl ''api_tpl''" by code_simp
  then show ?thesis by (simp add: WalletsWithPoolAPI_def run_simps demo_wallets_def hub_world_def sample_data)
qed

lemma demo_url: "contains ''{address}'' ''p/{address}''" "replace_all ''{address}'' ''4'' ''p/{address}'' = ''p/4''"
  "poll_pools (JArr [JObj [(''api_tpl'', JStr ''p/{address}'')]]) = Some [([], ''p/{address}'')]"
  by code_simp+

lemma demo_extract: "extractPayments demo_pools s = [\<lparr>pm_txid = ''t'', pm_amount = 2, pm_paid = None\<rparr>, \<lparr>pm_txid = ''s'', pm_amount = 0, pm_paid = None\<rparr>]"
  by (simp add: extractPayments_def demo_pools_def get_key_def read_payment_def amount_step_def paid_step_def)

lemma demo_inserted: "map (\<lambda>p. (p_amount p, p_txid p)) (payouts (snd (run_state (InsertPayout ''a'' ''XMR'' ''4'' 2 ''t'' u [] None raw)
    (bump (wdb demo_wallets))))) = [(2, Some ''t'')]"
  by (simp add: InsertPayout_def run_simps insert_payout_def currency_rows_def with_new_id_def nullif_empty_def
      demo_wallets_def hub_world_def sample_data new_uuid_def)

lemma demo_payouts:
  "map (\<lambda>p. (p_amount p, p_txid p)) (payouts (wdb (snd (run_state (poll_once demo_pools) demo_wallets)))) = [(2, Some ''t'')]"
proof -
  have fetch: "pe_fetch demo_pools n ''p/4'' = Some (200, ''body'')" for n by (simp add: demo_pools_def)
  show ?thesis
    by (simp add: poll_once_def demo_row poll_row_def demo_url check_pool_def fetch Let_def demo_extract record_payment_def
      publish_def demo_inserted split: prod.splits sum.splits)
qed

theorem poll_once_observes_witness:
  "\<exists>p. payouts (wdb (snd (run_state (poll_once demo_pools) demo_wallets))) = [p] \<and> p_txid p = Some ''t'' \<and> p_amount p = 2 \<and>
     p_owner p \<in> w_owner ` set (wallets (wdb demo_wallets)) \<and> \<not> p_verified p"
proof -
  obtain x w' where run: "run_state (poll_once demo_pools) demo_wallets = (x, w')"
    by (rule that [OF prod.collapse [symmetric]])
  have none: "payouts (wdb demo_wallets) = []" by (simp add: demo_wallets_def sample_db_def)
  obtain p where p: "payouts (wdb w') = [p]" "p_txid p = Some ''t''" "p_amount p = 2"
    using demo_payouts by (auto simp: run map_eq_Cons_conv)
  obtain new k b where w': "w' = demo_wallets\<lparr>wdb := (wdb demo_wallets)\<lparr>payouts := payouts (wdb demo_wallets) @ new, tick := k\<rparr>, evb := b\<rparr>"
    and new: "\<forall>p \<in> set new. p_amount p > 0 \<and> \<not> p_verified p \<and> p_owner p \<in> w_owner ` set (wallets (wdb demo_wallets)) \<and>
       (\<exists>n url body pay. pe_fetch demo_pools n url = Some (200, body) \<and> pay \<in> set (extractPayments demo_pools (take (4 * 2 ^ 20) body)) \<and>
          p_amount p = pm_amount pay \<and> p_txid p = nullif_empty (pm_txid pay) \<and> p_paid p = pm_paid pay)"
    using poll_once_observes [OF run] by blast
  have "payouts (wdb w') = new" using none unfolding w' by simp
  with p new run show ?thesis by auto
qed

end
