(* ===== verification/Stratum.thy ===== *)
theory Stratum
  imports Net Tables
begin

text \<open>
  The stratum client (\<open>internal/stratum/client.go\<close>): dialling, calls that wait for the response with their
  id, and the read loop that delivers responses and notifications.

  The state has the number of the last call, the calls that wait (\<open>pending\<close>), and for every call the
  contents of its channel, whose buffer holds one response. A send to a full channel would block the read
  loop for good: the model records it in \<open>blocked\<close>. A message is the JSON value that the decoder read;
  \<open>text\<close> gives the text of a value, as a raw message has it.
\<close>

subsection \<open>Dialling\<close>

fun strip_schemes :: "string list \<Rightarrow> string \<times> bool \<Rightarrow> string \<times> bool" where
  "strip_schemes [] st = st"
| "strip_schemes (p # ps) (u, tls) =
     strip_schemes ps (if has_prefix p u then (trim_prefix p u, p \<noteq> ''tcp://'') else (u, tls))"

text \<open>The address to dial and whether with TLS; \<open>None\<close> is the error for an empty address.\<close>

definition dial_target :: "string \<Rightarrow> (string \<times> bool) option" where
  "dial_target url = (case strip_schemes [''tcp://'', ''ssl://'', ''tls://''] (trim_prefix ''stratum+'' url, False) of
     (u, tls) \<Rightarrow> if u = [] then None else Some (u, tls))"

text \<open>The server name for TLS.\<close>

definition dialTLS_name :: "string \<Rightarrow> string" where
  "dialTLS_name addr = (case SplitHostPort addr of None \<Rightarrow> addr | Some (host, _) \<Rightarrow> host)"

subsection \<open>Messages\<close>

record stratum_job =
  sj_id :: string
  sj_prev :: string
  sj_extra1 :: string
  sj_extra2 :: string
  sj_version :: string
  sj_nbits :: string
  sj_ntime :: string
  sj_clean :: bool

record rpc_req =
  rq_id :: int
  rq_method :: string
  rq_params :: "string list"

record rpc_resp =
  rs_id :: int
  rs_result :: "json option"
  rs_error :: "json option"

text \<open>
  Decoding an object into a struct: keys are compared without case and the last one counts; \<open>null\<close> leaves
  the field as it was. A text field that is something else is an error of the whole.
\<close>

definition same_key :: "string \<Rightarrow> string \<times> json \<Rightarrow> bool" where
  "same_key key kv \<longleftrightarrow> map lower_char (fst kv) = key"

fun method_field :: "(string \<times> json) list \<Rightarrow> string \<Rightarrow> string option" where
  "method_field [] m = Some m"
| "method_field (kv # kvs) m = (if \<not> same_key ''method'' kv then method_field kvs m
     else case snd kv of JStr s \<Rightarrow> method_field kvs s | JNull \<Rightarrow> method_field kvs m | _ \<Rightarrow> None)"

text \<open>The id of a response is an \<open>int64\<close>.\<close>

fun id_field :: "(string \<times> json) list \<Rightarrow> int \<Rightarrow> int option" where
  "id_field [] i = Some i"
| "id_field (kv # kvs) i = (if \<not> same_key ''id'' kv then id_field kvs i
     else case snd kv of
       JNum q \<Rightarrow> if q = rat_of_int \<lfloor>q\<rfloor> \<and> - (2 ^ 63) \<le> \<lfloor>q\<rfloor> \<and> \<lfloor>q\<rfloor> < 2 ^ 63 then id_field kvs \<lfloor>q\<rfloor> else None
     | JNull \<Rightarrow> id_field kvs i
     | _ \<Rightarrow> None)"

definition any_field :: "string \<Rightarrow> (string \<times> json) list \<Rightarrow> json option" where
  "any_field key kvs = map_option snd (find (same_key key) (rev kvs))"

definition decode_resp :: "(string \<times> json) list \<Rightarrow> rpc_resp option" where
  "decode_resp kvs = (case id_field kvs 0 of None \<Rightarrow> None
     | Some i \<Rightarrow> Some \<lparr>rs_id = i, rs_result = any_field ''result'' kvs,
         rs_error = (case any_field ''error'' kvs of Some JNull \<Rightarrow> None | e \<Rightarrow> e)\<rparr>)"

definition rawStr :: "(json \<Rightarrow> string) \<Rightarrow> json \<Rightarrow> string" where
  "rawStr text m = (case m of JStr s \<Rightarrow> s | JNull \<Rightarrow> [] | JBool b \<Rightarrow> if b then ''true'' else ''false'' | _ \<Rightarrow> text m)"

definition notify_job :: "(json \<Rightarrow> string) \<Rightarrow> json list \<Rightarrow> stratum_job option" where
  "notify_job text p = (if length p < 9 then None
     else Some \<lparr>sj_id = rawStr text (p ! 0), sj_prev = rawStr text (p ! 1), sj_extra1 = rawStr text (p ! 2),
       sj_extra2 = rawStr text (p ! 3), sj_version = rawStr text (p ! 5), sj_nbits = rawStr text (p ! 6),
       sj_ntime = rawStr text (p ! 7), sj_clean = (rawStr text (p ! 8) = ''true'')\<rparr>)"

fun float_list :: "json list \<Rightarrow> rat list option" where
  "float_list [] = Some []"
| "float_list (x # xs) = (case x of JNum q \<Rightarrow> map_option ((#) q) (float_list xs)
     | JNull \<Rightarrow> map_option ((#) 0) (float_list xs) | _ \<Rightarrow> None)"

subsection \<open>The client\<close>

record client =
  sc_seq :: int
  sc_pending :: "int list"
  sc_chan :: "int \<Rightarrow> rpc_resp list"
  sc_sent :: "rpc_req list"
  sc_jobs :: "stratum_job list"
  sc_difficulty :: "rat list"
  sc_down :: bool
  sc_blocked :: bool

definition new_client :: client where
  "new_client = \<lparr>sc_seq = 0, sc_pending = [], sc_chan = (\<lambda>_. []), sc_sent = [], sc_jobs = [], sc_difficulty = [],
     sc_down = False, sc_blocked = False\<rparr>"

text \<open>\<open>ch <- resp\<close> on a channel with room for one.\<close>

definition chan_send :: "int \<Rightarrow> rpc_resp \<Rightarrow> client \<Rightarrow> client" where
  "chan_send i resp c = (if sc_chan c i = [] then c\<lparr>sc_chan := (sc_chan c)(i := [resp])\<rparr> else c\<lparr>sc_blocked := True\<rparr>)"

definition handleNotify :: "(json \<Rightarrow> string) \<Rightarrow> string \<Rightarrow> json option \<Rightarrow> client \<Rightarrow> client" where
  "handleNotify text m params c =
     (if m = ''mining.notify'' then
        (case params of
           Some (JArr p) \<Rightarrow> (case notify_job text p of None \<Rightarrow> c | Some j \<Rightarrow> c\<lparr>sc_jobs := sc_jobs c @ [j]\<rparr>)
         | _ \<Rightarrow> c)
      else if m = ''mining.set_difficulty'' then
        (case params of
           Some (JArr p) \<Rightarrow> (case float_list p of Some (d # _) \<Rightarrow> c\<lparr>sc_difficulty := sc_difficulty c @ [d]\<rparr> | _ \<Rightarrow> c)
         | _ \<Rightarrow> c)
      else c)"

definition deliver :: "rpc_resp \<Rightarrow> client \<Rightarrow> client" where
  "deliver resp c = (let c' = c\<lparr>sc_pending := removeAll (rs_id resp) (sc_pending c)\<rparr> in
     if rs_id resp \<in> set (sc_pending c) then chan_send (rs_id resp) resp c' else c')"

text \<open>One turn of \<open>readLoop\<close> with a value; a \<open>null\<close> decodes as an empty object.\<close>

definition read_value :: "(json \<Rightarrow> string) \<Rightarrow> json \<Rightarrow> client \<Rightarrow> client" where
  "read_value text raw c = (case (case raw of JObj kvs \<Rightarrow> Some kvs | JNull \<Rightarrow> Some [] | _ \<Rightarrow> None) of
     None \<Rightarrow> c
   | Some kvs \<Rightarrow> (case method_field kvs [] of
       None \<Rightarrow> c
     | Some m \<Rightarrow>
         if m \<noteq> [] then handleNotify text m (any_field ''params'' kvs) c
         else (case decode_resp kvs of None \<Rightarrow> c | Some resp \<Rightarrow> deliver resp c)))"

text \<open>\<open>failAll\<close>, when the decoder fails: every call that waits gets the error, and the loop ends.\<close>

definition failAll :: "string \<Rightarrow> client \<Rightarrow> client" where
  "failAll err c = (fold (\<lambda>i. chan_send i \<lparr>rs_id = i, rs_result = None, rs_error = Some (JStr err)\<rparr>) (sc_pending c) c)
     \<lparr>sc_pending := []\<rparr>"

definition read_error :: "string \<Rightarrow> client \<Rightarrow> client" where
  "read_error err c = (failAll err c)\<lparr>sc_down := True\<rparr>"

text \<open>
  \<open>Call\<close> up to its \<open>select\<close>: the id, and whether the write succeeded; when it fails the call returns, and
  its id stays in the map. Then either the response is received or the context ends.
\<close>

definition call_start :: "string \<Rightarrow> string list \<Rightarrow> bool \<Rightarrow> client \<Rightarrow> (int \<times> bool) \<times> client" where
  "call_start meth params written c =
     (let i = sc_seq c + 1; c' = c\<lparr>sc_seq := i, sc_pending := i # sc_pending c, sc_chan := (sc_chan c)(i := [])\<rparr> in
      if written then ((i, True), c'\<lparr>sc_sent := sc_sent c @ [\<lparr>rq_id = i, rq_method = meth, rq_params = params\<rparr>]\<rparr>)
      else ((i, False), c'))"

definition call_receive :: "int \<Rightarrow> client \<Rightarrow> (string + json option) option \<times> client" where
  "call_receive i c = (case sc_chan c i of
     [] \<Rightarrow> (None, c)
   | resp # rest \<Rightarrow> (Some (case rs_error resp of Some e \<Rightarrow> Inl ''stratum error'' | None \<Rightarrow> Inr (rs_result resp)),
       c\<lparr>sc_chan := (sc_chan c)(i := rest)\<rparr>))"

definition call_cancel :: "int \<Rightarrow> client \<Rightarrow> client" where
  "call_cancel i c = c"

definition stratum_Subscribe :: "string \<Rightarrow> bool \<Rightarrow> client \<Rightarrow> (int \<times> bool) \<times> client" where
  "stratum_Subscribe ua = call_start ''mining.subscribe'' [ua]"

definition Authorize :: "string \<Rightarrow> string \<Rightarrow> bool \<Rightarrow> client \<Rightarrow> (int \<times> bool) \<times> client" where
  "Authorize username password = call_start ''mining.authorize'' [username, password]"

definition Submit :: "string \<Rightarrow> string \<Rightarrow> string \<Rightarrow> string \<Rightarrow> string \<Rightarrow> bool \<Rightarrow> client \<Rightarrow> (int \<times> bool) \<times> client" where
  "Submit username jobID extra2 ntime nonce = call_start ''mining.submit'' [username, jobID, extra2, ntime, nonce]"

subsection \<open>The client in operation\<close>

text \<open>The read loop runs until its decoder fails; calls come from any goroutine.\<close>

inductive client_step :: "(json \<Rightarrow> string) \<Rightarrow> client \<Rightarrow> client \<Rightarrow> bool" for raw_text where
  started: "client_step raw_text c (snd (call_start meth params written c))"
| received: "client_step raw_text c (snd (call_receive i c))"
| cancelled: "client_step raw_text c (call_cancel i c)"
| read: "\<not> sc_down c \<Longrightarrow> \<not> sc_blocked c \<Longrightarrow> client_step raw_text c (read_value raw_text raw c)"
| ended: "\<not> sc_down c \<Longrightarrow> \<not> sc_blocked c \<Longrightarrow> client_step raw_text c (read_error err c)"

definition client_ok :: "client \<Rightarrow> bool" where
  "client_ok c \<longleftrightarrow> \<not> sc_blocked c \<and> distinct (sc_pending c) \<and> (\<forall>i \<in> set (sc_pending c). i \<le> sc_seq c \<and> sc_chan c i = []) \<and>
     (\<forall>i. length (sc_chan c i) \<le> 1) \<and> (\<forall>r \<in> set (sc_sent c). rq_id r \<le> sc_seq c) \<and> distinct (map rq_id (sc_sent c)) \<and>
     (\<forall>i. \<forall>r \<in> set (sc_chan c i). rs_id r = i)"

lemma client_ok_send:
  "client_ok c \<Longrightarrow> i \<notin> set (sc_pending c) \<Longrightarrow> sc_chan c i = [] \<Longrightarrow> rs_id r = i \<Longrightarrow> client_ok (chan_send i r c)"
  by (auto simp: client_ok_def chan_send_def)

lemma client_ok_forget: "client_ok c \<Longrightarrow> client_ok (c\<lparr>sc_pending := removeAll i (sc_pending c)\<rparr>)"
  by (auto simp: client_ok_def distinct_removeAll)

lemma client_ok_deliver: "client_ok c \<Longrightarrow> client_ok (deliver r c)"
  using client_ok_forget [of c "rs_id r"]
  by (auto simp: deliver_def Let_def intro!: client_ok_send) (simp_all add: client_ok_def)

lemma client_ok_notify: "client_ok c \<Longrightarrow> client_ok (handleNotify text m p c)"
  by (auto simp: handleNotify_def client_ok_def split: option.splits json.splits list.splits)

lemma client_ok_read: "client_ok c \<Longrightarrow> client_ok (read_value text raw c)"
  by (simp add: read_value_def client_ok_notify client_ok_deliver split: json.splits option.splits)

lemma client_ok_start: "client_ok c \<Longrightarrow> client_ok (snd (call_start m p b c))"
  by (fastforce simp: client_ok_def call_start_def Let_def)

lemma client_ok_receive: "client_ok c \<Longrightarrow> client_ok (snd (call_receive i c))"
proof (cases "sc_chan c i")
  case (Cons r rest)
  assume c: "client_ok c"
  then have "rest = []" using Cons by (auto simp: client_ok_def) (metis One_nat_def Suc_le_mono le_zero_eq length_0_conv length_Cons)
  then show ?thesis using c Cons by (simp add: client_ok_def call_receive_def)
qed (simp add: call_receive_def)

lemma fail_sends:
  "distinct is \<Longrightarrow> \<forall>i \<in> set is. sc_chan c i = [] \<Longrightarrow>
   fold (\<lambda>i. chan_send i (f i)) is c = c\<lparr>sc_chan := (\<lambda>i. if i \<in> set is then [f i] else sc_chan c i)\<rparr>"
proof (induction "is" arbitrary: c)
  case (Cons i "is")
  have "fold (\<lambda>i. chan_send i (f i)) is (c\<lparr>sc_chan := (sc_chan c)(i := [f i])\<rparr>) =
      c\<lparr>sc_chan := (\<lambda>j. if j \<in> set is then [f j] else ((sc_chan c)(i := [f i])) j)\<rparr>"
    using Cons.prems by (subst Cons.IH) (auto cong: if_cong)
  moreover have "(\<lambda>j. if j \<in> set is then [f j] else ((sc_chan c)(i := [f i])) j) = (\<lambda>j. if j \<in> set (i # is) then [f j] else sc_chan c j)"
    using Cons.prems(1) by auto
  moreover have "chan_send i (f i) c = c\<lparr>sc_chan := (sc_chan c)(i := [f i])\<rparr>"
    using Cons.prems(2) by (simp add: chan_send_def)
  ultimately show ?case by (simp only: fold_Cons o_apply)
qed simp

lemma failAll_eq: "client_ok c \<Longrightarrow> failAll err c = c\<lparr>sc_pending := [],
    sc_chan := (\<lambda>i. if i \<in> set (sc_pending c) then [\<lparr>rs_id = i, rs_result = None, rs_error = Some (JStr err)\<rparr>] else sc_chan c i)\<rparr>"
  unfolding failAll_def by (subst fail_sends) (auto simp: client_ok_def)

lemma client_ok_error: "client_ok c \<Longrightarrow> client_ok (read_error err c)"
  by (simp add: read_error_def failAll_eq) (simp add: client_ok_def)

lemma client_step_ok: "client_ok c \<Longrightarrow> client_step raw_text c d \<Longrightarrow> client_ok d"
  by (auto elim!: client_step.cases simp: client_ok_start client_ok_receive client_ok_read client_ok_error call_cancel_def)

interpretation stratum: transition_system "\<lambda>c. c = new_client" "client_step raw_text" client_ok for raw_text
proof
  show "c = new_client \<Longrightarrow> client_ok c" for c by (simp add: client_ok_def new_client_def)
qed (rule client_step_ok)


definition demo_response :: json where
  "demo_response = JObj [(''id'', JNum 1), (''result'', JBool True), (''error'', JNull)]"

lemma demo_exchange: "sc_chan (read_value (\<lambda>_. []) demo_response (snd (call_start ''mining.subscribe'' [''ua''] True new_client))) 1 =
    [\<lparr>rs_id = 1, rs_result = Some (JBool True), rs_error = None\<rparr>]"
  by code_simp


text \<open>
  Known limitation: a call that is registered when the read loop has ended (it began too late, or its
  write failed or its context ended before) is never answered, and stays in the map of waiting calls for good.
\<close>

theorem late_call_leaks:
  assumes "(client_step raw_text)\<^sup>*\<^sup>* new_client c" and "sc_down c" and "i \<in> set (sc_pending c)"
    and "(client_step raw_text)\<^sup>*\<^sup>* c d"
  shows "i \<in> set (sc_pending d) \<and> call_receive i d = (None, d)"
proof -
  have "i \<le> sc_seq c" "sc_chan c i = []"
    using stratum.reachable_good [OF refl assms(1)] assms(3) by (auto simp: client_ok_def)
  with assms(4,2,3) have "sc_down d \<and> i \<le> sc_seq d \<and> i \<in> set (sc_pending d) \<and> sc_chan d i = []"
  proof (induction rule: rtranclp_induct)
    case (step d e)
    from step.hyps(2) step.IH [OF step.prems] show ?case
      by (cases rule: client_step.cases) (auto simp: call_start_def call_receive_def call_cancel_def Let_def split: list.splits)
  qed auto
  then show ?thesis by (simp add: call_receive_def)
qed

theorem late_call_leaks_witness:
  "call_receive 1 (snd (call_start ''mining.submit'' [] True (read_error ''EOF'' new_client))) =
     (None, snd (call_start ''mining.submit'' [] True (read_error ''EOF'' new_client)))"
proof -
  let ?d = "read_error ''EOF'' new_client" and ?c = "snd (call_start ''mining.submit'' [] True (read_error ''EOF'' new_client))"
  have "client_step (\<lambda>_. []) new_client ?d" by (rule client_step.ended) (simp_all add: new_client_def)
  then have r: "(client_step (\<lambda>_. []))\<^sup>*\<^sup>* new_client ?c"
    using client_step.started [of "\<lambda>_. []" ?d] by (meson converse_rtranclp_into_rtranclp rtranclp.rtrancl_refl)
  have "i \<in> set (sc_pending ?c) \<and> call_receive i ?c = (None, ?c)" if "i = 1" for i
    using that by (intro late_call_leaks [OF r _ _ rtranclp.rtrancl_refl])
      (simp_all add: call_start_def read_error_def failAll_def new_client_def Let_def)
  then show ?thesis by blast
qed

end
