(* ===== verification/EndToEnd.thy ===== *)
theory EndToEnd
  imports HubProps HubCounters WorkerProps
begin

text \<open>
  The server and a worker together: an assignment travels from the hub to a worker, and its answer back.
  The two programs share only JSON, which is the pair of functions below: the payload as the worker's struct,
  whose adapter configuration is decoded there (\<open>None\<close> when it does not decode, and then the worker does not
  answer), and the acknowledgement as the hub's.
\<close>

definition offer_of :: "(json option \<Rightarrow> adapter_config option option) \<Rightarrow> assign_payload \<Rightarrow> job_offer option" where
  "offer_of dec p = map_option (\<lambda>ad. \<lparr>jo_job = ap_job p, jo_miner = ap_miner p, jo_engine = ap_engine p,
     jo_algorithm = ap_algorithm p, jo_pool = ap_pool p, jo_user = ap_user p, jo_wallet = ap_wallet p, jo_worker = ap_worker p,
     jo_threads = ap_threads p, jo_gpu_on = ap_gpu_on p, jo_gpu_intensity = ap_gpu_intensity p, jo_adapter = ad,
     jo_simulated = ap_simulated p\<rparr>) (dec (ap_adapter p))"

definition to_worker_of :: "(json option \<Rightarrow> adapter_config option option) \<Rightarrow> message \<Rightarrow> to_worker" where
  "to_worker_of dec m = (case m of
     JobAssign p \<Rightarrow> (case offer_of dec p of None \<Rightarrow> WBad | Some q \<Rightarrow> WAssign q)
   | JobCancel i \<Rightarrow> WCancel i
   | AllocationUpdateMsg i c g \<Rightarrow> WAllocation i c g
   | WorkerRevokeMsg \<Rightarrow> WRevoke)"

definition inbound_of :: "(ack_err \<Rightarrow> string) \<Rightarrow> from_worker \<Rightarrow> inbound" where
  "inbound_of text_of m = (case m of
     MPong \<Rightarrow> InPong
   | MAck i None \<Rightarrow> InAck i ''ok'' []
   | MAck i (Some e) \<Rightarrow> InAck i ''error'' (text_of e)
   | MMetrics i h acc rej _ _ \<Rightarrow> InMetrics i h acc rej
   | MHello es threads gpu vram \<Rightarrow> InHello (Some (JObj [(''engines'', JArr (map JStr es)),
       (''gpu'', JObj [(''model'', JStr gpu), (''vram_mb'', JNum (of_int vram))]), (''max_threads'', JNum (of_int threads))])))"

subsection \<open>The hub receives the answer\<close>

definition answered :: "string \<Rightarrow> job_row \<Rightarrow> db \<Rightarrow> bool" where
  "answered st j d \<longleftrightarrow> (\<forall>m \<in> set (miners d). m_id m = j_miner j \<longrightarrow> m_status m = st) \<and>
     (\<forall>x \<in> set (jobs d). j_id x = j_id j \<longrightarrow>
        (if st = ''running'' then j_status x = ''ack'' \<and> j_ended x = None else j_status x = ''error'' \<and> j_ended x \<noteq> None))"

lemma SetMinerStatus_run:
  assumes "\<forall>n. \<not> fault (env d) n" "uuid_of (env d) i = Some u"
  shows "snd (run_state (SetMinerStatus i st) d) = bump (d\<lparr>miners := upd_where (\<lambda>m. m_id m = u)
    (\<lambda>m. m\<lparr>m_status := st, m_updated := db_now d\<rparr>) (miners d)\<rparr>)"
  using assms by (simp add: SetMinerStatus_def run_simps with_uuid_def)

lemma ack_job_run:
  assumes "\<forall>n. \<not> fault (env d) n" "uuid_of (env d) i = Some u"
  shows "snd (run_state (SetSwarmJobStatus i ''ack'') d) = bump (d\<lparr>jobs := upd_where (\<lambda>j. j_id j = u) (\<lambda>j. j\<lparr>j_status := ''ack''\<rparr>) (jobs d)\<rparr>)"
    "snd (run_state (SetSwarmJobStatus i ''error'') d) = bump (d\<lparr>jobs := upd_where (\<lambda>j. j_id j = u \<and> j_ended j = None)
       (\<lambda>j. j\<lparr>j_status := ''error'', j_ended := Some (db_now d)\<rparr>) (jobs d)\<rparr>)"
  using assms by (simp_all add: SetSwarmJobStatus_def run_simps with_uuid_def)

lemma handleAck_answered:
  assumes a: "active_on jobID wid j (wdb w)" and m: "uuid_of (env (wdb w)) (j_miner j) = Some (j_miner j)"
  shows "answered (if st = ''ok'' then ''running'' else ''error'') j (wdb (snd (run_state (handleAck wid o' jobID st err) w)))"
proof -
  let ?d = "wdb w"
  have nf: "\<forall>n. \<not> fault (env ?d) n" and u: "uuid_of (env ?d) jobID = Some (j_id j)" and j: "j \<in> set (jobs ?d)" "j_ended j = None"
    using a by (auto simp: active_on_def)
  have only_j: "j_ended x = None" if "x \<in> set (jobs ?d)" "j_id x = j_id j" for x
    using a that j distinct_map_eqD [OF db_ok_keys(9)] by (metis active_on_def)
  have act: "run_state (ActiveJobForWorker jobID wid) ?d = (Inr (scanJob j), bump ?d)"
    using a by (intro ActiveJob_found) (auto simp: active_on_def)
  have mj: "sj_miner (scanJob j) = j_miner j" by (simp add: scanJob_def)
  show ?thesis
  proof (cases "st = ''ok''")
    case True
    have "only {Workers} (snd (run_state (SetMinerStatus (j_miner j) ''running'') (snd (run_state (SetSwarmJobStatus jobID ''ack'') (bump ?d)))))
        (wdb (snd (run_state (handleAck wid o' jobID st err) w)))"
      using relatesD [OF frame_SetWorkerStatus] True by (simp add: handleAck_def act mj) 
    then show ?thesis
      using j True m only_j by (simp add: only_def answered_def ack_job_run(1) [of "bump ?d"] nf u SetMinerStatus_run set_upd_where) (use only_j in auto)
  next
    case False
    have "wdb (snd (run_state (handleAck wid o' jobID st err) w)) =
        snd (run_state (SetMinerStatus (j_miner j) ''error'') (snd (run_state (SetSwarmJobStatus jobID ''error'') (bump ?d))))"
      using False by (simp add: handleAck_def act mj)
    then show ?thesis
      using j False m only_j by (simp add: answered_def ack_job_run(2) [of "bump ?d"] nf u SetMinerStatus_run set_upd_where) (use only_j in auto)
  qed
qed

subsection \<open>The life of an assignment\<close>

text \<open>An assignment keeps the environment, and the id of a new job is one that the database has generated.\<close>

definition new_ids :: "db \<Rightarrow> db \<Rightarrow> bool" where
  "new_ids d d' \<longleftrightarrow> env d' = env d \<and> j_id ` set (jobs d') \<subseteq> j_id ` set (jobs d) \<union> range (fresh_uuid (env d))"

definition assigning :: "world \<Rightarrow> world \<Rightarrow> bool" where
  "assigning w w' \<longleftrightarrow> new_ids (wdb w) (wdb w')"

lemma new_ids_order [simp, relates_intros]: "reflp new_ids" "transp new_ids"
  by (simp add: new_ids_def reflp_def) (rule transpI, simp add: new_ids_def, blast)

lemma assigning_order [simp, relates_intros]: "reflp assigning" "transp assigning"
  by (auto simp: assigning_def reflp_def transp_def intro: reflpD [OF new_ids_order(1)] transpD [OF new_ids_order(2)])

lemma new_ids_frame: "relates (only T) m \<Longrightarrow> Jobs \<notin> T \<Longrightarrow> relates new_ids m"
  by (simp add: relates_def new_ids_def only_def)

lemma new_ids_stmt [relates_intros]: "(\<And>s a t. f s = Inr (a, t) \<Longrightarrow> new_ids s t) \<Longrightarrow> relates new_ids (sql f)"
  by (rule relates_sql) (simp_all add: new_ids_def)

lemma new_ids_read [relates_intros]: "relates new_ids (on_err g (query f))"
  by (rule new_ids_frame [OF frame_read [of "{}"]]) simp

lemma new_ids_statements:
  "relates new_ids (CreateSwarmJob a b)" "relates new_ids (SetSwarmJobStatus a c)" "relates new_ids (SetWorkerStatus a c)"
proof -
  show "relates new_ids (CreateSwarmJob a b)"
    unfolding CreateSwarmJob_def by (intro relates_intros) (auto simp: stmt_simps new_ids_def new_uuid_def)
  show "relates new_ids (SetSwarmJobStatus a c)"
    unfolding SetSwarmJobStatus_def by (intro relates_intros) (auto simp: new_ids_def with_uuid_Inr upd_where_def)
  show "relates new_ids (SetWorkerStatus a c)" by (rule new_ids_frame [OF frame_SetWorkerStatus]) simp
qed

lemma assigning_on_db: "relates new_ids m \<Longrightarrow> relates assigning (on_db m)"
  by (simp add: relates_def assigning_def)

lemma assigning_send [relates_intros]: "relates assigning (send c m)"
  by (auto intro!: relatesI simp: assigning_def send_def new_ids_def)

lemma assigning_reads: "relates assigning (on_db (minerOwner mid))" "relates assigning (on_db (GetWorker o' i))"
  by (rule assigning_on_db, unfold minerOwner_def, intro relates_intros new_ids_frame [OF frame_query [of "{}"]]; simp)
    (rule assigning_on_db, unfold GetWorker_def, intro relates_intros; simp)

lemma assigning_pick: "relates assigning (pick_target mid xs best)"
  by (induction xs arbitrary: best) (auto intro!: assigning_reads relates_intros)

lemma assigning_Assign: "relates assigning (Assign mn cur addr)"
  unfolding Assign_def by (intro assigning_pick assigning_reads assigning_on_db new_ids_statements relates_intros)

lemma ws_message_ack:
  assumes "jobID \<noteq> []"
  shows "\<exists>v. wdb v = wdb w \<and> snd (run_state (ws_message stamp wid o' (InAck jobID st err)) w) = snd (run_state (handleAck wid o' jobID st err) v)"
  using assms by (intro exI [of _ "snd (run_state (touch wid) w)"]) (simp add: ws_message_def handleMessage_def touch_def)

lemma Assign_active:
  assumes "hub_good w" and "faultless (wdb w)" and "r \<in> set (miners (wdb w))"
    and "uuid_of (env (wdb w)) (mn_id mn) = Some (m_id r)"
    and run: "run_state (Assign mn cur addr) w = (True, w1)"
    and ids: "\<forall>i. uuid_of (env (wdb w)) (fresh_uuid (env (wdb w)) i) = Some (fresh_uuid (env (wdb w)) i) \<and> fresh_uuid (env (wdb w)) i \<noteq> []"
  obtains wid c j p where "c \<notin> set (shut w)" "outbox w1 = outbox w @ [(c, JobAssign p)]" "jobs (wdb w1) = jobs (wdb w) @ [j]"
    "j_miner j = m_id r" "ap_job p = j_id j" "ap_job p \<noteq> []" "map_of (conns w) wid = Some c" "active_on (j_id j) wid j (wdb w1)"
proof -
  have d: "db_ok (wdb w)" "hub_ok w" using assms(1) by (auto simp: hub_good_def owned_def tenant_ok_def)
  obtain t c n k jobID where *: "best_of (m_owner r) (conns w) (map_range w (live w)) None = Some (t, c)"
    "uuid_of (env (wdb w)) (lw_id t) = Some (k_id k)" "c \<notin> set (shut w)"
    "jobs (wdb w1) = jobs (wdb w) @ [new_job jobID (m_id r) (k_id k) (db_now ((wdb w)\<lparr>tick := n\<rparr>))]"
    "outbox w1 = outbox w @ [(c, JobAssign (engine_payload jobID mn cur addr (scanWorker k) (lw_id t)))]"
    using Assign_runs [OF assms(2) d(1) assms(3,4) run] by metis
  obtain x where x: "x \<in> set (live w)" "t = snd x" "map_of (conns w) (fst x) = Some c"
    using best_of_Some [OF *(1)] by auto
  have "lw_id t = fst x" using d(2) x by (simp add: hub_ok_def)
  have ok: "db_ok (wdb w1)" using keepsD [OF owned_Assign, of w mn cur addr] assms(1) run by (simp add: hub_good_def owned_def tenant_ok_def)
  have new: "env (wdb w1) = env (wdb w)" "j_id ` set (jobs (wdb w1)) \<subseteq> j_id ` set (jobs (wdb w)) \<union> range (fresh_uuid (env (wdb w)))"
    using relatesD [OF assigning_Assign, of w mn cur addr] run by (simp_all add: assigning_def new_ids_def)
  have "\<exists>i. jobID = fresh_uuid (env (wdb w)) i"
    using db_ok_keys(9) [OF ok] new(2) *(4) by (auto simp: new_job_def)
  then have "jobID \<noteq> []" "uuid_of (env (wdb w)) jobID = Some jobID" using ids by auto
  note here = this
  show thesis
    using that [of c "engine_payload jobID mn cur addr (scanWorker k) (lw_id t)"
      "new_job jobID (m_id r) (k_id k) (db_now ((wdb w)\<lparr>tick := n\<rparr>))" "fst x"] * x here assms(2) ok new(1) \<open>lw_id t = fst x\<close>
    by (simp add: active_on_def faultless_def engine_payload_def Let_def new_job_def)
qed

lemma offer_job: "offer_of dec p = Some q \<Longrightarrow> jo_job q = ap_job p"
  by (auto simp: offer_of_def)

lemma answer_reaches_hub:
  assumes "active_on (jo_job q) wid j (wdb w)" "uuid_of (env (wdb w)) (j_miner j) = Some (j_miner j)" "jo_job q \<noteq> []" "nd_net n (nd_sends n)"
  obtains m where "nd_sent (handleAssign q n) = nd_sent n @ [m]"
    "(\<exists>jr. map_of (nd_jobs (handleAssign q n)) (jo_job q) = Some jr \<and> eng_running (jr_eng jr)) \<and>
       answered ''running'' j (wdb (snd (run_state (ws_message stamp wid o' (inbound_of txt m)) w))) \<or>
     nd_jobs (handleAssign q n) = nd_jobs n \<and> procs (nd_os (handleAssign q n)) = procs (nd_os n) \<and>
       answered ''error'' j (wdb (snd (run_state (ws_message stamp wid o' (inbound_of txt m)) w)))"
proof -
  obtain r where r: "nd_sent (handleAssign q n) = nd_sent n @ [MAck (jo_job q) r]"
    "r = None \<longrightarrow> (\<exists>jr. map_of (nd_jobs (handleAssign q n)) (jo_job q) = Some jr \<and> eng_running (jr_eng jr))"
    "r \<noteq> None \<longrightarrow> nd_jobs (handleAssign q n) = nd_jobs n \<and> procs (nd_os (handleAssign q n)) = procs (nd_os n)"
    using handleAssign_effect [OF assms(3), of n] assms(4) by auto
  have a: "answered (if st = ''ok'' then ''running'' else ''error'') j
      (wdb (snd (run_state (ws_message stamp wid o' (InAck (jo_job q) st e)) w)))" for st e
    using ws_message_ack [OF assms(3), of w stamp wid o' st e] handleAck_answered [of "jo_job q" wid j] assms(1,2) by metis
  show thesis
    by (rule that [OF r(1)]) (use r(2,3) a [of "''ok''"] a [of "''error''"] in \<open>cases r; simp add: inbound_of_def\<close>)
qed

text \<open>
  C3. The server and the worker agree about a job. When \<open>Assign\<close> reports success it has stored one open job of the
  miner and sent its assignment on the connection of a worker. When the worker takes the message, it answers it
  once, and when the hub takes the answer while the job is open, either the worker runs the engine under the
  job's id and the server has the miner as running and the job as acknowledged, or the worker has the jobs and
  processes that it had and the server has the miner in error and the job as ended.
\<close>

theorem job_agreement:
  assumes "hub_good w" and "faultless (wdb w)" and "r \<in> set (miners (wdb w))"
    and "uuid_of (env (wdb w)) (mn_id mn) = Some (m_id r)"
    and "run_state (Assign mn cur addr) w = (True, w1)"
    and "\<forall>i. uuid_of (env (wdb w)) (fresh_uuid (env (wdb w)) i) = Some (fresh_uuid (env (wdb w)) i) \<and> fresh_uuid (env (wdb w)) i \<noteq> []"
    and "to_worker_of dec (snd (last (outbox w1))) = WAssign q" and "nd_net n (nd_sends n)"
  shows "\<exists>wid j m. jobs (wdb w1) = jobs (wdb w) @ [j] \<and> j_miner j = m_id r \<and> active_on (jo_job q) wid j (wdb w1) \<and>
     map_of (conns w) wid = Some (fst (last (outbox w1))) \<and>
     nd_sent (handle_message (WAssign q) n) = nd_sent n @ [m] \<and>
     (\<forall>w2. active_on (jo_job q) wid j (wdb w2) \<and> uuid_of (env (wdb w2)) (m_id r) = Some (m_id r) \<longrightarrow>
        (\<exists>jr. map_of (nd_jobs (handle_message (WAssign q) n)) (jo_job q) = Some jr \<and> eng_running (jr_eng jr)) \<and>
          answered ''running'' j (wdb (snd (run_state (ws_message stamp wid (m_owner r) (inbound_of txt m)) w2))) \<or>
        nd_jobs (handle_message (WAssign q) n) = nd_jobs n \<and>
          procs (nd_os (handle_message (WAssign q) n)) = procs (nd_os n) \<and>
          answered ''error'' j (wdb (snd (run_state (ws_message stamp wid (m_owner r) (inbound_of txt m)) w2))))"
proof -
  obtain wid c j p where *: "outbox w1 = outbox w @ [(c, JobAssign p)]" "jobs (wdb w1) = jobs (wdb w) @ [j]"
    "j_miner j = m_id r" "ap_job p = j_id j" "ap_job p \<noteq> []" "map_of (conns w) wid = Some c" "active_on (j_id j) wid j (wdb w1)"
    using Assign_active [OF assms(1-6)] by metis
  have q: "jo_job q = j_id j" "jo_job q \<noteq> []"
    using assms(7) offer_job [of dec p q] * by (auto simp: to_worker_of_def split: option.splits)
  obtain r' where m: "nd_sent (handleAssign q n) = nd_sent n @ [r']"
    using handleAssign_effect [OF q(2), of n] assms(8) by auto
  have a: "(\<exists>jr. map_of (nd_jobs (handleAssign q n)) (jo_job q) = Some jr \<and> eng_running (jr_eng jr)) \<and>
       answered ''running'' j (wdb (snd (run_state (ws_message stamp wid (m_owner r) (inbound_of txt r')) w2))) \<or>
     nd_jobs (handleAssign q n) = nd_jobs n \<and> procs (nd_os (handleAssign q n)) = procs (nd_os n) \<and>
       answered ''error'' j (wdb (snd (run_state (ws_message stamp wid (m_owner r) (inbound_of txt r')) w2)))"
    if "active_on (jo_job q) wid j (wdb w2) \<and> uuid_of (env (wdb w2)) (m_id r) = Some (m_id r)" for w2
    using answer_reaches_hub [of q wid j w2 n stamp "m_owner r" "txt"] that q(2) assms(8) m *(3) by fastforce
  show ?thesis
    using * q(1) m a by (intro exI [of _ wid] exI [of _ j] exI [of _ r']) (simp add: handle_message_def)
qed

text \<open>In the sample world the queued miner goes to the worker \<open>k\<close>, whose program is the sample node.\<close>

definition demo_dec :: "json option \<Rightarrow> adapter_config option option" where
  "demo_dec x = Some (Some demo_adapter)"

definition demo_assigned_world :: world where
  "demo_assigned_world = snd (run_state (Assign queued_miner (coin ''c1'' ''XMR'') ''4addr'') hub_world)"

definition demo_taken :: job_offer where
  "demo_taken = (case to_worker_of demo_dec (snd (last (outbox demo_assigned_world))) of WAssign q \<Rightarrow> q | _ \<Rightarrow> demo_offer)"

lemma demo_assigned_run: "run_state (Assign queued_miner (coin ''c1'' ''XMR'') ''4addr'') hub_world = (True, demo_assigned_world)"
  using Assign_finds [OF hub_world_assign] by (simp add: demo_assigned_world_def prod_eq_iff)

lemma demo_ids: "uuid_of (env (wdb hub_world)) = Some" "fresh_uuid (env (wdb hub_world)) i \<noteq> []"
  by (simp_all add: hub_data)

lemma demo_taken_offer: "to_worker_of demo_dec (snd (last (outbox demo_assigned_world))) = WAssign demo_taken"
proof -
  obtain c p where "outbox demo_assigned_world = outbox hub_world @ [(c, JobAssign p)]"
    using Assign_active [OF hub_world_good hub_world_faultless queued_miner_row demo_assigned_run] demo_ids by metis
  then show ?thesis by (simp add: demo_taken_def to_worker_of_def offer_of_def demo_dec_def)
qed

theorem job_agreement_witness:
  "\<exists>j m. j_miner j = ''q'' \<and> nd_sent (handle_message (WAssign demo_taken) demo_node) = [m] \<and>
     (answered ''running'' j (wdb (snd (run_state (ws_message (\<lambda>_. []) ''k'' ''a'' (inbound_of (\<lambda>_. ''failed'') m)) demo_assigned_world))) \<or>
      answered ''error'' j (wdb (snd (run_state (ws_message (\<lambda>_. []) ''k'' ''a'' (inbound_of (\<lambda>_. ''failed'') m)) demo_assigned_world))))"
proof -
  have "nd_net demo_node (nd_sends demo_node)" by (simp add: demo_node_def)
  from job_agreement [OF hub_world_good hub_world_faultless queued_miner_row demo_assigned_run _ demo_taken_offer this, of "\<lambda>_. []" "\<lambda>_. ''failed''"] demo_ids
  obtain wid j m where *: "j_miner j = ''q''" "active_on (jo_job demo_taken) wid j (wdb demo_assigned_world)"
    "map_of (conns hub_world) wid \<noteq> None" "nd_sent (handle_message (WAssign demo_taken) demo_node) = [m]"
    "uuid_of (env (wdb demo_assigned_world)) ''q'' = Some ''q'' \<longrightarrow>
      answered ''running'' j (wdb (snd (run_state (ws_message (\<lambda>_. []) wid ''a'' (inbound_of (\<lambda>_. ''failed'') m)) demo_assigned_world))) \<or>
      answered ''error'' j (wdb (snd (run_state (ws_message (\<lambda>_. []) wid ''a'' (inbound_of (\<lambda>_. ''failed'') m)) demo_assigned_world)))"
    by (fastforce simp: sample_miner_def demo_node_def)
  have "wid = ''k''" using *(3) by (simp add: hub_data split: if_splits)
  moreover have "env (wdb demo_assigned_world) = env (wdb hub_world)"
    using relatesD [OF assigning_Assign, of hub_world] by (simp add: demo_assigned_world_def assigning_def new_ids_def)
  ultimately show ?thesis using * demo_ids(1) by auto
qed

end
