(* ===== verification/Joining.thy ===== *)
theory Joining
  imports EndToEnd StoreProps ApiProps
begin

text \<open>
  A machine joins the swarm: the command line of the worker (\<open>main\<close> of \<open>cmd/worker/main.go\<close>), its configuration
  file, and the way of the credentials from the enrollment handler through that file to the websocket endpoint.
\<close>

subsection \<open>The command line\<close>

text \<open>
  The disk maps paths to contents; \<open>enc\<close> and \<open>dec\<close> are the JSON encoding of the configuration and its decoding.
  A write that fails is an error of \<open>cmdEnroll\<close> already and leaves the disk as it is.
\<close>

definition loadConfig :: "('f \<Rightarrow> file_config option) \<Rightarrow> (string \<Rightarrow> 'f option) \<Rightarrow> string \<Rightarrow> file_config option" where
  "loadConfig dec d path = (case d path of None \<Rightarrow> None | Some f \<Rightarrow> dec f)"

definition saveConfig :: "(file_config \<Rightarrow> 'f) \<Rightarrow> string \<Rightarrow> file_config \<Rightarrow> (string \<Rightarrow> 'f option) \<Rightarrow> string \<Rightarrow> 'f option" where
  "saveConfig enc path c d = d(path \<mapsto> enc c)"

text \<open>How the program ends, and what \<open>run\<close> has done by then: the exit status, or none while it still runs.\<close>

definition worker_main :: "machine \<Rightarrow> (string list \<Rightarrow> string) \<Rightarrow>
    (string \<Rightarrow> string \<times> string \<times> node_hardware \<Rightarrow> (int \<times> enroll_body) option) \<Rightarrow> (string \<Rightarrow> bool) \<Rightarrow>
    (file_config \<Rightarrow> 'f) \<Rightarrow> ('f \<Rightarrow> file_config option) \<Rightarrow> string list \<Rightarrow> turn list \<Rightarrow> os \<Rightarrow> (nat \<Rightarrow> bool) \<Rightarrow>
    (string \<Rightarrow> 'f option) \<Rightarrow> int option \<times> (string \<Rightarrow> 'f option) \<times> (int list \<times> node) option" where
  "worker_main mc join post can_save enc dec args ts s net d = (case args of
     [] \<Rightarrow> (Some 2, d, None)
   | cmd # rest \<Rightarrow>
       if cmd = ''enroll'' then
         (case cmdEnroll mc join post can_save rest of
            Inl _ \<Rightarrow> (Some 1, d, None)
          | Inr (path, c) \<Rightarrow> (Some 0, saveConfig enc path c d, None))
       else if cmd = ''run'' then
         (case cmdRun mc join (loadConfig dec d) rest ts s net of
            None \<Rightarrow> (Some 1, d, None)
          | Some (fin, pauses, n) \<Rightarrow> (if fin then Some 0 else None, d, Some (pauses, n)))
       else if cmd = ''version'' \<or> cmd = ''--version'' \<or> cmd = ''-v'' then (Some 0, d, None)
       else (Some 2, d, None))"

text \<open>The header of the websocket request.\<close>

definition session_header :: "file_config \<Rightarrow> string" where
  "session_header c = ''Bearer '' @ fc_token c"

subsection \<open>The request between the programs\<close>

text \<open>
  The JSON of the two programs: the fields of the hardware have the same names; an error answer carries the
  code and a text.
\<close>

definition wire_hardware :: "node_hardware \<Rightarrow> hardware" where
  "wire_hardware h = hardware.make (node_hardware.hw_kind h) (node_hardware.hw_os h) (node_hardware.hw_arch h)
     (hw_cpu_model h) (hw_cpu_cores h) (hw_gpu_model h) (hw_vram_mb h)"

definition enroll_answer :: "(string \<Rightarrow> string) \<Rightarrow> (string \<times> string \<times> string) reply \<Rightarrow> int \<times> enroll_body" where
  "enroll_answer text_of r = (case r of
     Reply n (i, t, u) \<Rightarrow> (n, Credentials i t u) | Err n c \<Rightarrow> (n, ErrorBody c (text_of c)))"

text \<open>The server in the state \<open>w\<close>, as the worker's HTTP client sees it; the proxy in front of it maps the paths.\<close>

definition enroll_post :: "api_env \<Rightarrow> (string \<Rightarrow> string) \<Rightarrow> world \<Rightarrow> string \<Rightarrow> string \<times> string \<times> node_hardware \<Rightarrow> (int \<times> enroll_body) option" where
  "enroll_post E text_of w url req = (case req of (code, nm, h) \<Rightarrow>
     Some (enroll_answer text_of (fst (run_state (handleEnroll E (Some (code, nm, wire_hardware h))) w))))"

subsection \<open>The token\<close>

lemma EncodeToString_printable: "list_all printable (EncodeToString b)"
proof -
  have "printable (hexdigit n)" if "n < 16" for n
  proof -
    have "list_all printable ''0123456789abcdef''" by code_simp
    with that show ?thesis unfolding list_all_length hexdigit_def by simp
  qed
  moreover have "of_char c div 16 < (16 :: nat)" for c :: char
    using nat_of_char_less_256 [of c] by (simp add: less_mult_imp_div_less)
  ultimately show ?thesis by (simp add: EncodeToString_def list_all_iff Let_def)
qed

lemma EncodeToString_Nil [simp]: "EncodeToString b = [] \<longleftrightarrow> b = []"
  by (cases b) (simp_all add: EncodeToString_def Let_def)

lemma bearer_of_header: "bearer_token (session_header c) = TrimSpace (fc_token c)"
  by (simp add: bearer_token_def session_header_def trim_prefix_def has_prefix_iff)

lemma Enroll_token:
  assumes "run_state (Enroll rt code name hw) s = (Inr res, t)"
  shows "\<exists>n b. rand_bytes rt n 32 = Some b \<and> er_token res = EncodeToString b"
proof -
  from assms obtain c u where "run_state (enroll_match rt name (enroll_kind hw) c) u = (Inr res, t)"
    by (auto simp: Enroll_def Let_def and_then_Inr split: if_splits)
  then show ?thesis
    by (rule enroll_match_Inr) (force simp: NewWorkerToken_def Let_def split: option.splits)
qed

text \<open>The token that \<open>Enroll\<close> returns is accepted for the worker that it created.\<close>

lemma Enroll_authenticates:
  assumes run: "run_state (Enroll rt code name hw) s = (Inr res, t)" and kind: "hardware.hw_kind hw \<noteq> ''browser''"
    and ok: "\<not> fault (env t) (tick t)" and fresh: "HashToken rt (er_token res) \<notin> k_token ` set (workers s)"
  shows "fst (run_state (AuthenticateWorker rt now (er_token res)) t) = Inr (er_worker res, er_owner res, ''native'')"
proof -
  from Enroll_Inr [OF run] obtain c :: code_row and now' where own: "er_owner res = c_owner c" and
    ws: "workers t = workers s @ [enrolled_row now' (er_worker res) (c_owner c) name (enroll_kind hw) (HashToken rt (er_token res))]"
    by blast
  have "filter (\<lambda>k. k_token k = HashToken rt (er_token res)) (workers s) = []"
    using fresh by (auto simp: filter_empty_conv image_iff)
  then have "filter (\<lambda>k. k_token k = HashToken rt (er_token res)) (workers t) =
      [enrolled_row now' (er_worker res) (c_owner c) name (enroll_kind hw) (HashToken rt (er_token res))]"
    unfolding ws by (simp add: enrolled_row_def)
  then show ?thesis
    using ok own kind by (simp add: AuthenticateWorker_def run_simps one_row_def unordered_def enrolled_row_def enroll_kind_def)
qed

lemma ws_open_accepted:
  assumes "bearer_token header \<noteq> []"
    and "fst (run_state (AuthenticateWorker rt (wall w) (bearer_token header)) (wdb w)) = Inr (i, a, k)"
  shows "fst (run_state (ws_open rt header True c) w) = Some (i, a)"
  using assms by (cases "run_state (AuthenticateWorker rt (wall w) (bearer_token header)) (wdb w)")
    (simp add: ws_open_def Let_def split: prod.splits)

subsection \<open>From the command to the connection\<close>

text \<open>
  What is relied on of \<open>crypto/rand\<close> and SHA-256: a read fills the buffer, and the hash of a token made from it is
  not one that the database holds already.
\<close>

definition new_tokens :: "runtime \<Rightarrow> db \<Rightarrow> bool" where
  "new_tokens rt d \<longleftrightarrow> (\<forall>n b. rand_bytes rt n 32 = Some b \<longrightarrow>
     length b = 32 \<and> HashToken rt (EncodeToString b) \<notin> k_token ` set (workers d))"

lemma cmdEnroll_Inr:
  assumes "cmdEnroll mc join post can_save args = Inr (path, cfg)"
  obtains url code nm body where "snd (snd (enroll_args args ([], [], []))) = [url, code]"
    and "post (trim_suffix ''/'' url @ ''/api/swarm/enroll'') (code, nm, (detectHardware mc)\<lparr>node_hardware.hw_kind := ''native''\<rparr>) = Some (201, body)"
    and "\<And>i t u. body = Credentials i t u \<Longrightarrow> fc_worker_id cfg = i \<and> fc_token cfg = t \<and> fc_wss_url cfg = u"
proof -
  obtain nm cf pos where p: "enroll_args args ([], [], []) = (nm, cf, pos)" by (metis prod_cases3)
  with assms obtain url code where "pos = [url, code]"
    by (auto simp: cmdEnroll_def split: list.splits)
  with assms p that show thesis
    by (fastforce simp: cmdEnroll_def Let_def split: option.splits if_splits enroll_body.splits)
qed

lemma handleEnroll_credentials:
  assumes "enroll_answer text_of (fst (run_state (handleEnroll E (Some (code, nm, hw))) w)) = (201, body)"
  shows "\<exists>res. run_state (Enroll (ae_rt E) code nm hw) (wdb w) =
      (Inr res, wdb (snd (run_state (handleEnroll E (Some (code, nm, hw))) w))) \<and>
    body = Credentials (er_worker res) (er_token res) (wssURL (ae_cfg E))"
proof -
  obtain r d where run: "run_state (Enroll (ae_rt E) code nm hw) (wdb w) = (r, d)" by fastforce
  have h: "run_state (handleEnroll E (Some (code, nm, hw))) w = (if TrimSpace nm = [] then (Err 400 ''bad_request'', w)
      else (case r of Inl _ \<Rightarrow> Err 404 ''code_invalid'' | Inr res \<Rightarrow> Reply 201 (er_worker res, er_token res, wssURL (ae_cfg E)), w\<lparr>wdb := d\<rparr>))"
    by (simp add: handleEnroll_def decoded_def guard_def lookup_or_def run split: sum.splits)
  with assms obtain res where "r = Inr res" "TrimSpace nm \<noteq> []" "body = Credentials (er_worker res) (er_token res) (wssURL (ae_cfg E))"
    by (cases r) (simp_all add: enroll_answer_def split: if_splits)
  then show ?thesis unfolding h by (simp add: run)
qed

lemma Enroll_env: "run_state (Enroll rt code name hw) s = (r, t) \<Longrightarrow> env t = env s"
  using relatesD [OF frame_Enroll [of rt code name hw], of s] by (simp add: only_def)

text \<open>
  C10. A machine that has enrolled can connect: when \<open>enroll\<close> ends with status 0, it has written a configuration
  with which \<open>run\<close> starts, and the websocket endpoint of the server accepts the header that \<open>run\<close> sends, for the
  worker of that configuration and the owner of the join code that was typed. The random bytes are new.
\<close>

theorem enrolled_machine_connects:
  assumes main: "worker_main mc join (enroll_post E text_of w) can_save enc dec (''enroll'' # args) ts s net d = (Some 0, d', out)"
    and json: "\<And>c. dec (enc c) = Some c" and db: "faultless (wdb w)"
    and rand: "new_tokens (ae_rt E) (wdb w)"
  defines "h \<equiv> wire_hardware ((detectHardware mc)\<lparr>node_hardware.hw_kind := ''native''\<rparr>)"
  shows "\<exists>path cfg url code nm c. snd (snd (enroll_args args ([], [], []))) = [url, code] \<and> d' = d(path \<mapsto> enc cfg) \<and>
    cmdRun mc join (loadConfig dec d') [''--config'', path] ts s net = Some (run_loop mc ts second
      \<lparr>nd_cfg = cfg, nd_jobs = [], nd_os = s, nd_sent = [], nd_sends = 0, nd_net = net\<rparr>) \<and>
    c \<in> set (codes (wdb w)) \<and> redeemable (db_now (wdb w)) c \<and>
    bcrypt_cmp (ae_rt E) (c_hash c) (NormalizeCode (ae_rt E) code) \<and>
    fst (run_state (ws_open (ae_rt E) (session_header cfg) True conn)
      (snd (run_state (handleEnroll E (Some (code, nm, h))) w))) = Some (fc_worker_id cfg, c_owner c)"
proof -
  from main obtain path cfg where e: "cmdEnroll mc join (enroll_post E text_of w) can_save args = Inr (path, cfg)"
    and d': "d' = d(path \<mapsto> enc cfg)"
    by (auto simp: worker_main_def saveConfig_def split: sum.splits)
  from e obtain url code nm body where args: "snd (snd (enroll_args args ([], [], []))) = [url, code]"
    and post: "enroll_answer text_of (fst (run_state (handleEnroll E (Some (code, nm, h))) w)) = (201, body)"
    and cfg: "\<And>i t u. body = Credentials i t u \<Longrightarrow> fc_worker_id cfg = i \<and> fc_token cfg = t \<and> fc_wss_url cfg = u"
    by (rule cmdEnroll_Inr) (auto simp: enroll_post_def h_def)
  from handleEnroll_credentials [OF post] obtain res where
    enr: "run_state (Enroll (ae_rt E) code nm h) (wdb w) = (Inr res, wdb (snd (run_state (handleEnroll E (Some (code, nm, h))) w)))"
    and body: "body = Credentials (er_worker res) (er_token res) (wssURL (ae_cfg E))" by blast
  have tok: "fc_token cfg = er_token res" "fc_worker_id cfg = er_worker res" using cfg [OF body] by simp_all
  from Enroll_token [OF enr] obtain n b where b: "rand_bytes (ae_rt E) n 32 = Some b" "er_token res = EncodeToString b" by blast
  then have new: "er_token res \<noteq> []" "HashToken (ae_rt E) (er_token res) \<notin> k_token ` set (workers (wdb w))"
    and trim: "TrimSpace (er_token res) = er_token res"
    using rand [unfolded new_tokens_def, rule_format, OF b(1)]
    by (auto simp: TrimSpace_printable [OF EncodeToString_printable])
  from Enroll_Inr [OF enr] obtain c :: code_row where c: "c \<in> set (codes (wdb w))" "redeemable (db_now (wdb w)) c"
    "bcrypt_cmp (ae_rt E) (c_hash c) (NormalizeCode (ae_rt E) code)" "er_owner res = c_owner c" by blast
  let ?w = "snd (run_state (handleEnroll E (Some (code, nm, h))) w)"
  have "fst (run_state (AuthenticateWorker (ae_rt E) (wall ?w) (er_token res)) (wdb ?w)) = Inr (er_worker res, er_owner res, ''native'')"
    using new(2) db Enroll_env [OF enr] by (intro Enroll_authenticates [OF enr]) (simp_all add: h_def wire_hardware_def hardware.make_def faultless_def)
  then have "fst (run_state (ws_open (ae_rt E) (session_header cfg) True conn) ?w) = Some (fc_worker_id cfg, c_owner c)"
    using new(1) c(4) by (intro ws_open_accepted) (simp_all add: bearer_of_header tok trim)
  with args c(1-3) d' json show ?thesis
    by (intro exI [of _ path] exI [of _ cfg] exI [of _ url] exI [of _ code] exI [of _ nm] exI [of _ c])
      (simp add: cmdRun_def loadConfig_def)
qed

text \<open>A machine enrolls with a fresh code.\<close>

definition joining_world :: world where
  "joining_world = hub_idle\<lparr>wdb := one_code_db\<rparr>"

definition joining_main :: "int option \<times> (string \<Rightarrow> file_config option) \<times> (int list \<times> node) option" where
  "joining_main = worker_main demo_machine concat (enroll_post demo_api id joining_world) (\<lambda>_. True) id Some
     (''enroll'' # [''https://m.example/'', ''0123-4567-89'']) [] demo_os (\<lambda>_. True) Map.empty"

lemma joining_code: "NormalizeCode sample_rt ''0123-4567-89'' = ''0123456789''"
  by (simp add: NormalizeCode_def strip_dashes_def ToUpper_def is_ascii_def upper_char_def map_lookalike_def sample_rt_def)

lemma joining_enrolled:
  assumes "hardware.hw_kind h = ''native''" "int4 (hw_cores h)" "int4 (hw_vram h)"
  shows "\<exists>res t. run_state (Enroll sample_rt ''0123-4567-89'' nm h) one_code_db = (Inr res, t)"
  using assms unfolding Enroll_def joining_code Let_def enroll_kind_def
  by (simp add: find_code_def enroll_match_def code_candidates_def run_simps NewWorkerToken_def enroll_eval
      one_code_db_def sample_defs Let_def split: prod.splits)

lemma joining_handled:
  "\<exists>x. fst (run_state (handleEnroll demo_api (Some (''0123-4567-89'', ''rig'',
     wire_hardware ((detectHardware demo_machine)\<lparr>node_hardware.hw_kind := ''native''\<rparr>)))) joining_world) = Reply 201 x"
proof -
  let ?h = "wire_hardware ((detectHardware demo_machine)\<lparr>node_hardware.hw_kind := ''native''\<rparr>)"
  have "hardware.hw_kind ?h = ''native'' \<and> int4 (hw_cores ?h) \<and> int4 (hw_vram ?h)"
    by (simp add: wire_hardware_def hardware.make_def detectHardware_def demo_machine_def int4_def)
  then obtain res t where "run_state (Enroll sample_rt ''0123-4567-89'' ''rig'' ?h) one_code_db = (Inr res, t)"
    using joining_enrolled by blast
  then show ?thesis
    by (simp add: handleEnroll_def decoded_def guard_def lookup_or_def joining_world_def demo_api_def trim_demo)
qed

lemma joining_succeeds: "fst joining_main = Some 0"
proof -
  obtain i t u where "fst (run_state (handleEnroll demo_api (Some (''0123-4567-89'', ''rig'',
     wire_hardware ((detectHardware demo_machine)\<lparr>node_hardware.hw_kind := ''native''\<rparr>)))) joining_world) = Reply 201 (i, t, u)"
    using joining_handled by (metis prod_cases3)
  moreover have "mc_hostname demo_machine = ''rig''" by (simp add: demo_machine_def)
  ultimately show ?thesis
    by (simp add: joining_main_def worker_main_def cmdEnroll_def enroll_post_def enroll_answer_def Let_def)
qed

lemma joining_token: "new_tokens (ae_rt demo_api) (wdb joining_world)"
  by (auto simp: new_tokens_def demo_api_def joining_world_def one_code_db_def sample_defs HashToken_def)

theorem enrolled_machine_connects_witness:
  "\<exists>path cfg nm h. fst (snd joining_main) = [path \<mapsto> cfg] \<and>
     fst (run_state (ws_open sample_rt (session_header cfg) True 0)
       (snd (run_state (handleEnroll demo_api (Some (''0123-4567-89'', nm, h))) joining_world))) = Some (fc_worker_id cfg, ''alice'')"
proof -
  obtain d' out where main: "joining_main = (Some 0, d', out)" using joining_succeeds by (metis prod.collapse)
  have db: "faultless (wdb joining_world)" "codes (wdb joining_world) = [sample_code ''k1'' ''alice'' ''0123456789'' None]"
    by (simp_all add: joining_world_def one_code_db_def sample_data faultless_def)
  have json: "Some (id c) = Some c" for c :: file_config by simp
  have rt: "ae_rt demo_api = sample_rt" by (simp add: demo_api_def)
  have "\<exists>path cfg url code nm c. [url, code] = [''https://m.example/'', ''0123-4567-89''] \<and> d' = [path \<mapsto> cfg] \<and>
      c \<in> set (codes (wdb joining_world)) \<and>
      fst (run_state (ws_open sample_rt (session_header cfg) True 0) (snd (run_state (handleEnroll demo_api (Some (code, nm,
        wire_hardware ((detectHardware demo_machine)\<lparr>node_hardware.hw_kind := ''native''\<rparr>)))) joining_world))) =
        Some (fc_worker_id cfg, c_owner c)"
    using enrolled_machine_connects [OF main [unfolded joining_main_def] json db(1) joining_token, where conn = 0]
    unfolding rt id_apply by (elim exE conjE) force
  then show ?thesis unfolding main db(2) by (auto simp: sample_code_def)
qed

end
