(* ===== verification/Routes.thy ===== *)
theory Routes
  imports Api
begin

text \<open>
  The router (\<open>Router\<close> of \<open>internal/api/server.go\<close>): the table of its patterns, the matching of
  \<open>net/http.ServeMux\<close> for them (a literal segment matches itself, \<open>{id}\<close> a segment that is not empty, and a
  \<open>GET\<close> pattern also \<open>HEAD\<close>; 405 when only the method differs), and the handler behind every pattern. A request
  has its path as clean segments and its body as text; the decoders of the bodies are parameters. The websocket
  of the workers is dispatched to \<open>ws_open\<close>.
\<close>

datatype segment = Fixed string | Wild

datatype api_endpoint = ListCurrenciesE | GetCurrencyE | ListWalletsE | CreateWalletE | DeleteWalletE
  | ListMinersE | CreateMinerE | GetMinerE | PatchMinerE | DeleteMinerE | StartMinerE | StopMinerE
  | MinerAllocationE | MinerHistoryE | MinerMetricsE | ListWorkersE | GetWorkerE | RevokeWorkerE | DeleteWorkerE
  | ListJoinCodesE | CreateJoinCodeE | DeleteJoinCodeE | SwarmStatsE | ListPayoutsE | ListBlocksFoundE
  | ListSettingsE | PutSettingE | ListCurrencySettingsE | PutCurrencySettingE | ListExchangeSettingsE
  | PutExchangeSettingE | EventsE

datatype endpoint = Healthz | EnrollE | JoinInfoE | WorkerWS | Authed api_endpoint

type_synonym route = "string \<times> segment list \<times> endpoint"

definition public_routes :: "route list" where
  "public_routes =
     [(''GET'', [Fixed ''v1'', Fixed ''healthz''], Healthz),
      (''POST'', [Fixed ''v1'', Fixed ''swarm'', Fixed ''enroll''], EnrollE),
      (''GET'', [Fixed ''v1'', Fixed ''public'', Fixed ''join-info''], JoinInfoE),
      (''GET'', [Fixed ''v1'', Fixed ''swarm'', Fixed ''ws''], WorkerWS)]"

definition authed_routes :: "(string \<times> segment list \<times> api_endpoint) list" where
  "authed_routes =
     [(''GET'', [Fixed ''currencies''], ListCurrenciesE), (''GET'', [Fixed ''currencies'', Wild], GetCurrencyE),
      (''GET'', [Fixed ''wallets''], ListWalletsE), (''POST'', [Fixed ''wallets''], CreateWalletE),
      (''DELETE'', [Fixed ''wallets'', Wild], DeleteWalletE),
      (''GET'', [Fixed ''miners''], ListMinersE), (''POST'', [Fixed ''miners''], CreateMinerE),
      (''GET'', [Fixed ''miners'', Wild], GetMinerE), (''PATCH'', [Fixed ''miners'', Wild], PatchMinerE),
      (''DELETE'', [Fixed ''miners'', Wild], DeleteMinerE),
      (''POST'', [Fixed ''miners'', Wild, Fixed ''start''], StartMinerE), (''POST'', [Fixed ''miners'', Wild, Fixed ''stop''], StopMinerE),
      (''POST'', [Fixed ''miners'', Wild, Fixed ''allocation''], MinerAllocationE),
      (''GET'', [Fixed ''miners'', Wild, Fixed ''history''], MinerHistoryE), (''GET'', [Fixed ''miners'', Wild, Fixed ''metrics''], MinerMetricsE),
      (''GET'', [Fixed ''workers''], ListWorkersE), (''GET'', [Fixed ''workers'', Wild], GetWorkerE),
      (''POST'', [Fixed ''workers'', Wild, Fixed ''revoke''], RevokeWorkerE), (''DELETE'', [Fixed ''workers'', Wild], DeleteWorkerE),
      (''GET'', [Fixed ''swarm'', Fixed ''join-codes''], ListJoinCodesE), (''POST'', [Fixed ''swarm'', Fixed ''join-codes''], CreateJoinCodeE),
      (''DELETE'', [Fixed ''swarm'', Fixed ''join-codes'', Wild], DeleteJoinCodeE), (''GET'', [Fixed ''swarm'', Fixed ''stats''], SwarmStatsE),
      (''GET'', [Fixed ''payouts''], ListPayoutsE), (''GET'', [Fixed ''blocks-found''], ListBlocksFoundE),
      (''GET'', [Fixed ''settings''], ListSettingsE), (''PUT'', [Fixed ''settings'', Wild], PutSettingE),
      (''GET'', [Fixed ''currency-settings''], ListCurrencySettingsE), (''PUT'', [Fixed ''currency-settings'', Wild], PutCurrencySettingE),
      (''GET'', [Fixed ''exchange-settings''], ListExchangeSettingsE), (''PUT'', [Fixed ''exchange-settings'', Wild], PutExchangeSettingE),
      (''GET'', [Fixed ''events''], EventsE)]"

definition routes :: "route list" where
  "routes = public_routes @ map (\<lambda>(m, p, e). (m, Fixed ''v1'' # p, Authed e)) authed_routes"

subsection \<open>Matching\<close>

fun seg_match :: "segment list \<Rightarrow> string list \<Rightarrow> string list option" where
  "seg_match [] [] = Some []"
| "seg_match (Fixed s # ps) (x # xs) = (if s = x then seg_match ps xs else None)"
| "seg_match (Wild # ps) (x # xs) = (if x = [] then None else map_option ((#) x) (seg_match ps xs))"
| "seg_match ps xs = None"

definition method_ok :: "string \<Rightarrow> string \<Rightarrow> bool" where
  "method_ok pat meth \<longleftrightarrow> pat = meth \<or> pat = ''GET'' \<and> meth = ''HEAD''"

text \<open>The handler with the values of the wildcards, or the status of the answer.\<close>

definition dispatch :: "string \<Rightarrow> string list \<Rightarrow> int + (endpoint \<times> string list)" where
  "dispatch meth path = (case find (\<lambda>(m, p, e). method_ok m meth \<and> seg_match p path \<noteq> None) routes of
     Some (m, p, e) \<Rightarrow> Inr (e, the (seg_match p path))
   | None \<Rightarrow> Inl (if list_ex (\<lambda>(m, p, e). seg_match p path \<noteq> None) routes then 405 else 404))"

subsection \<open>Requests\<close>

record request =
  rq_meth :: string
  rq_path :: "string list"
  rq_query :: "string \<Rightarrow> string"
  rq_auth :: string
  rq_origin :: string
  rq_forwarded :: string
  rq_remote :: string
  rq_body :: string

record decoders =
  dc_wallet :: "string \<Rightarrow> wallet_req option"
  dc_miner :: "string \<Rightarrow> miner_req option"
  dc_patch :: "string \<Rightarrow> (string option \<times> string option \<times> string option) option"
  dc_alloc :: "string \<Rightarrow> (int \<times> int) option"
  dc_setting :: "string \<Rightarrow> (nat \<times> json) option option"
  dc_curset :: "string \<Rightarrow> currency_setting_req option"
  dc_exchange :: "string \<Rightarrow> (string list option \<times> string) option"
  dc_enroll :: "string \<Rightarrow> (string \<times> string \<times> hardware) option"

text \<open>What the server finds outside when the request arrives: the clock, the answer of the key server, \<open>Ping\<close>,
  whether a websocket is accepted, and the number of its connection.\<close>

record arrival =
  ar_now :: int
  ar_jwks :: jwks_answer
  ar_ping :: bool
  ar_accept :: bool
  ar_conn :: nat

subsection \<open>Handlers\<close>

text \<open>The answer without its value: the status, and the code of an error.\<close>

definition answer :: "(world, 'a reply) state \<Rightarrow> (world, unit reply) state" where
  "answer m = do { r \<leftarrow> m; ret (map_reply (\<lambda>_. ()) r) }"

definition api_handler :: "api_env \<Rightarrow> decoders \<Rightarrow> request \<Rightarrow> string list \<Rightarrow> api_endpoint \<Rightarrow> string \<Rightarrow> (world, unit reply) state" where
  "api_handler E D rq args ep owner = (let i = hd args; q = rq_query rq; b = rq_body rq in case ep of
     ListCurrenciesE \<Rightarrow> answer handleListCurrencies
   | GetCurrencyE \<Rightarrow> answer (handleGetCurrency E i)
   | ListWalletsE \<Rightarrow> answer (handleListWallets owner)
   | CreateWalletE \<Rightarrow> answer (handleCreateWallet E owner (dc_wallet D b))
   | DeleteWalletE \<Rightarrow> answer (handleDeleteWallet owner i)
   | ListMinersE \<Rightarrow> answer (handleListMiners owner)
   | CreateMinerE \<Rightarrow> answer (handleCreateMiner E owner (dc_miner D b))
   | GetMinerE \<Rightarrow> answer (handleGetMiner owner i)
   | PatchMinerE \<Rightarrow> answer (handlePatchMiner E owner i (dc_patch D b))
   | DeleteMinerE \<Rightarrow> answer (handleDeleteMiner owner i)
   | StartMinerE \<Rightarrow> answer (handleStartMiner owner i)
   | StopMinerE \<Rightarrow> answer (handleStopMiner owner i)
   | MinerAllocationE \<Rightarrow> answer (handleMinerAllocation owner i (dc_alloc D b))
   | MinerHistoryE \<Rightarrow> answer (handleMinerHistory E owner i (q ''resolution'') (q ''from'') (q ''to''))
   | MinerMetricsE \<Rightarrow> answer (handleMinerMetrics owner i (q ''limit''))
   | ListWorkersE \<Rightarrow> answer (handleListWorkers owner)
   | GetWorkerE \<Rightarrow> answer (handleGetWorker owner i)
   | RevokeWorkerE \<Rightarrow> answer (handleRevokeWorker owner i)
   | DeleteWorkerE \<Rightarrow> answer (handleDeleteWorker owner i)
   | ListJoinCodesE \<Rightarrow> answer (handleListJoinCodes owner)
   | CreateJoinCodeE \<Rightarrow> answer (handleCreateJoinCode E owner)
   | DeleteJoinCodeE \<Rightarrow> answer (handleDeleteJoinCode owner i)
   | SwarmStatsE \<Rightarrow> answer (handleSwarmStats owner)
   | ListPayoutsE \<Rightarrow> answer (handleListPayouts E owner (q ''limit'') (q ''offset'') (q ''currency''))
   | ListBlocksFoundE \<Rightarrow> answer (handleListBlocksFound owner)
   | ListSettingsE \<Rightarrow> answer (handleListSettings owner)
   | PutSettingE \<Rightarrow> answer (handlePutSetting owner i (dc_setting D b))
   | ListCurrencySettingsE \<Rightarrow> answer (handleListCurrencySettings owner)
   | PutCurrencySettingE \<Rightarrow> answer (handlePutCurrencySetting E owner i (dc_curset D b))
   | ListExchangeSettingsE \<Rightarrow> answer (handleListExchangeSettings owner)
   | PutExchangeSettingE \<Rightarrow> answer (handlePutExchangeSetting E owner i (dc_exchange D b))
   | EventsE \<Rightarrow> answer (events_open owner))"

text \<open>The public routes; a websocket with a bad token is answered with 401, which here also stands for the answer of the
  websocket library when it does not accept the connection.\<close>

definition Router :: "api_env \<Rightarrow> decoders \<Rightarrow> jwt_lib \<Rightarrow> 'b buckets \<Rightarrow> arrival \<Rightarrow> request \<Rightarrow> ('b server, unit reply) state" where
  "Router E D lib B A rq = (case dispatch (rq_meth rq) (rq_path rq) of
     Inl status \<Rightarrow> ret (Err status [])
   | Inr (ep, args) \<Rightarrow> (case ep of
       Healthz \<Rightarrow> ret (map_reply (\<lambda>_. ()) (handleHealthz E (ar_ping A)))
     | EnrollE \<Rightarrow> enroll_route B (ar_now A) (rq_forwarded rq) (rq_remote rq) (answer (handleEnroll E (dc_enroll D (rq_body rq))))
     | JoinInfoE \<Rightarrow> join_route B (ar_now A) (rq_forwarded rq) (rq_remote rq) (answer (handleJoinInfo E (rq_query rq ''code'')))
     | WorkerWS \<Rightarrow> on_world (do {
         r \<leftarrow> ws_open (ae_rt E) (rq_auth rq) (ar_accept A) (ar_conn A);
         ret (case r of None \<Rightarrow> Err 401 ''unauthorized'' | Some _ \<Rightarrow> Reply 101 ()) })
     | Authed e \<Rightarrow> authed lib B (ar_jwks A) (ar_now A) (rq_auth rq) (api_handler E D rq args e)))"

definition serve :: "api_env \<Rightarrow> decoders \<Rightarrow> jwt_lib \<Rightarrow> 'b buckets \<Rightarrow> arrival \<Rightarrow> request \<Rightarrow> ('b server, unit reply) state" where
  "serve E D lib B A rq = (if snd (cors (ae_cfg E) (rq_origin rq) (rq_meth rq)) then ret (Reply 204 ()) else Router E D lib B A rq)"

subsection \<open>The table has no conflicts\<close>

text \<open>Two patterns overlap when some path matches both.\<close>

fun overlap :: "segment list \<Rightarrow> segment list \<Rightarrow> bool" where
  "overlap [] [] = True"
| "overlap (Fixed s # ps) (Fixed t # qs) = (s = t \<and> overlap ps qs)"
| "overlap (Fixed s # ps) (Wild # qs) = (s \<noteq> [] \<and> overlap ps qs)"
| "overlap (Wild # ps) (Fixed s # qs) = (s \<noteq> [] \<and> overlap ps qs)"
| "overlap (Wild # ps) (Wild # qs) = overlap ps qs"
| "overlap ps qs = False"

lemma overlap_complete: "seg_match p xs \<noteq> None \<Longrightarrow> seg_match q xs \<noteq> None \<Longrightarrow> overlap p q"
proof (induction p xs arbitrary: q rule: seg_match.induct)
  case 1
  then show ?case by (cases q) (auto elim: seg_match.elims)
next
  case (2 s ps x xs)
  then show ?case by (cases q; cases "hd q") (auto split: if_splits)
next
  case (3 ps x xs)
  then show ?case by (cases q; cases "hd q") (auto split: if_splits)
qed auto

definition conflict :: "route \<Rightarrow> route \<Rightarrow> bool" where
  "conflict r r' \<longleftrightarrow> (fst r = fst r') \<and> overlap (fst (snd r)) (fst (snd r'))"

lemma no_conflicts: "sorted_wrt (\<lambda>r r'. \<not> conflict r r') routes"
  by code_simp

lemma no_head: "r \<in> set routes \<Longrightarrow> fst r \<noteq> ''HEAD''"
proof -
  have "list_all (\<lambda>r. fst r \<noteq> ''HEAD'') routes" by code_simp
  then show "r \<in> set routes \<Longrightarrow> fst r \<noteq> ''HEAD''" by (simp add: list_all_iff)
qed

end
