(* ===== verification/RouteProps.thy ===== *)
theory RouteProps
  imports Routes ApiProps Tenancy StoreProps
begin

text \<open>
  What holds of whole requests: the pattern that answers is determined by the table and not by its order,
  without a token only an enrollment or a worker's websocket changes anything, and a request of one tenant
  leaves the others' rows alone.
\<close>

subsection \<open>Dispatching\<close>

lemma find_unique:
  "sorted_wrt (\<lambda>x y. \<not> C x y) xs \<Longrightarrow> (\<And>x y. x \<in> set xs \<Longrightarrow> y \<in> set xs \<Longrightarrow> P x \<Longrightarrow> P y \<Longrightarrow> C x y) \<Longrightarrow>
   x \<in> set xs \<Longrightarrow> P x \<Longrightarrow> find P xs = Some x"
  by (induction xs) auto

lemma method_ok_same: "method_ok m meth \<Longrightarrow> method_ok n meth \<Longrightarrow> m \<noteq> ''HEAD'' \<Longrightarrow> n \<noteq> ''HEAD'' \<Longrightarrow> m = n"
  by (auto simp: method_ok_def)

text \<open>
  The router is a table and not a program: a pattern that matches the method and the path of a request
  gets the request, with the values of its wildcards, wherever it stands among the other patterns.
\<close>

theorem dispatch_determined:
  assumes "(m, p, e) \<in> set routes" and "method_ok m meth" and "seg_match p path = Some args"
  shows "dispatch meth path = Inr (e, args)"
proof -
  let ?P = "\<lambda>(m, p, e). method_ok m meth \<and> seg_match p path \<noteq> None"
  have "conflict x y" if "x \<in> set routes" "y \<in> set routes" "?P x" "?P y" for x y
    using that no_head [OF that(1)] no_head [OF that(2)]
    by (auto simp: conflict_def intro: method_ok_same overlap_complete [of _ path])
  then have "find ?P routes = Some (m, p, e)"
    using assms by (intro find_unique [OF no_conflicts]) auto
  then show ?thesis using assms(3) by (simp add: dispatch_def)
qed

theorem dispatch_determined_witness:
  "dispatch ''HEAD'' [''v1'', ''miners'', ''m1'', ''history''] = Inr (Authed MinerHistoryE, [''m1''])"
proof -
  have "(''GET'', [Fixed ''v1'', Fixed ''miners'', Wild, Fixed ''history''], Authed MinerHistoryE) \<in> set routes"
    by (simp add: routes_def authed_routes_def)
  then show ?thesis by (rule dispatch_determined) (simp_all add: method_ok_def)
qed

subsection \<open>Without a token\<close>

definition quiet :: "table set \<Rightarrow> world \<Rightarrow> world \<Rightarrow> bool" where
  "quiet T w w' \<longleftrightarrow> only T (wdb w) (wdb w') \<and> w' = w\<lparr>wdb := wdb w'\<rparr>"

lemma quiet_refl [simp]: "quiet T w w"
  by (simp add: quiet_def reflpD [OF only_reflp])

lemma CheckCode_reads: "relates (only {}) (CheckCode rt code)"
  unfolding CheckCode_def code_candidates_def by (intro relates_intros)

lemma handleJoinInfo_quiet: "run_state (handleJoinInfo E code) w = (r, w') \<Longrightarrow> quiet {} w w'"
  using relatesD [OF CheckCode_reads, of "wdb w" "ae_rt E" code]
  by (auto simp: handleJoinInfo_def lookup_or_def quiet_def split: prod.splits sum.splits)

lemma handleEnroll_quiet:
  assumes "run_state (handleEnroll E body) w = (r, w')"
  shows "quiet {} w w' \<or> status_of r = 201 \<and> quiet {Workers, CodesT} w w'"
proof (cases "\<exists>code name hw. body = Some (code, name, hw) \<and> TrimSpace name \<noteq> []")
  case True
  then obtain code name hw where body: "body = Some (code, name, hw)" "TrimSpace name \<noteq> []" by blast
  obtain x d where run: "run_state (Enroll (ae_rt E) code name hw) (wdb w) = (x, d)" by fastforce
  have w': "w' = w\<lparr>wdb := d\<rparr>" using assms by (auto simp: handleEnroll_def decoded_def guard_def body lookup_or_def run split: sum.splits)
  show ?thesis
  proof (cases x)
    case (Inl e)
    then show ?thesis using Enroll_Inl run w' by (auto simp: quiet_def)
  next
    case (Inr res)
    have "only {Workers, CodesT} (wdb w) d"
      using relatesD [OF frame_Enroll, of "wdb w" "ae_rt E" code name hw] run by simp
    then show ?thesis
      using assms w' Inr by (auto simp: quiet_def handleEnroll_def decoded_def guard_def body lookup_or_def run)
  qed
next
  case False
  then have "w' = w" using assms by (auto simp: handleEnroll_def decoded_def guard_def split: option.splits if_splits)
  then show ?thesis by simp
qed

lemma answer_run: "run_state (answer m) w = (r, w') \<longleftrightarrow> (\<exists>x. run_state m w = (x, w') \<and> r = map_reply (\<lambda>_. ()) x)"
  by (auto simp: answer_def split: prod.splits)

lemma status_map [simp]: "status_of (map_reply f r) = status_of r"
  by (cases r) simp_all

lemma ws_open_refused:
  assumes "run_state (ws_open rt header accept c) w = (None, w')"
  shows "quiet {} w w'"
proof -
  have "relates (only {}) (AuthenticateWorker rt now token)" for now token
    unfolding AuthenticateWorker_def by (intro relates_intros)
  from relatesD [OF this, of "wdb w" "wall w" "bearer_token header"] assms show ?thesis
    by (auto simp: ws_open_def Let_def quiet_def split: if_splits sum.splits prod.splits)
qed

text \<open>
  C4. A request whose token is not accepted changes nothing, unless it is an enrollment that succeeds, which
  writes to the workers and the join codes only, or a worker's websocket that is accepted for its own token;
  and a route of the API answers it with 401.
\<close>

theorem serve_without_token:
  assumes "fst (auth_Middleware lib (ar_jwks A) (ar_now A) (rq_auth rq) (sv_auth s)) = None"
    and "run_state (serve E D lib B A rq) s = (r, s')"
  defines "w \<equiv> sv_world s" and "w' \<equiv> sv_world s'"
  shows "(quiet {} w w' \<or>
     (\<exists>args. dispatch (rq_meth rq) (rq_path rq) = Inr (EnrollE, args) \<and> status_of r = 201 \<and> quiet {Workers, CodesT} w w') \<or>
     (\<exists>args x. dispatch (rq_meth rq) (rq_path rq) = Inr (WorkerWS, args) \<and>
        run_state (ws_open (ae_rt E) (rq_auth rq) (ar_accept A) (ar_conn A)) w = (Some x, w'))) \<and>
    (\<forall>e args. dispatch (rq_meth rq) (rq_path rq) = Inr (Authed e, args) \<longrightarrow> rq_meth rq \<noteq> ''OPTIONS'' \<longrightarrow> r = Err 401 ''unauthorized'')"
proof (cases "rq_meth rq = ''OPTIONS''")
  case True
  then show ?thesis using assms(2) by (simp add: serve_def cors_def w_def w'_def)
next
  case False
  then have run: "run_state (Router E D lib B A rq) s = (r, s')" using assms(2) by (simp add: serve_def cors_def)
  show ?thesis
  proof (cases "dispatch (rq_meth rq) (rq_path rq)")
    case (Inl n)
    then show ?thesis using run by (auto simp: Router_def w_def w'_def)
  next
    case (Inr ea)
    obtain e args where ea: "ea = (e, args)" by fastforce
    show ?thesis
    proof (cases e)
      case Healthz
      then show ?thesis using run by (auto simp: Router_def Inr ea w_def w'_def)
    next
      case EnrollE
      then show ?thesis using run handleEnroll_quiet
        by (fastforce simp: Router_def Inr ea w_def w'_def enroll_route_def run_zoom answer_run split: if_splits prod.splits)
    next
      case JoinInfoE
      then show ?thesis using run handleJoinInfo_quiet
        by (fastforce simp: Router_def Inr ea w_def w'_def join_route_def run_zoom answer_run split: if_splits prod.splits)
    next
      case WorkerWS
      then show ?thesis using run ws_open_refused
        by (fastforce simp: Router_def Inr ea w_def w'_def run_zoom split: option.splits prod.splits)
    next
      case (Authed x)
      then show ?thesis using run assms(1) by (auto simp: Router_def Inr ea w_def w'_def authed_def split: option.splits)
    qed
  qed
qed

text \<open>A request with a malformed header.\<close>

definition bare_request :: request where
  "bare_request = \<lparr>rq_meth = ''DELETE'', rq_path = [''v1'', ''miners'', ''m''], rq_query = (\<lambda>_. []), rq_auth = ''tok'',
     rq_origin = [], rq_forwarded = [], rq_remote = [], rq_body = []\<rparr>"

definition demo_decoders :: decoders where
  "demo_decoders = \<lparr>dc_wallet = (\<lambda>_. None), dc_miner = (\<lambda>_. None), dc_patch = (\<lambda>_. None), dc_alloc = (\<lambda>_. None),
     dc_setting = (\<lambda>_. None), dc_curset = (\<lambda>_. None), dc_exchange = (\<lambda>_. None), dc_enroll = (\<lambda>_. None)\<rparr>"

definition demo_arrival :: arrival where
  "demo_arrival = \<lparr>ar_now = 5, ar_jwks = Some (200, Some [demo_jwk]), ar_ping = True, ar_accept = True, ar_conn = 9\<rparr>"

theorem serve_without_token_witness:
  "fst (run_state (serve demo_api demo_decoders demo_lib credit demo_arrival bare_request) demo_server) = Err 401 ''unauthorized''"
proof -
  obtain r s' where run: "run_state (serve demo_api demo_decoders demo_lib credit demo_arrival bare_request) demo_server = (r, s')" by fastforce
  have none: "fst (auth_Middleware demo_lib (ar_jwks demo_arrival) (ar_now demo_arrival) (rq_auth bare_request) (sv_auth demo_server)) = None"
    by (simp add: auth_Middleware_def bare_request_def)
  have "dispatch (rq_meth bare_request) (rq_path bare_request) = Inr (Authed DeleteMinerE, [''m''])" by code_simp
  moreover have "rq_meth bare_request \<noteq> ''OPTIONS''" by (simp add: bare_request_def)
  ultimately show ?thesis using serve_without_token [OF none run] run by simp
qed

end
