(* ===== verification/Isolation.thy ===== *)
theory Isolation
  imports RouteProps
begin

text \<open>
  Requests of one tenant and the rows of the others. Every endpoint of the API leaves the view of every other
  tenant as it was, with one exception: \<open>DELETE /v1/miners/{id}\<close>, which acts on the hub before the owner is
  checked (\<open>delete_foreign_miner\<close>).
\<close>

subsection \<open>The view of a tenant across a handler\<close>

definition spares :: "string \<Rightarrow> world \<Rightarrow> world \<Rightarrow> bool" where
  "spares b w w' \<longleftrightarrow> sees_same b (wdb w) (wdb w')"

lemma sees_same_self [simp]: "sees_same b s s"
  by (simp add: sees_same_def)

lemma spares_order [simp, relates_intros]: "reflp (spares b)" "transp (spares b)"
  by (auto simp: spares_def reflp_def transp_def intro: reflpD [OF sees_same_refl] transpD [OF sees_same_trans])

lemma on_db_spares [relates_intros]: "relates (sees_same b) m \<Longrightarrow> relates (spares b) (on_db m)"
  by (rule relates_zoom) (auto simp: spares_def)

lemma hub_spares [relates_intros]: "(\<And>w. wdb (f w) = wdb w) \<Longrightarrow> relates (spares b) (modify f)"
  "relates (spares b) (send c msg)" "relates (spares b) (shut_conn c)" "relates (spares b) (publish o1 ty dat)"
  by (auto intro!: relatesI simp: spares_def send_def reflpD [OF sees_same_refl])

lemma reply_spares [relates_intros]:
  "relates (sees_same b) m \<Longrightarrow> (\<And>x. relates (spares b) (k x)) \<Longrightarrow> relates (spares b) (stored c m k)"
  "relates (sees_same b) m' \<Longrightarrow> (\<And>x. relates (spares b) (k' x)) \<Longrightarrow> relates (spares b) (lookup_or r m' k')"
  "(\<And>x. relates (spares b) (k'' x)) \<Longrightarrow> relates (spares b) (decoded body k'')"
  "relates (spares b) n \<Longrightarrow> relates (spares b) (guard ok r' n)"
  "relates (spares b) n' \<Longrightarrow> relates (spares b) (answer n')"
  unfolding stored_def lookup_or_def decoded_def guard_def answer_def by (intro relates_intros; assumption)+

lemmas store_reads = ListCurrencies_def GetCurrency_def ListWallets_def WalletAddress_def ListMiners_def GetMiner_def
  CurrentRun_def ListRuns_def RecentMetrics_def HourlyRollups_def LiveHashrate_def ListPayouts_def ListBlocksFound_def
  Payouts24h_def Shares24h_def ListSettings_def ListCurrencySettings_def ListExchangeSettings_def GetWorker_def
  ListWorkers_def WorkersForMiner_def ActiveJobsForMiner_def Codes_List_def

lemma see_CreateMiner_for: "cm_owner p = a \<Longrightarrow> a \<noteq> b \<Longrightarrow> relates (sees_same b) (CreateMiner p)"
  using see_CreateMiner [of a b p] by (cases p) simp

lemmas see_writes = see_CreateWallet see_DeleteWallet see_PatchMiner see_SetMinerAllocation
  see_settings see_curset see_exchange see_RevokeWorker see_Codes_Create see_Codes_Revoke

lemma withLive_spares [relates_intros]: "relates (spares b) (withLive ms)"
  by (induction ms) (simp_all only: withLive.simps LiveHashrate_def, (intro relates_intros; assumption?)+)

lemma known_spares [relates_intros]: "relates (spares b) (known_currencies cs)"
  by (induction cs) (simp_all only: known_currencies.simps GetCurrency_def, (intro relates_intros; assumption?)+)

lemmas small_handlers = handleListCurrencies_def handleGetCurrency_def handleListWallets_def handleCreateWallet_def
  handleDeleteWallet_def handleListMiners_def handleGetMiner_def handleMinerHistory_def handleMinerMetrics_def
  handleListWorkers_def handleGetWorker_def handleListJoinCodes_def handleCreateJoinCode_def handleDeleteJoinCode_def
  handleSwarmStats_def LiveStats_def handleListPayouts_def handleListBlocksFound_def handleListSettings_def
  handlePutSetting_def handleListCurrencySettings_def handlePutCurrencySetting_def pool_checked_def
  handleListExchangeSettings_def handlePutExchangeSetting_def events_open_def

lemma handler_spares:
  assumes "a \<noteq> b" and "ep \<notin> {DeleteMinerE, StartMinerE, StopMinerE, DeleteWorkerE}"
  shows "relates (spares b) (api_handler E D rq args ep a)"
proof -
  note defs = api_handler_def Let_def api_endpoint.case
  note intros = on_db_spares reply_spares hub_spares relates_intros see_writes [OF assms(1)] see_CreateMiner_for [OF _ assms(1)] withLive_spares
  show ?thesis
  proof (cases ep)
    case CreateMinerE
    show ?thesis unfolding CreateMinerE defs handleCreateMiner_def resolve_pool_def pool_checked_def wallet_checked_def currencySettingFor_def store_reads
      by (intro intros) simp_all
  next
    case PatchMinerE
    show ?thesis unfolding PatchMinerE defs handlePatchMiner_def pool_checked_def wallet_checked_def store_reads
      by (intro intros)
  next
    case MinerAllocationE
    show ?thesis unfolding MinerAllocationE defs handleMinerAllocation_def AllocationUpdate_def store_reads
      by (intro intros)
  next
    case RevokeWorkerE
    show ?thesis unfolding RevokeWorkerE defs handleRevokeWorker_def Hub_RevokeWorker_def store_reads
      by (intro intros)
  qed ((use assms(2) in \<open>simp; fail\<close>) | (simp only: defs small_handlers store_reads, intro intros))+
qed

subsection \<open>Starting and stopping a miner\<close>

text \<open>None of the miners that the ids denote belongs to \<open>b\<close>; then a step spares \<open>b\<close> and the workers.\<close>

definition apart :: "string \<Rightarrow> string set \<Rightarrow> db \<Rightarrow> bool" where
  "apart b I d \<longleftrightarrow> (\<forall>i \<in> I. \<forall>m \<in> set (miners d). uuid_of (env d) i = Some (m_id m) \<longrightarrow> m_owner m \<noteq> b)"

definition mild :: "string \<Rightarrow> string set \<Rightarrow> db \<Rightarrow> db \<Rightarrow> bool" where
  "mild b I s t \<longleftrightarrow> (apart b I s \<longrightarrow> sees_same b s t \<and> env t = env s \<and> workers t = workers s)"

lemma apart_mine: "apart b I s \<Longrightarrow> i \<in> I \<Longrightarrow> uuid_of (env s) i = Some u \<Longrightarrow>
  u \<notin> m_id ` set (filter (\<lambda>m. m_owner m = b) (miners s))"
  by (auto simp: apart_def)

lemma apart_mild: "apart b I s \<Longrightarrow> mild b I s t \<Longrightarrow> apart b I t"
proof -
  assume a: "apart b I s" "mild b I s t"
  then have "filter (\<lambda>m. m_owner m = b) (miners t) = filter (\<lambda>m. m_owner m = b) (miners s)" "env t = env s"
    by (auto simp: mild_def sees_same_def tenant_view_def)
  then have "m \<in> set (miners s)" if "m \<in> set (miners t)" "m_owner m = b" for m
  proof -
    have "m \<in> set (filter (\<lambda>m. m_owner m = b) (miners t))" using that by simp
    then show ?thesis using \<open>filter _ (miners t) = _\<close> by simp
  qed
  then show ?thesis using a(1) \<open>env t = env s\<close> by (auto simp: apart_def)
qed

lemma mild_order [simp, relates_intros]: "reflp (mild b I)" "transp (mild b I)"
proof -
  show "reflp (mild b I)" by (simp add: reflp_def mild_def reflpD [OF sees_same_refl])
  show "transp (mild b I)"
  proof (rule transpI)
    fix s t u assume m: "mild b I s t" "mild b I t u"
    show "mild b I s u"
      using apart_mild [OF _ m(1)] m transpD [OF sees_same_trans] by (auto simp: mild_def)
  qed
qed

lemma only_sees:
  assumes "only T s t" "T \<subseteq> {Jobs, Samples, Blocks}"
  shows "sees_same b s t \<and> env t = env s \<and> workers t = workers s"
  using only_mono [OF assms] by (simp add: only_def views)

lemma only_mild: "relates (only T) m \<Longrightarrow> T \<subseteq> {Jobs, Samples, Blocks} \<Longrightarrow> relates (mild b I) m"
  using only_sees unfolding relates_def mild_def by blast

lemma query_mild [relates_intros]: "relates (mild b I) (query f)"
  by (rule only_mild [OF frame_query, of "{}"]) simp

lemma mild_stmt: "(\<And>s a t. apart b I s \<Longrightarrow> f s = Inr (a, t) \<Longrightarrow> sees_same b s t \<and> env t = env s \<and> workers t = workers s) \<Longrightarrow>
  relates (mild b I) (sql f)"
proof (rule relates_sql)
  show "mild b I s (s\<lparr>tick := n\<rparr>)" for s n by (simp add: mild_def reflpD [OF sees_same_refl])
qed (simp, unfold mild_def, blast)

lemma filter_upd_in: "(\<And>r. r \<in> set rs \<Longrightarrow> p r \<Longrightarrow> \<not> q r \<and> \<not> q (g r)) \<Longrightarrow> filter q (upd_where p g rs) = filter q rs"
  by (induction rs) (auto simp: upd_where_def)

lemma mild_SetMinerStatus: "i \<in> I \<Longrightarrow> relates (mild b I) (SetMinerStatus i st)"
  unfolding SetMinerStatus_def
proof (intro relates_on_err mild_stmt mild_order)
  fix s x t assume i: "i \<in> I" and a: "apart b I s"
    and "with_uuid s i (\<lambda>u. Inr ((), s\<lparr>miners := upd_where (\<lambda>m. m_id m = u)
       (\<lambda>m. m\<lparr>m_status := st, m_updated := db_now s\<rparr>) (miners s)\<rparr>)) = Inr (x, t)"
  then obtain u where u: "uuid_of (env s) i = Some u" and t: "t = s\<lparr>miners := upd_where (\<lambda>m. m_id m = u)
       (\<lambda>m. m\<lparr>m_status := st, m_updated := db_now s\<rparr>) (miners s)\<rparr>" by (auto simp: with_uuid_Inr)
  have "sees_same b s t"
    unfolding t
  proof (rule sees_miners, rule filter_upd_in)
    fix m assume m: "m \<in> set (miners s)" "m_id m = u"
    have "m_owner m \<noteq> b"
      using a [unfolded apart_def, rule_format, OF i m(1)] u m(2) by simp
    then show "\<not> m_owner m = b \<and> \<not> m_owner (m\<lparr>m_status := st, m_updated := db_now s\<rparr>) = b" by simp
  qed
  moreover have "env t = env s" "workers t = workers s" by (simp_all add: t)
  ultimately show "sees_same b s t \<and> env t = env s \<and> workers t = workers s" by blast
qed

lemma mild_CloseRun: "i \<in> I \<Longrightarrow> relates (mild b I) (CloseRun i reason avg acc rej)"
  unfolding CloseRun_def
proof (intro relates_on_err mild_stmt mild_order)
  let ?g = "\<lambda>s r. r\<lparr>r_stopped := Some (db_now s), r_reason := Some reason, r_avg := Some avg, r_acc := acc, r_rej := rej\<rparr>"
  fix s x t assume i: "i \<in> I" and a: "apart b I s"
    and "with_uuid s i (\<lambda>u. Inr ((), s\<lparr>runs := upd_where (open_run_of u) (?g s) (runs s)\<rparr>)) = Inr (x, t)"
  then obtain u where u: "uuid_of (env s) i = Some u" and t: "t = s\<lparr>runs := upd_where (open_run_of u) (?g s) (runs s)\<rparr>"
    by (auto simp: with_uuid_Inr)
  have rows: "runs t = upd_where (open_run_of u) (?g s) (runs s)" "miners t = miners s" by (simp_all add: t)
  have "runs_of b t = runs_of b s"
    unfolding runs_of_def rows using apart_mine [OF a i u] by (intro filter_upd_in) (simp add: open_run_of_def)
  then show "sees_same b s t \<and> env t = env s \<and> workers t = workers s"
    by (simp add: t sees_same_def tenant_view_def rollups_of_def)
qed

lemma mild_OpenRun: "i \<in> I \<Longrightarrow> relates (mild b I) (OpenRun i)"
  unfolding OpenRun_def
proof (intro relates_on_err mild_stmt mild_order)
  fix s x t assume i: "i \<in> I" and a: "apart b I s"
    and "with_uuid s i (\<lambda>u. with_new_id s (map r_id (runs s)) (\<lambda>i. require (u \<in> m_id ` set (miners s)) ForeignKeyViolation
       (Inr (i, s\<lparr>runs := runs s @ [\<lparr>r_id = i, r_miner = u, r_started = db_now s, r_stopped = None,
        r_reason = None, r_avg = None, r_acc = 0, r_rej = 0\<rparr>]\<rparr>)))) = Inr (x, t)"
  then obtain u r where u: "uuid_of (env s) i = Some u" and t: "t = s\<lparr>runs := runs s @ [r]\<rparr>" and r: "r_miner r = u"
    by (auto simp: stmt_simps)
  have rows: "runs t = runs s @ [r]" "miners t = miners s" by (simp_all add: t)
  have "runs_of b t = runs_of b s"
    unfolding runs_of_def rows using apart_mine [OF a i u] by (simp add: r del: set_filter)
  then show "sees_same b s t \<and> env t = env s \<and> workers t = workers s"
    by (simp add: t sees_same_def tenant_view_def rollups_of_def)
qed

lemma mild_SetSwarmJobStatus: "relates (mild b I) (SetSwarmJobStatus j st)"
  by (rule only_mild [OF frame_SetSwarmJobStatus]) simp

lemma mild_CreateSwarmJob: "relates (mild b I) (CreateSwarmJob j k)"
  by (rule only_mild [OF frame_CreateSwarmJob]) simp

lemmas mild_intros = mild_SetMinerStatus mild_CloseRun mild_OpenRun mild_SetSwarmJobStatus mild_CreateSwarmJob query_mild mild_order

text \<open>The same on the state of the server.\<close>

definition gentle :: "string \<Rightarrow> string set \<Rightarrow> world \<Rightarrow> world \<Rightarrow> bool" where
  "gentle b I w w' \<longleftrightarrow> mild b I (wdb w) (wdb w')"

lemma gentle_order [simp]: "reflp (gentle b I)" "transp (gentle b I)"
  by (auto simp: gentle_def reflp_def transp_def intro: reflpD [OF mild_order(1)] transpD [OF mild_order(2)])

lemma on_db_gentle: "relates (mild b I) m \<Longrightarrow> relates (gentle b I) (on_db m)"
  by (rule relates_zoom) (auto simp: gentle_def)

lemma hub_gentle: "(\<And>w. wdb (f w) = wdb w) \<Longrightarrow> relates (gentle b I) (modify f)"
  "relates (gentle b I) (send c msg)" "relates (gentle b I) (publish o1 ty dat)"
  by (auto intro!: relatesI simp: gentle_def send_def reflpD [OF mild_order(1)])

lemma CancelMiner_gentle: "i \<in> I \<Longrightarrow> relates (gentle b I) (CancelMiner i reason)"
  unfolding CancelMiner_def cancel_job_def ActiveJobsForMiner_def runAvgHashrate_def
  by (intro on_db_gentle hub_gentle gentle_order mild_intros relates_intros) simp

text \<open>Choosing a worker only reads.\<close>

lemma quiet_trans: "quiet T u v \<Longrightarrow> quiet T v w \<Longrightarrow> quiet T u w"
  unfolding quiet_def by (metis only_transp transpD world.surjective world.update_convs(1))

lemma pick_target_reads: "quiet {} w (snd (run_state (pick_target mid xs best) w))"
proof (induction xs arbitrary: w best)
  case (Cons x xs)
  have "quiet {} w (w\<lparr>wdb := bump (wdb w)\<rparr>)" by (simp add: quiet_def)
  then show ?case by simp (rule quiet_trans [OF _ Cons.IH])
qed simp

text \<open>The worker that is assigned belongs to the owner of the miner.\<close>

definition other_worker :: "string \<Rightarrow> string \<Rightarrow> db \<Rightarrow> bool" where
  "other_worker b wid d \<longleftrightarrow> (\<forall>k \<in> set (workers d). uuid_of (env d) wid = Some (k_id k) \<longrightarrow> k_owner k \<noteq> b)"

definition workable :: "string \<Rightarrow> string \<Rightarrow> db \<Rightarrow> db \<Rightarrow> bool" where
  "workable b wid s t \<longleftrightarrow> (other_worker b wid s \<longrightarrow> sees_same b s t \<and> other_worker b wid t)"

lemma workable_order [simp]: "reflp (workable b wid)" "transp (workable b wid)"
  by (auto simp: workable_def reflp_def transp_def reflpD [OF sees_same_refl] intro: transpD [OF sees_same_trans])

lemma only_workable: "relates (only T) m \<Longrightarrow> T \<subseteq> {Jobs, Samples, Blocks} \<Longrightarrow> relates (workable b wid) m"
  using only_sees unfolding relates_def workable_def other_worker_def by metis

lemma workable_SetWorkerStatus: "relates (workable b wid) (SetWorkerStatus wid st)"
  unfolding SetWorkerStatus_def
proof (intro relates_on_err relates_sql workable_order)
  show "workable b wid s (s\<lparr>tick := n\<rparr>)" for s n by (simp add: workable_def other_worker_def reflpD [OF sees_same_refl])
next
  let ?p = "\<lambda>u k. k_id k = u \<and> k_status k \<noteq> ''revoked''" and ?g = "\<lambda>s k. k\<lparr>k_status := st, k_seen := Some (db_now s)\<rparr>"
  fix s x t
  assume "with_uuid s wid (\<lambda>u. Inr ((), s\<lparr>workers := upd_where (?p u) (?g s) (workers s)\<rparr>)) = Inr (x, t)"
  then obtain u where u: "uuid_of (env s) wid = Some u" and t: "t = s\<lparr>workers := upd_where (?p u) (?g s) (workers s)\<rparr>"
    by (auto simp: with_uuid_Inr)
  have "sees_same b s t" if "other_worker b wid s"
    unfolding t
  proof (rule sees_workers, rule filter_upd_in)
    fix k assume "k \<in> set (workers s)" "?p u k"
    then show "\<not> k_owner k = b \<and> \<not> k_owner (?g s k) = b" using that u by (simp add: other_worker_def)
  qed
  moreover have "other_worker b wid t" if "other_worker b wid s"
    using that by (auto simp: t other_worker_def set_upd_where)
  ultimately show "workable b wid s t" by (simp add: workable_def)
qed

definition hub_workable :: "string \<Rightarrow> string \<Rightarrow> world \<Rightarrow> world \<Rightarrow> bool" where
  "hub_workable b wid w w' \<longleftrightarrow> workable b wid (wdb w) (wdb w')"

lemma hub_workable_order [simp]: "reflp (hub_workable b wid)" "transp (hub_workable b wid)"
  by (auto simp: hub_workable_def reflp_def transp_def intro: reflpD [OF workable_order(1)] transpD [OF workable_order(2)])

lemma hub_workable_intros:
  "relates (workable b wid) m \<Longrightarrow> relates (hub_workable b wid) (on_db m)"
  "relates (hub_workable b wid) (send c msg)"
  by (rule relates_zoom, auto simp: hub_workable_def) (auto intro!: relatesI simp: hub_workable_def send_def reflpD [OF workable_order(1)])

definition assign_to :: "miner \<Rightarrow> currency \<Rightarrow> string \<Rightarrow> string \<Rightarrow> nat \<Rightarrow> worker \<Rightarrow> (world, bool) state" where
  "assign_to m cur addr wid c k = do {
     rj \<leftarrow> on_db (CreateSwarmJob (mn_id m) wid);
     case rj of
       Inl _ \<Rightarrow> ret False
     | Inr jobID \<Rightarrow> do {
         ok \<leftarrow> send c (JobAssign (engine_payload jobID m cur addr k wid));
         if ok then do { ignore (on_db (SetWorkerStatus wid ''assigned'')); ret True }
         else do { ignore (on_db (SetSwarmJobStatus jobID ''error'')); ret False }
       }
   }"

lemma assign_to_workable: "relates (hub_workable b wid) (assign_to m cur addr wid c k)"
proof -
  have "relates (workable b wid) (CreateSwarmJob i j)" "relates (workable b wid) (SetSwarmJobStatus j st)" for i j st
    by (rule only_workable [OF frame_CreateSwarmJob] only_workable [OF frame_SetSwarmJobStatus], simp)+
  then show ?thesis
    unfolding assign_to_def
    by (intro hub_workable_intros hub_workable_order workable_SetWorkerStatus relates_intros)
qed

lemma found_worker_apart:
  assumes "apart b {mid} d" and "distinct (map k_id (workers d))" and "b \<noteq> []"
    and "fst (run_state (GetWorker (fst (run_state (minerOwner mid) d)) wid) (bump d)) = Inr k"
  shows "other_worker b wid d"
proof -
  obtain r where r: "r \<in> set (workers d)" "k_owner r = fst (run_state (minerOwner mid) d)" "uuid_of (env d) wid = Some (k_id r)"
    using GetWorker_row [OF assms(4)] by auto
  have "fst (run_state (minerOwner mid) d) \<noteq> b"
    using minerOwner_row [OF refl, of mid d] assms(1,3) by (auto simp: miner_owners_def apart_def)
  then show ?thesis
    unfolding other_worker_def using r distinct_map_eqD [OF assms(2)] by (metis option.inject)
qed

lemma Assign_spares:
  assumes "apart b {mn_id m} (wdb w)" and "distinct (map k_id (workers (wdb w)))" and "b \<noteq> []"
  shows "sees_same b (wdb w) (wdb (snd (run_state (Assign m cur addr) w)))"
proof -
  let ?es = "map_range w (live w)"
  obtain best v where pick: "run_state (pick_target (mn_id m) ?es None) w = (best, v)" by fastforce
  have v: "only {} (wdb w) (wdb v)" using pick_target_reads [of w "mn_id m" ?es None] by (simp add: pick quiet_def)
  then have stay: "sees_same b (wdb w) (wdb v)" using only_sees [of "{}"] by blast
  show ?thesis
  proof (cases best)
    case None
    then show ?thesis using stay by (simp add: Assign_def pick)
  next
    case (Some tc)
    obtain target c where tc: "tc = (target, c)" by fastforce
    let ?o = "fst (run_state (minerOwner (mn_id m)) (wdb v))"
    obtain rk d where rk: "run_state (GetWorker ?o (lw_id target)) (bump (wdb v)) = (rk, d)" by fastforce
    have d: "d = bump (bump (wdb v))" using arg_cong [OF rk, of snd] by simp
    show ?thesis
    proof (cases rk)
      case (Inl e)
      then show ?thesis using stay rk d by (simp add: Assign_def pick Some tc)
    next
      case (Inr k)
      let ?u = "v\<lparr>wdb := d\<rparr>"
      have "other_worker b (lw_id target) (wdb v)"
        using assms v Inr rk by (intro found_worker_apart [of b "mn_id m" _ _ k]) (auto simp: only_def apart_def)
      then have "other_worker b (lw_id target) (wdb ?u)" by (simp add: d other_worker_def)
      then have "sees_same b (wdb ?u) (wdb (snd (run_state (assign_to m cur addr (lw_id target) c k) ?u)))"
        using relatesD [OF assign_to_workable, of b "lw_id target" ?u m cur addr c k] by (simp add: hub_workable_def workable_def)
      moreover have "snd (run_state (Assign m cur addr) w) = snd (run_state (assign_to m cur addr (lw_id target) c k) ?u)"
        using rk Inr by (simp add: Assign_def pick Some tc assign_to_def d)
      moreover have "sees_same b (wdb w) (wdb ?u)" using stay by (simp add: d)
      ultimately show ?thesis using transpD [OF sees_same_trans] by metis
    qed
  qed
qed

lemma GetMiner_row:
  assumes "run_state (GetMiner owner i) d = (Inr m, d')"
  shows "d' = bump d \<and> (\<exists>r \<in> set (miners d). uuid_of (env d) i = Some (m_id r) \<and> m_owner r = owner \<and> mn_id m = m_id r)"
proof -
  obtain u x where u: "uuid_of (env d) i = Some u" "d' = bump d" "one_row (miner_rows owner u d) = Inr x" "m = scanMiner (fst x) (snd x)"
    using assms by (cases "one_row (miner_rows owner (the (uuid_of (env d) i)) d)") (auto simp: GetMiner_def inr_simps with_uuid_Inr)
  then have "fst x \<in> set (miners d)" "m_id (fst x) = u" "m_owner (fst x) = owner"
    by (auto simp: miner_rows_def dest!: one_row_in split: if_splits)
  then show ?thesis using u by (auto simp: scanMiner_def)
qed

lemma owned_apart:
  assumes "db_ok d" "canonical d" "r \<in> set (miners d)" "m_owner r \<noteq> b" "uuid_of (env d) i = Some (m_id r)"
  shows "apart b {i, m_id r} d"
  using assms distinct_map_eqD [OF db_ok_keys(5) [OF assms(1)]] by (auto simp: apart_def canonical_def)

lemma StopMiner_spares:
  assumes "db_ok (wdb w)" "canonical (wdb w)" "a \<noteq> b"
  shows "spares b w (snd (run_state (handleStopMiner a i) w))"
proof (cases "fst (run_state (GetMiner a i) (wdb w))")
  case (Inl e)
  then show ?thesis by (simp add: handleStopMiner_def stored_def GetMiner_def run_simps spares_def reflpD [OF sees_same_refl])
next
  case (Inr m)
  then obtain r where r: "r \<in> set (miners (wdb w))" "uuid_of (env (wdb w)) i = Some (m_id r)" "m_owner r = a"
      "snd (run_state (GetMiner a i) (wdb w)) = bump (wdb w)"
    using GetMiner_row [of a i "wdb w" m] by (metis prod.collapse)
  let ?rest = "do { CancelMiner i ''user''; ignore (on_db (SetMinerStatus i ''stopped''));
     publish a ''miner_status'' [(''miner_id'', EStr i), (''status'', EStr ''stopped'')]; ret (Reply 202 (m\<lparr>mn_status := ''stopped''\<rparr>)) }"
  have "apart b {i, m_id r} (wdb (w\<lparr>wdb := bump (wdb w)\<rparr>))"
    using owned_apart [OF assms(1,2) r(1) _ r(2)] assms(3) r(3) by (simp add: apart_def)
  moreover have "relates (gentle b {i, m_id r}) ?rest"
    by (intro on_db_gentle hub_gentle gentle_order CancelMiner_gentle mild_intros relates_intros) auto
  ultimately have "sees_same b (bump (wdb w)) (wdb (snd (run_state ?rest (w\<lparr>wdb := bump (wdb w)\<rparr>))))"
    using relatesD [of "gentle b {i, m_id r}" ?rest "w\<lparr>wdb := bump (wdb w)\<rparr>"] by (simp add: gentle_def mild_def)
  moreover have "sees_same b (wdb w) (bump (wdb w))" by simp
  ultimately show ?thesis using Inr r(4) by (simp add: handleStopMiner_def stored_def spares_def sees_same_def)
qed

lemma DeleteWorker_spares:
  assumes "db_ok (wdb w)" "codes_owned (wdb w)" "a \<noteq> b"
  shows "spares b w (snd (run_state (handleDeleteWorker a i) w))"
proof -
  have "wdb (snd (run_state (Hub_RevokeWorker i) w)) = wdb w"
    by (simp add: Hub_RevokeWorker_def run_send split: option.splits)
  then show ?thesis
    using see_DeleteWorker [OF assms(3,1,2)]
    by (auto simp: handleDeleteWorker_def stored_def spares_def storeErr_def split: prod.splits sum.splits)
qed

definition start_rest :: "string \<Rightarrow> string \<Rightarrow> miner \<Rightarrow> (world, miner reply + currency \<times> string) state" where
  "start_rest owner i m = do {
     r \<leftarrow> on_db (GetCurrency (mn_currency m));
     case r of Inl e \<Rightarrow> ret (Inl (storeErr [] e)) | Inr cur \<Rightarrow> do {
       o' \<leftarrow> on_db (OpenRun (mn_id m));
       case o' of Inl e \<Rightarrow> ret (Inl (storeErr [] e)) | Inr _ \<Rightarrow> do {
         addr \<leftarrow> wallet_of owner (mn_wallet m);
         ignore (on_db (SetMinerStatus i ''queued''));
         ret (Inr (cur, addr)) } } }"

lemma start_rest_gentle: "{i, mn_id m} \<subseteq> I \<Longrightarrow> relates (gentle b I) (start_rest owner i m)"
  unfolding start_rest_def wallet_of_def GetCurrency_def WalletAddress_def
  by (intro on_db_gentle hub_gentle gentle_order mild_intros relates_intros) auto

lemma snd_answer [simp]: "snd (run_state (answer m) w) = snd (run_state m w)"
  by (simp add: answer_def split: prod.splits)

lemma StartMiner_split:
  assumes "run_state (GetMiner a i) (wdb w) = (Inr m, bump (wdb w))"
  shows "wdb (snd (run_state (handleStartMiner a i) w)) = bump (wdb w) \<or>
    (\<exists>r v. run_state (start_rest a i m) (w\<lparr>wdb := bump (wdb w)\<rparr>) = (r, v) \<and>
       (wdb (snd (run_state (handleStartMiner a i) w)) = wdb v \<or>
        (\<exists>cur addr. r = Inr (cur, addr) \<and>
           wdb (snd (run_state (handleStartMiner a i) w)) = wdb (snd (run_state (Assign m cur addr) v)))))"
  using assms
  by (simp add: handleStartMiner_def start_rest_def stored_def guard_def split: prod.splits sum.splits)

lemma StartMiner_spares:
  assumes "db_ok (wdb w)" "canonical (wdb w)" "a \<noteq> b" "b \<noteq> []"
  shows "spares b w (snd (run_state (handleStartMiner a i) w))"
proof (cases "fst (run_state (GetMiner a i) (wdb w))")
  case (Inl e)
  then show ?thesis by (simp add: handleStartMiner_def stored_def GetMiner_def run_simps spares_def)
next
  case (Inr m)
  then obtain r where r: "r \<in> set (miners (wdb w))" "uuid_of (env (wdb w)) i = Some (m_id r)" "m_owner r = a" "mn_id m = m_id r"
      and run: "run_state (GetMiner a i) (wdb w) = (Inr m, bump (wdb w))"
    using GetMiner_row [of a i "wdb w" m] by (metis prod.collapse)
  let ?u = "w\<lparr>wdb := bump (wdb w)\<rparr>" and ?I = "{i, m_id r}"
  have apart: "apart b ?I (wdb ?u)"
    using owned_apart [OF assms(1,2) r(1) _ r(2)] assms(3) r(3) by (simp add: apart_def)
  obtain x v where v: "run_state (start_rest a i m) ?u = (x, v)" by fastforce
  have "gentle b ?I ?u v" using relatesD [OF start_rest_gentle [of i m ?I b a], of ?u] v r(4) by simp
  then have m: "mild b ?I (wdb ?u) (wdb v)" by (simp add: gentle_def)
  then have "sees_same b (bump (wdb w)) (wdb v)" "workers (wdb v) = workers (wdb w)"
    using apart by (simp_all add: mild_def)
  moreover have "sees_same b (wdb w) (bump (wdb w))" by simp
  ultimately have s: "sees_same b (wdb w) (wdb v)" "workers (wdb v) = workers (wdb w)"
    using transpD [OF sees_same_trans] by blast+
  have "apart b {mn_id m} (wdb v)" using apart_mild [OF apart m] r(4) by (simp add: apart_def)
  then have as: "sees_same b (wdb v) (wdb (snd (run_state (Assign m cur addr) v)))" for cur addr
    using assms(4) db_ok_keys(7) [OF assms(1)] by (intro Assign_spares) (simp_all add: s(2))
  from StartMiner_split [OF run] show ?thesis
    unfolding spares_def v using s(1) transpD [OF sees_same_trans s(1) as] by auto
qed


text \<open>Somebody else's request to stop the miner of \<open>a\<close>.\<close>

definition demo_request :: request where
  "demo_request = \<lparr>rq_meth = ''POST'', rq_path = [''v1'', ''miners'', ''m'', ''stop''], rq_query = (\<lambda>_. []), rq_auth = ''Bearer tok'',
     rq_origin = [], rq_forwarded = [], rq_remote = [], rq_body = []\<rparr>"

lemma demo_dispatch: "dispatch (rq_meth demo_request) (rq_path demo_request) = Inr (Authed StopMinerE, [''m''])"
  by code_simp


end
