(* ===== verification/Server.thy ===== *)
theory Server
  imports Isolation PayoutProps HubProps
begin

text \<open>
  The server as a whole (\<open>cmd/server/main.go\<close>): how it starts, and its steps. A request, a worker's message, a
  turn of an event stream, a pass of the rollups and a round of the payout observer are each a sequence of the
  steps of the hub (\<open>hub_step\<close>), which interleaves single statements and hub operations in any order: so what
  holds of the hub's steps holds of the server, also when its goroutines interleave.
\<close>

subsection \<open>Starting\<close>

text \<open>\<open>main\<close> up to the listeners: the subject of the test user is an environment variable.\<close>

definition boot :: "config \<Rightarrow> string \<Rightarrow> int \<Rightarrow> world \<Rightarrow> 'b server" where
  "boot cfg testSub now w = (let w' = NewHub (w\<lparr>evb := new_broker\<rparr>) in
     NewServer (if cf_seed_test_data cfg then snd (run_state (on_db (seedTestData cfg testSub)) w') else w')
       (NewValidator (cf_jwks_url cfg) (cf_issuer cfg)) now)"

subsection \<open>Steps\<close>

inductive server_step :: "api_env \<Rightarrow> decoders \<Rightarrow> jwt_lib \<Rightarrow> 'b buckets \<Rightarrow> payout_env \<Rightarrow> 'b server \<Rightarrow> 'b server \<Rightarrow> bool"
  for E D lib B P where
  request: "server_step E D lib B P s (snd (run_state (serve E D lib B A rq) s))"
| stream_turn: "server_step E D lib B P s (snd (run_state (on_world (events_turn owner ch t)) s))"
| stream_end: "server_step E D lib B P s (snd (run_state (on_world (events_close owner ch)) s))"
| worker_says: "server_step E D lib B P s (snd (run_state (on_world (ws_message stamp wid owner m)) s))"
| worker_leaves: "server_step E D lib B P s (snd (run_state (on_world (ws_end wid c)) s))"
| worker_supervised: "server_step E D lib B P s (snd (run_state (on_world (supervise wid c pong)) s))"
| warmed: "server_step E D lib B P s (s\<lparr>sv_auth := snd (Warm jwks now (sv_auth s))\<rparr>)"
| rollup_pass: "server_step E D lib B P s (snd (run_state (on_world (on_db Retention_once)) s))"
| payout_round: "server_step E D lib B P s (snd (run_state (on_world (poll_once P)) s))"
| clock: "wall (sv_world s) \<le> t \<Longrightarrow> server_step E D lib B P s (s\<lparr>sv_world := (sv_world s)\<lparr>wall := t\<rparr>\<rparr>)"
| restarted: "server_step E D lib B P s (boot (ae_cfg E) testSub now (sv_world s))"

subsection \<open>Calls of the store\<close>

text \<open>A call that is no assignment, of an owner who has signed in.\<close>

definition plain_call :: "db \<Rightarrow> db \<Rightarrow> bool" where
  "plain_call s t \<longleftrightarrow> db_call True s t \<and> job_pairs t \<subseteq> job_pairs s \<and> signed_in t"

definition calls :: "db \<Rightarrow> db \<Rightarrow> bool" where
  "calls s t \<longleftrightarrow> (tenant_ok s \<longrightarrow> plain_call\<^sup>*\<^sup>* s t \<and> tenant_ok t)"

lemma calls_order [simp, relates_intros]: "reflp calls" "transp calls"
  unfolding calls_def by (auto intro!: reflpI transpI)

lemma plain_tenant: "plain_call s t \<Longrightarrow> tenant_ok s \<Longrightarrow> tenant_ok t"
  by (auto simp: plain_call_def intro: db_call_tenant)

lemma calls_one: "(tenant_ok s \<Longrightarrow> plain_call s t) \<Longrightarrow> calls s t"
  by (auto simp: calls_def intro: plain_tenant)

lemma calls_read: "calls s (bump s)"
  by (rule calls_one) (auto simp: plain_call_def tenant_ok_def signed_in_def owner_defs intro: db_call.read)

lemma calls_query [relates_intros]: "relates calls (query f)"
  by (rule relatesI) (simp add: run_simps calls_read)

lemma calls_on_err [relates_intros]: "relates calls m \<Longrightarrow> relates calls (on_err g m)"
  unfolding on_err_def by (intro relates_intros)

lemma calls_and_then [relates_intros]: "relates calls m \<Longrightarrow> (\<And>a. relates calls (k a)) \<Longrightarrow> relates calls (and_then m k)"
  unfolding and_then_def by (intro relates_intros)

lemma shrinks_signed: "shrinks s t \<Longrightarrow> signed_in s \<Longrightarrow> job_pairs t \<subseteq> job_pairs s \<and> signed_in t"
  unfolding shrinks_def signed_in_def by blast

lemma calls_shrinks: "relates shrinks m \<Longrightarrow> (\<And>s. db_call True s (snd (run_state m s))) \<Longrightarrow> relates calls m"
  using shrinks_signed unfolding relates_def plain_call_def tenant_ok_def by (blast intro: calls_one [unfolded plain_call_def tenant_ok_def])

lemma calls_frame:
  "relates (only T) m \<Longrightarrow> (\<And>s. db_call True s (snd (run_state m s))) \<Longrightarrow>
   Miners \<notin> T \<Longrightarrow> Workers \<notin> T \<Longrightarrow> Jobs \<notin> T \<Longrightarrow> CodesT \<notin> T \<Longrightarrow> relates calls m"
  by (rule calls_shrinks [OF shrinks_frame])

lemma calls_writes [relates_intros]:
  "relates calls (CreateWallet o1 sy addr l v)" "relates calls (DeleteWallet o1 i)" "relates calls (PatchMiner o1 i n x u)"
  "relates calls (SetMinerStatus i st)" "relates calls (SetMinerAllocation o1 i c g)" "relates calls (DeleteMiner o1 i)"
  "relates calls (OpenRun i)" "relates calls RollupOnce" "relates calls (PutSetting o1 key val)"
  "relates calls (PutCurrencySetting o1 sy url on adapter)" "relates calls (PutExchangeSetting o1 ex cs ak pk)"
  "relates calls (InsertPayout o1 sy addr amt tx url pool paid raw)" "relates calls (RevokeWorker o1 i)"
  "relates calls (DeleteWorker o1 i)" "relates calls (Codes_Revoke o1 i)"
  by (rule calls_shrinks, (rule shrinks_writes | (rule frames [THEN shrinks_frame]; simp; fail)), rule db_call.intros)+

lemma calls_CreateMiner [relates_intros]: "relates calls (CreateMiner p)"
proof (intro relatesI calls_one)
  fix s assume "tenant_ok s"
  then show "plain_call s (snd (run_state (CreateMiner p) s))"
    using relatesD [OF frame_CreateMiner, of s p] db_call.create_miner [of True s p]
    by (auto simp: plain_call_def only_def tenant_ok_def signed_in_def owner_defs)
qed

lemma Codes_Create_owners: "c_owner ` set (codes (snd (run_state (Codes_Create rt a) s))) \<subseteq> insert a (c_owner ` set (codes s))"
  by (auto simp: Codes_Create_def run_simps insert_code_def with_new_id_def split: option.splits sum.splits prod.splits)

lemma calls_Codes_Create: "a \<noteq> [] \<Longrightarrow> relates calls (Codes_Create rt a)"
proof (intro relatesI calls_one)
  fix s assume "tenant_ok s" "a \<noteq> []"
  then show "plain_call s (snd (run_state (Codes_Create rt a) s))"
    using relatesD [OF frame_Codes_Create, of s rt a] Codes_Create_owners [of rt a s] db_call.create_code [of True s rt a]
    by (auto simp: plain_call_def only_def tenant_ok_def signed_in_def owner_defs)
qed

lemma calls_Enroll: "relates calls (Enroll rt code n hw)"
proof (intro relatesI calls_one)
  fix s assume s: "tenant_ok s"
  obtain r t where run: "run_state (Enroll rt code n hw) s = (r, t)" by fastforce
  have e: "db_call True s t" using db_call.enroll [of True s rt code n hw] run by simp
  have "job_pairs t \<subseteq> job_pairs s \<and> signed_in t"
  proof (cases r)
    case (Inl err)
    then show ?thesis using Enroll_Inl run s by (auto simp: only_def tenant_ok_def signed_in_def owner_defs)
  next
    case (Inr res)
    obtain c now where c: "c \<in> set (codes s)"
      "workers t = workers s @ [enrolled_row now (er_worker res) (c_owner c) n (enroll_kind hw) (HashToken rt (er_token res))]"
      "codes t = consumed now (c_id c) (er_worker res) (codes s)" "only {Workers, CodesT} s t"
      using Enroll_Inr [OF run [unfolded Inr]] by blast
    have "map c_owner (codes t) = map c_owner (codes s)"
      unfolding c(3) consumed_def upd_where_def by simp
    then have "c_owner ` set (codes t) = c_owner ` set (codes s)" by (metis list.set_map)
    moreover have "c_owner c \<noteq> []" using s c(1) unfolding tenant_ok_def signed_in_def by (metis image_eqI)
    ultimately show ?thesis
      using s c(2,4) by (auto simp: tenant_ok_def signed_in_def owner_defs only_def enrolled_row_def)
  qed
  then show "plain_call s (snd (run_state (Enroll rt code n hw) s))" using e run by (simp add: plain_call_def)
qed

subsection \<open>Operations as sequences of steps\<close>

definition moving :: "world \<Rightarrow> world \<Rightarrow> bool" where
  "moving w w' \<longleftrightarrow> (owned w \<longrightarrow> hub_step\<^sup>*\<^sup>* w w' \<and> owned w')"

lemma moving_order [simp, relates_intros]: "reflp moving" "transp moving"
  unfolding moving_def by (auto intro!: reflpI transpI)

lemma plain_steps: "plain_call\<^sup>*\<^sup>* s t \<Longrightarrow> hub_step\<^sup>*\<^sup>* (w\<lparr>wdb := s\<rparr>) (w\<lparr>wdb := t\<rparr>)"
proof (induction rule: rtranclp_induct)
  case (step t u)
  then have "hub_step (w\<lparr>wdb := t\<rparr>) ((w\<lparr>wdb := t\<rparr>)\<lparr>wdb := u\<rparr>)"
    by (intro hub_step.store_call) (auto simp: plain_call_def)
  with step.IH show ?case by simp
qed simp

lemma moving_on_db: "relates calls m \<Longrightarrow> relates moving (on_db m)"
proof (intro relatesI)
  fix w :: world assume "relates calls m"
  then have "calls (wdb w) (snd (run_state m (wdb w)))" by (rule relatesD)
  then show "moving w (snd (run_state (on_db m) w))"
    using plain_steps [of "wdb w" _ w] by (auto simp: moving_def calls_def owned_def)
qed

lemma moving_hub: "keeps owned m \<Longrightarrow> (\<And>w. hub_step w (snd (run_state m w))) \<Longrightarrow> relates moving m"
  by (intro relatesI) (auto simp: moving_def keeps_def intro: r_into_rtranclp)

lemma moving_ops [relates_intros]:
  "relates moving (Assign mn cur addr)" "relates moving (CancelMiner i why)" "relates moving (AllocationUpdate i c g)"
  "relates moving (Hub_RevokeWorker i)" "relates moving (ws_open rt h acc k)" "relates moving (ws_message f i a m)"
  "relates moving (ws_end i k)" "relates moving (supervise i k pong)"
  by (intro moving_hub keeps_intros hub_step.intros)+

lemma moving_broker [relates_intros]: "(\<And>w. \<exists>b. f w = w\<lparr>evb := b\<rparr>) \<Longrightarrow> relates moving (modify f)"
proof (intro relatesI)
  fix w :: world assume "\<And>w :: world. \<exists>b. f w = w\<lparr>evb := b\<rparr>"
  then obtain b where "f w = w\<lparr>evb := b\<rparr>" by blast
  then show "moving w (snd (run_state (modify f) w))"
    using hub_step.broker_moves [of w b] by (auto simp: moving_def)
qed

lemma moving_publish [relates_intros]: "relates moving (publish a b c)"
  by (intro relatesI) (auto simp: moving_def intro: r_into_rtranclp hub_step.broker_moves)

subsection \<open>Handlers\<close>

lemma moving_replies [relates_intros]:
  "relates calls m \<Longrightarrow> (\<And>x. relates moving (k x)) \<Longrightarrow> relates moving (stored c m k)"
  "relates calls m' \<Longrightarrow> (\<And>x. relates moving (k' x)) \<Longrightarrow> relates moving (lookup_or r m' k')"
  "(\<And>x. relates moving (k'' x)) \<Longrightarrow> relates moving (decoded body k'')"
  "relates moving n \<Longrightarrow> relates moving (guard ok r' n)"
  "relates moving n' \<Longrightarrow> relates moving (answer n')"
  unfolding stored_def lookup_or_def decoded_def guard_def answer_def by (intro moving_on_db relates_intros; assumption)+

lemma calls_reads [relates_intros]:
  "relates calls ListCurrencies" "relates calls (GetCurrency sy)" "relates calls (ListWallets a)" "relates calls (WalletAddress a i)"
  "relates calls (ListMiners a)" "relates calls (GetMiner a i)" "relates calls (CurrentRun i)" "relates calls (ListRuns i n)"
  "relates calls (RecentMetrics i k)" "relates calls (HourlyRollups i f t)" "relates calls (LiveHashrate i)"
  "relates calls (ListPayouts a c l k)" "relates calls (ListBlocksFound a)" "relates calls (Payouts24h a)" "relates calls (Shares24h a)"
  "relates calls (ListSettings a)" "relates calls (ListCurrencySettings a)" "relates calls (ListExchangeSettings a)"
  "relates calls (GetWorker a i)" "relates calls (ListWorkers a)" "relates calls (WorkersForMiner i)" "relates calls (Codes_List a)"
  "relates calls WalletsWithPoolAPI" "relates calls (CheckCode rt code)" "relates calls (currencySettingFor a sy)"
  unfolding ListCurrencies_def GetCurrency_def ListWallets_def WalletAddress_def ListMiners_def GetMiner_def
    CurrentRun_def ListRuns_def RecentMetrics_def HourlyRollups_def LiveHashrate_def ListPayouts_def ListBlocksFound_def
    Payouts24h_def Shares24h_def ListSettings_def ListCurrencySettings_def ListExchangeSettings_def GetWorker_def
    ListWorkers_def WorkersForMiner_def Codes_List_def WalletsWithPoolAPI_def CheckCode_def code_candidates_def currencySettingFor_def Let_def
  by (intro relates_intros)+

lemmas moving_intros = moving_on_db moving_replies moving_ops moving_publish moving_broker moving_order calls_reads calls_writes
  calls_CreateMiner calls_Enroll

lemma moving_withLive: "relates moving (withLive ms)"
  by (induction ms) (simp_all only: withLive.simps, (intro moving_intros relates_intros; assumption?)+)

lemma moving_known: "relates moving (known_currencies cs)"
  by (induction cs) (simp_all only: known_currencies.simps, (intro moving_intros relates_intros; assumption?)+)

lemma moving_handler: "a \<noteq> [] \<Longrightarrow> relates moving (api_handler E D rq args ep a)"
proof -
  assume a: "a \<noteq> []"
  note intros = calls_Codes_Create [OF a] moving_withLive moving_known moving_intros
  note defs = api_handler_def Let_def api_endpoint.case small_handlers handleCreateMiner_def resolve_pool_def pool_checked_def
    wallet_checked_def handlePatchMiner_def handleMinerAllocation_def handleRevokeWorker_def handleDeleteWorker_def
    handleStartMiner_def handleStopMiner_def handleDeleteMiner_def wallet_of_def
  show ?thesis
    by (cases ep; simp only: defs; intro intros relates_intros; (rule exI, rule refl)?)
qed

lemma subject_named: "fst (auth_Middleware lib jwks now header v) = Some c \<Longrightarrow> cl_sub c \<noteq> []"
  by (auto simp: auth_Middleware_def Parse_def parse_bearer_def split: if_splits option.splits prod.splits)

subsection \<open>The steps of the server\<close>

text \<open>
  What holds of the world across the operations that the server composes holds across the steps of the server.
\<close>

lemma relates_endpoint:
  "relates R h \<Longrightarrow> relates R e \<Longrightarrow> relates R j \<Longrightarrow> relates R w \<Longrightarrow> (\<And>a. relates R (f a)) \<Longrightarrow>
   relates R (case ep of Healthz \<Rightarrow> h | EnrollE \<Rightarrow> e | JoinInfoE \<Rightarrow> j | WorkerWS \<Rightarrow> w | Authed a \<Rightarrow> f a)"
  by (cases ep) simp_all

locale served =
  fixes R :: "world \<Rightarrow> world \<Rightarrow> bool" and E :: api_env and D :: decoders and P :: payout_env
  assumes refl: "reflp R" and trans: "transp R"
    and handler: "a \<noteq> [] \<Longrightarrow> relates R (api_handler E D rq args ep a)"
    and enroll: "relates R (handleEnroll E body)" and join: "relates R (handleJoinInfo E code)"
    and opens: "relates R (ws_open rt header accept c)" and says: "relates R (ws_message stamp wid owner m)"
    and leaves: "relates R (ws_end wid c)" and supervised: "relates R (supervise wid c pong)"
    and streams: "relates R (events_turn owner ch t)" "relates R (events_close owner ch)"
    and rollup: "relates R (on_db Retention_once)" and poll: "relates R (poll_once P)"
    and seed: "relates R (on_db (seedTestData cfg sub))"
    and restart: "R w (NewHub (w\<lparr>evb := new_broker\<rparr>))" and time: "wall w \<le> t' \<Longrightarrow> R w (w\<lparr>wall := t'\<rparr>)"
begin

definition through :: "'b server \<Rightarrow> 'b server \<Rightarrow> bool" where
  "through s s' \<longleftrightarrow> R (sv_world s) (sv_world s')"

lemma through_order: "reflp through" "transp through"
  using reflpD [OF refl] transpD [OF trans] by (auto simp: through_def intro!: reflpI transpI)

lemma through_world: "relates R m \<Longrightarrow> relates through (on_world m)"
  by (rule relates_zoom) (simp_all add: through_def)

lemma through_caches: "(\<And>s. sv_world (f s) = sv_world s) \<Longrightarrow> relates through (modify f)"
  by (auto intro!: relatesI simp: through_def reflpD [OF refl])

lemma through_authed: "(\<And>a. a \<noteq> [] \<Longrightarrow> relates R (h a)) \<Longrightarrow> relates through (authed lib B jwks now header h)"
proof (rule relatesI)
  fix s :: "'b server" assume h: "\<And>a. a \<noteq> [] \<Longrightarrow> relates R (h a)"
  have same: "R w w" for w using refl by (rule reflpD)
  show "through s (snd (run_state (authed lib B jwks now header h) s))"
  proof (cases "fst (auth_Middleware lib jwks now header (sv_auth s))")
    case (Some c)
    then show ?thesis
      using relatesD [OF h [OF subject_named [OF Some]], of "sv_world s"] same
      by (cases "run_state (h (cl_sub c)) (sv_world s)") (simp add: authed_def through_def run_zoom)
  qed (simp add: authed_def through_def same)
qed

lemma answers: "relates R m \<Longrightarrow> relates R (answer m)"
  unfolding answer_def by (intro relates_intros refl trans)

lemma through_serve: "relates through (serve E D lib B A rq)"
  unfolding serve_def Router_def enroll_route_def join_route_def
  by (intro relates_endpoint through_authed [OF handler] through_world answers handler enroll join opens through_caches
      relates_intros through_order refl trans; simp)

lemma boots: "R w (sv_world (boot cfg sub now w))"
  using transpD [OF trans restart relatesD [OF seed]] restart by (simp add: boot_def Let_def NewServer_def)

lemma steps: "server_step E D lib B P s s' \<Longrightarrow> R (sv_world s) (sv_world s')"
proof (induction rule: server_step.induct)
  case (request s A rq)
  then show ?case using relatesD [OF through_serve, of s] by (simp add: through_def)
next
  case (warmed s jwks now)
  then show ?case using reflpD [OF refl] by simp
qed (simp_all add: time boots says leaves supervised streams rollup poll through_world [THEN relatesD, unfolded through_def])

lemma runs: "(server_step E D lib B P)\<^sup>*\<^sup>* s s' \<Longrightarrow> R (sv_world s) (sv_world s')"
  by (induction rule: rtranclp_induct) (auto intro: reflpD [OF refl] transpD [OF trans] dest: steps)

end

lemma moving_poll: "relates moving (poll_once P)"
  unfolding poll_once_def poll_row_def check_pool_def record_payment_def Let_def
  by (intro moving_intros relates_intros)

lemma moving_streams: "relates moving (events_turn owner ch t)" "relates moving (events_close owner ch)"
  unfolding events_turn_def events_close_def LiveStats_def Let_def
  by (cases t; simp only: stream_turn.case; intro moving_intros relates_intros; (rule exI, rule refl)?) 
    (intro moving_intros relates_intros, rule exI, rule refl)

lemma moving_rollup: "relates moving (on_db Retention_once)"
  unfolding Retention_once_def by (intro moving_intros relates_intros)

lemma calls_seed: "relates calls (seedTestData cfg sub)"
  unfolding seedTestData_def by (intro moving_intros relates_intros)

lemma moving_restart: "moving w (NewHub (w\<lparr>evb := new_broker\<rparr>))"
proof -
  have "moving w (w\<lparr>evb := new_broker\<rparr>)"
    by (auto simp: moving_def intro: r_into_rtranclp hub_step.broker_moves)
  moreover have "moving v (NewHub v)" for v
    by (auto simp: moving_def owned_def NewHub_def intro: r_into_rtranclp hub_step.restart [unfolded NewHub_def])
  ultimately show ?thesis using moving_order(2) by (blast dest: transpD)
qed

lemma moving_public: "relates moving (handleEnroll E body)" "relates moving (handleJoinInfo E code)"
  unfolding handleEnroll_def handleJoinInfo_def by (intro moving_intros relates_intros)+

interpretation hub_served: served moving E D P for E D P
  by unfold_locales
    (simp_all add: moving_handler moving_public moving_ops moving_streams moving_rollup moving_poll moving_on_db calls_seed moving_restart,
      auto simp: moving_def intro: r_into_rtranclp hub_step.time_passes)

text \<open>The address of the demo wallet, which is stored without a check, is one that the API would refuse.\<close>

lemma demo_address_refused: "Validate uni ''XMR'' demoXMR \<noteq> Inr ()"
proof -
  have "TrimSpace demoXMR = demoXMR" by (rule TrimSpace_printable) (simp add: demoXMR_def printable_def)
  moreover have "length demoXMR = 94" by (simp add: demoXMR_def)
  ultimately show ?thesis by (auto simp: Validate_def rules_def ToUpper_def is_ascii_def upper_char_def)
qed

subsection \<open>What holds of the running server\<close>

lemma server_steps_good:
  assumes "hub_good (sv_world s)" and "server_step E D lib B P s s'"
  shows "hub_good (sv_world s')"
proof -
  have "hub_step\<^sup>*\<^sup>* (sv_world s) (sv_world s')"
    using hub_served.steps [OF assms(2)] assms(1) by (simp add: moving_def hub_good_def)
  then show ?thesis using assms(1) by (rule hub.moves_good)
qed

interpretation whole_server: transition_system "\<lambda>s. hub_start (sv_world s)" "server_step E D lib B P" "\<lambda>s. hub_good (sv_world s)"
  for E D lib B P
  by unfold_locales (auto intro: hub_start_good server_steps_good)

text \<open>
  C5. The server refines the transition system of the hub: whatever requests, worker messages, event streams,
  rollups, payout rounds and restarts happen, the hub and the database go through steps of \<open>hub_step\<close>, so
  everything that is proved of these holds of the running server. In particular the database keeps its
  integrity, connections and live workers agree, and a job never pairs a miner with another tenant's worker.
\<close>

theorem server_refines_hub:
  assumes "hub_start (sv_world s0)" and "(server_step E D lib B P)\<^sup>*\<^sup>* s0 s"
  defines "w \<equiv> sv_world s"
  shows "hub_step\<^sup>*\<^sup>* (sv_world s0) w \<and> db_ok (wdb w) \<and> map fst (conns w) = map fst (live w) \<and>
    (\<forall>j \<in> set (jobs (wdb w)). \<forall>m \<in> set (miners (wdb w)). \<forall>k \<in> set (workers (wdb w)).
       m_id m = j_miner j \<longrightarrow> k_id k = j_worker j \<longrightarrow> m_owner m = k_owner k)"
proof -
  have good: "hub_good w" unfolding w_def by (rule whole_server.reachable_good [OF assms(1,2)])
  have "hub_step\<^sup>*\<^sup>* (sv_world s0) w"
    using hub_served.runs [OF assms(2)] hub_start_good [OF assms(1)] by (simp add: moving_def hub_good_def w_def)
  moreover have "db_ok (wdb w)" "map fst (conns w) = map fst (live w)"
    using good by (simp_all add: hub_good_def hub_ok_def owned_def tenant_ok_def)
  ultimately show ?thesis using same_owner [OF good] by blast
qed

theorem server_refines_hub_witness:
  "hub_step\<^sup>*\<^sup>* hub_idle (sv_world (snd (run_state (serve demo_api demo_decoders demo_lib credit demo_arrival demo_request)
     (NewServer hub_idle (sv_auth demo_server) 0))))"
proof -
  let ?s = "NewServer hub_idle (sv_auth demo_server) 0 :: _ server"
  have "hub_start (sv_world ?s)" using hub_idle_start by (simp add: NewServer_def)
  from server_refines_hub [OF this r_into_rtranclp [of "server_step demo_api demo_decoders demo_lib credit P", OF server_step.request]]
  show ?thesis by (simp add: NewServer_def)
qed

end
