(* ===== verification/Statuses.thy ===== *)
theory Statuses
  imports Server
begin

text \<open>
  The statuses, kinds and engines of rows are texts, and the database does not restrict them: the comments of
  the schema list the values. Here the program is shown to write only these. A miner is never \<open>stopping\<close>, a
  worker never \<open>idle\<close>, and no miner has the native engine: of the listed values these do not occur.
\<close>

subsection \<open>The values\<close>

definition miner_statuses :: "string set" where
  "miner_statuses = {''created'', ''queued'', ''running'', ''stopped'', ''error''}"

definition worker_statuses :: "string set" where
  "worker_statuses = {''enrolled'', ''connected'', ''assigned'', ''mining'', ''offline'', ''revoked''}"

definition job_statuses :: "string set" where
  "job_statuses = {''assigned'', ''ack'', ''ended'', ''error''}"

definition miner_typed :: "miner_row \<Rightarrow> bool" where
  "miner_typed m \<longleftrightarrow> m_status m \<in> miner_statuses \<and> m_engine m \<in> {''adapter'', ''simulated''}"

definition worker_typed :: "worker_row \<Rightarrow> bool" where
  "worker_typed k \<longleftrightarrow> k_status k \<in> worker_statuses \<and> k_kind k \<in> {''native'', ''browser''} \<and>
     (k_revoked k \<noteq> None \<longleftrightarrow> k_status k = ''revoked'')"

definition job_typed :: "job_row \<Rightarrow> bool" where
  "job_typed j \<longleftrightarrow> j_status j \<in> job_statuses \<and> (j_status j \<in> {''ended'', ''error''} \<longrightarrow> j_ended j \<noteq> None)"

lemmas typed_defs = miner_typed_def worker_typed_def job_typed_def miner_statuses_def worker_statuses_def job_statuses_def

definition typed :: "db \<Rightarrow> bool" where
  "typed d \<longleftrightarrow> (\<forall>m \<in> set (miners d). miner_typed m) \<and> (\<forall>k \<in> set (workers d). worker_typed k) \<and>
     (\<forall>j \<in> set (jobs d). job_typed j)"

subsection \<open>Statements\<close>

lemma typed_tick [simp]: "typed (d\<lparr>tick := n\<rparr>) = typed d"
  by (simp add: typed_def)

lemma typed_only: "only T s t \<Longrightarrow> Miners \<notin> T \<Longrightarrow> Workers \<notin> T \<Longrightarrow> Jobs \<notin> T \<Longrightarrow> typed s \<Longrightarrow> typed t"
  by (simp add: typed_def only_def)

lemma typed_frame: "relates (only T) m \<Longrightarrow> Miners \<notin> T \<Longrightarrow> Workers \<notin> T \<Longrightarrow> Jobs \<notin> T \<Longrightarrow> keeps typed m"
  by (auto simp: keeps_def relates_def intro: typed_only)

lemma typed_sql: "(\<And>s a t. typed s \<Longrightarrow> f s = Inr (a, t) \<Longrightarrow> typed t) \<Longrightarrow> keeps typed (sql f)"
  by (rule keeps_sql) auto

lemma typed_affected: "keeps typed m \<Longrightarrow> keeps typed (affected m)"
  unfolding affected_def by (intro keeps_intros)

lemma typed_query [keeps_intros]: "keeps typed (query f)"
  by (rule keeps_query) simp

lemma typed_frames [keeps_intros]:
  "keeps typed (CreateWallet o1 sy addr l v)" "keeps typed (DeleteWallet o1 i)" "keeps typed (OpenRun i)"
  "keeps typed (CloseRun i why h acc rej)" "keeps typed (InsertMetricSample i k h a1 r1)" "keeps typed RollupOnce"
  "keeps typed (PutSetting o1 key val)" "keeps typed (PutCurrencySetting o1 sy url on adapter)"
  "keeps typed (PutExchangeSetting o1 ex cs ak pk)" "keeps typed (InsertPayout o1 sy addr amt tx url pool paid raw)"
  "keeps typed (Codes_Create rt o1)" "keeps typed (Codes_Revoke o1 i)"
  by (rule frames [THEN typed_frame]; simp; fail)+

lemma typed_upd_miners: "typed d \<Longrightarrow> (\<And>m. miner_typed m \<Longrightarrow> miner_typed (g m)) \<Longrightarrow> typed (d\<lparr>miners := upd_where p g (miners d)\<rparr>)"
  by (auto simp: typed_def upd_where_def)

lemma typed_upd_workers:
  "typed d \<Longrightarrow> (\<And>k. p k \<Longrightarrow> worker_typed k \<Longrightarrow> worker_typed (g k)) \<Longrightarrow> typed (d\<lparr>workers := upd_where p g (workers d)\<rparr>)"
  by (auto simp: typed_def upd_where_def)

lemma typed_upd_jobs: "typed d \<Longrightarrow> (\<And>j. job_typed j \<Longrightarrow> job_typed (g j)) \<Longrightarrow> typed (d\<lparr>jobs := upd_where p g (jobs d)\<rparr>)"
  by (auto simp: typed_def upd_where_def)

lemma typed_SetMinerStatus [keeps_intros]: "st \<in> miner_statuses \<Longrightarrow> keeps typed (SetMinerStatus i st)"
  unfolding SetMinerStatus_def
  by (intro keeps_intros typed_sql) (auto simp: with_uuid_Inr miner_typed_def intro: typed_upd_miners)

lemma typed_SetWorkerStatus [keeps_intros]: "st \<in> worker_statuses - {''revoked''} \<Longrightarrow> keeps typed (SetWorkerStatus i st)"
  unfolding SetWorkerStatus_def
  by (intro keeps_intros typed_sql) (auto simp: with_uuid_Inr worker_typed_def intro!: typed_upd_workers)

lemma typed_SetSwarmJobStatus [keeps_intros]: "st \<in> job_statuses \<Longrightarrow> keeps typed (SetSwarmJobStatus i st)"
  unfolding SetSwarmJobStatus_def
  by (intro keeps_intros typed_sql) (auto simp: with_uuid_Inr job_typed_def intro!: typed_upd_jobs)

lemma typed_CreateSwarmJob [keeps_intros]: "keeps typed (CreateSwarmJob i k)"
  unfolding CreateSwarmJob_def
  by (intro keeps_intros typed_sql) (auto simp: stmt_simps typed_def job_typed_def job_statuses_def)

lemma typed_UpdateWorkerCaps [keeps_intros]: "keeps typed (UpdateWorkerCaps i caps)"
  unfolding UpdateWorkerCaps_def
  by (intro keeps_intros typed_sql) (auto simp: with_uuid_Inr worker_typed_def intro!: typed_upd_workers)

lemma typed_update_miner:
  assumes "typed s" "update_miner o1 u g bad s = Inr (x, t)" and "\<And>m. m_status (g s m) = m_status m \<and> m_engine (g s m) = m_engine m"
  shows "typed t"
  using assms unfolding update_miner_def
  by (auto simp: stmt_simps miner_typed_def split: option.splits prod.splits intro!: typed_upd_miners)

lemma typed_PatchMiner [keeps_intros]: "keeps typed (PatchMiner a b c d e)"
  unfolding PatchMiner_def
  by (intro keeps_intros typed_sql)
    (elim with_uuid_ex [elim_format] with_uuid_opt_ex [elim_format] exE, erule (1) typed_update_miner, simp add: patch_row_def)

lemma typed_SetMinerAllocation [keeps_intros]: "keeps typed (SetMinerAllocation a b c d)"
  unfolding SetMinerAllocation_def
  by (intro keeps_intros typed_sql) (auto simp: with_uuid_Inr require_Inr elim!: typed_update_miner)

lemma typed_DeleteMiner [keeps_intros]: "keeps typed (DeleteMiner a b)"
  unfolding DeleteMiner_def Let_def
  by (intro typed_affected typed_sql) (auto simp: with_uuid_Inr drop_miners_def Let_def typed_def)

lemma typed_DeleteWorker [keeps_intros]: "keeps typed (DeleteWorker a b)"
  unfolding DeleteWorker_def Let_def
  by (intro typed_affected typed_sql) (auto simp: with_uuid_Inr drop_workers_def Let_def typed_def)

lemma typed_RevokeWorker [keeps_intros]: "keeps typed (RevokeWorker a b)"
  unfolding RevokeWorker_def revoke_worker_def end_jobs_of_worker_def Let_def
  by (intro keeps_intros typed_affected typed_sql)
    (auto simp: with_uuid_Inr typed_defs intro!: typed_upd_workers typed_upd_jobs)

lemma typed_CreateMiner [keeps_intros]:
  "cm_engine p \<in> {''adapter'', ''simulated''} \<Longrightarrow> keeps typed (CreateMiner p)"
  unfolding CreateMiner_def GetMiner_def
  by (intro keeps_intros typed_sql) (auto simp: insert_miner_def stmt_simps typed_def miner_typed_def miner_statuses_def split: option.splits)

lemma typed_Enroll [keeps_intros]: "keeps typed (Enroll rt code n hw)"
proof (rule keepsI)
  fix s assume s: "typed s"
  obtain r t where run: "run_state (Enroll rt code n hw) s = (r, t)" by fastforce
  have "typed t"
  proof (cases r)
    case (Inl e)
    then show ?thesis using typed_only [OF Enroll_Inl] run s by simp
  next
    case (Inr res)
    then show ?thesis
      using Enroll_Inr [OF run [unfolded Inr]] s
      by (auto simp: typed_def only_def enrolled_row_def worker_typed_def worker_statuses_def enroll_kind_def split: if_splits)
  qed
  then show "typed (snd (run_state (Enroll rt code n hw) s))" using run by simp
qed

subsection \<open>The hub\<close>

definition typed_world :: "world \<Rightarrow> bool" where
  "typed_world w \<longleftrightarrow> typed (wdb w)"

lemma typed_on_db [keeps_intros]: "keeps typed m \<Longrightarrow> keeps typed_world (on_db m)"
  by (auto simp: keeps_def typed_world_def)

lemma typed_modify [keeps_intros]: "(\<And>w. wdb (f w) = wdb w) \<Longrightarrow> keeps typed_world (modify f)"
  by (simp add: keeps_def typed_world_def)

lemma typed_hub_prims [keeps_intros]:
  "keeps typed_world (send c m)" "keeps typed_world (shut_conn c)" "keeps typed_world (publish a b d)"
  by (simp_all add: keeps_def typed_world_def run_send)

lemma typed_reads [keeps_intros]:
  "keeps typed (minerOwner i)" "keeps typed (runAvgHashrate i)" "keeps typed (AuthenticateWorker rt t tok)"
  "keeps typed (ActiveJobForWorker i k)" "keeps typed (ActiveJobsForMiner i)" "keeps typed (QueuedMinersForOwner a)"
  "keeps typed ListCurrencies" "keeps typed (GetCurrency sy)" "keeps typed (ListWallets a)" "keeps typed (WalletAddress a i)"
  "keeps typed (ListMiners a)" "keeps typed (GetMiner a i)" "keeps typed (CurrentRun i)" "keeps typed (ListRuns i n)"
  "keeps typed (RecentMetrics i l)" "keeps typed (HourlyRollups i f t)" "keeps typed (LiveHashrate i)"
  "keeps typed (ListPayouts a c l n)" "keeps typed (ListBlocksFound a)" "keeps typed (Payouts24h a)" "keeps typed (Shares24h a)"
  "keeps typed (ListSettings a)" "keeps typed (ListCurrencySettings a)" "keeps typed (ListExchangeSettings a)"
  "keeps typed (GetWorker a i)" "keeps typed (ListWorkers a)" "keeps typed (WorkersForMiner i)" "keeps typed (Codes_List a)"
  "keeps typed WalletsWithPoolAPI" "keeps typed (CheckCode rt code)" "keeps typed (currencySettingFor a sy)"
  unfolding minerOwner_def runAvgHashrate_def AuthenticateWorker_def ActiveJobForWorker_def ActiveJobsForMiner_def QueuedMinersForOwner_def
    ListCurrencies_def GetCurrency_def ListWallets_def WalletAddress_def ListMiners_def GetMiner_def
    CurrentRun_def ListRuns_def RecentMetrics_def HourlyRollups_def LiveHashrate_def ListPayouts_def ListBlocksFound_def
    Payouts24h_def Shares24h_def ListSettings_def ListCurrencySettings_def ListExchangeSettings_def GetWorker_def
    ListWorkers_def WorkersForMiner_def Codes_List_def WalletsWithPoolAPI_def CheckCode_def code_candidates_def currencySettingFor_def Let_def
  by (intro keeps_intros)+

lemmas written = miner_statuses_def worker_statuses_def job_statuses_def

lemma typed_pick: "keeps typed_world (pick_target m xs b)"
  by (induction xs arbitrary: b) (simp_all, (intro keeps_intros)+)

lemma typed_Assign [keeps_intros]: "keeps typed_world (Assign mn cur addr)"
  unfolding Assign_def by (intro keeps_intros typed_pick) (simp_all add: written)

lemma typed_AssignQueued [keeps_intros]: "keeps typed_world (AssignQueued a)"
  unfolding AssignQueued_def wallet_of_def by (intro keeps_intros)

lemma typed_hub [keeps_intros]:
  "keeps typed_world (CancelMiner i why)" "keeps typed_world (AllocationUpdate i c g)" "keeps typed_world (Hub_RevokeWorker i)"
  "keeps typed_world (supervise i k pong)" "keeps typed_world (register i a kd k)" "keeps typed_world (touch i)"
  unfolding CancelMiner_def cancel_job_def AllocationUpdate_def Hub_RevokeWorker_def supervise_def register_def touch_def Let_def
  by (intro keeps_intros; simp add: written)+

lemma typed_ws_open [keeps_intros]: "keeps typed_world (ws_open rt h acc k)"
  unfolding ws_open_def Let_def by (intro keeps_intros) (simp add: written)

lemma typed_ws_end [keeps_intros]: "keeps typed_world (ws_end i k)"
  unfolding ws_end_def unregister_def by (intro keeps_intros) (simp_all add: written)

lemma typed_handleMessage [keeps_intros]:
  "keeps typed_world (handleAck i a job st err)" "keeps typed_world (handleMetrics i a job h acc rej)"
  "keeps typed_world (handleMessage f i a m)"
proof -
  show ack: "keeps typed_world (handleAck i a job st err)" for i a job st err
    unfolding handleAck_def by (intro typed_on_db keeps_intros) (simp_all add: written)
  show metrics: "keeps typed_world (handleMetrics i a job h acc rej)" for i a job h acc rej
    unfolding handleMetrics_def Let_def by (intro typed_on_db keeps_intros) simp_all
  have "keeps typed_world (on_db (UpdateWorkerCaps i caps))" "keeps typed_world (appendLog f i l msg)" for caps l msg
    unfolding appendLog_def by (intro typed_on_db keeps_intros; simp)+
  then show "keeps typed_world (handleMessage f i a m)"
    using ack metrics by (auto simp: handleMessage_def intro: keeps_intros split: inbound.split option.splits)
qed

lemma typed_ws_message [keeps_intros]: "keeps typed_world (ws_message f i a m)"
  unfolding ws_message_def by (intro keeps_intros)

subsection \<open>The server\<close>

lemma typed_replies [keeps_intros]:
  "keeps typed m \<Longrightarrow> (\<And>x. keeps typed_world (k x)) \<Longrightarrow> keeps typed_world (stored c m k)"
  "keeps typed m' \<Longrightarrow> (\<And>x. keeps typed_world (k' x)) \<Longrightarrow> keeps typed_world (lookup_or r m' k')"
  "(\<And>x. keeps typed_world (k'' x)) \<Longrightarrow> keeps typed_world (decoded body k'')"
  "keeps typed_world n \<Longrightarrow> keeps typed_world (guard ok r' n)"
  "keeps typed_world n' \<Longrightarrow> keeps typed_world (answer n')"
  unfolding stored_def lookup_or_def decoded_def guard_def answer_def by (intro typed_on_db keeps_intros; assumption)+

lemma typed_withLive: "keeps typed_world (withLive ms)"
  by (induction ms) (simp_all only: withLive.simps, (intro typed_on_db keeps_intros; assumption?)+)

lemma typed_known: "keeps typed_world (known_currencies cs)"
  by (induction cs) (simp_all only: known_currencies.simps, (intro typed_on_db keeps_intros; assumption?)+)

lemma resolved_engine: "resolve_engine cfg e = Inr x \<Longrightarrow> x \<in> {''adapter'', ''simulated''}"
  by (auto simp: resolve_engine_def split: if_splits)

lemmas typed_flow = keeps_return keeps_gets keeps_bind keeps_if keeps_case_sum keeps_case_option keeps_case_prod keeps_let
  keeps_each keeps_ignore typed_on_db typed_modify typed_hub_prims typed_replies typed_reads typed_frames typed_hub typed_Assign
  typed_withLive typed_known typed_PatchMiner typed_SetMinerAllocation typed_DeleteMiner typed_DeleteWorker typed_RevokeWorker
  typed_CreateMiner typed_SetMinerStatus typed_Enroll

lemma typed_handler: "keeps typed_world (api_handler E D rq args ep a)"
proof -
  note defs = api_handler_def Let_def api_endpoint.case small_handlers handleCreateMiner_def resolve_pool_def pool_checked_def
    wallet_checked_def handlePatchMiner_def handleMinerAllocation_def handleRevokeWorker_def handleDeleteWorker_def
    handleStartMiner_def handleStopMiner_def handleDeleteMiner_def wallet_of_def
  show ?thesis
    by (cases ep; simp only: defs; intro typed_flow; (simp add: written; fail | simp, drule resolved_engine, simp)?)
qed

lemma typed_poll: "keeps typed_world (poll_once P)"
  unfolding poll_once_def poll_row_def check_pool_def record_payment_def Let_def by (intro typed_flow)

lemma typed_streams: "keeps typed_world (events_turn owner ch t)" "keeps typed_world (events_close owner ch)"
  unfolding events_turn_def events_close_def LiveStats_def Let_def
  by (cases t; simp only: stream_turn.case; intro typed_flow; simp) (intro typed_flow; simp)

lemma typed_rollup: "keeps typed_world (on_db Retention_once)"
  unfolding Retention_once_def by (intro typed_flow)

lemma typed_seed: "keeps typed (seedTestData cfg sub)"
  unfolding seedTestData_def by (intro keeps_and_then typed_flow) simp_all

lemma typed_public: "keeps typed_world (handleEnroll E body)" "keeps typed_world (handleJoinInfo E code)"
  unfolding handleEnroll_def handleJoinInfo_def by (intro typed_flow)+

definition stays_typed :: "world \<Rightarrow> world \<Rightarrow> bool" where
  "stays_typed w w' \<longleftrightarrow> (typed_world w \<longrightarrow> typed_world w')"

lemma relates_typed: "keeps typed_world m \<Longrightarrow> relates stays_typed m"
  by (simp add: keeps_def relates_def stays_typed_def)

lemma stays_typed_order: "reflp stays_typed" "transp stays_typed"
  by (auto simp: stays_typed_def intro!: reflpI transpI)

interpretation typed_served: served stays_typed E D P for E D P
  by unfold_locales
    (rule stays_typed_order | (rule relates_typed, rule typed_handler typed_public typed_ws_open typed_ws_message typed_ws_end
      typed_hub typed_streams typed_rollup typed_poll typed_on_db [OF typed_seed]; simp?)
     | simp add: stays_typed_def typed_world_def NewHub_def)+

lemma typed_fresh: "fresh_db (wdb w) \<Longrightarrow> typed_world w"
  by (simp add: fresh_db_def typed_world_def typed_def)

lemma typed_reached:
  "fresh_db (wdb (sv_world s0)) \<Longrightarrow> (server_step E D lib B P)\<^sup>*\<^sup>* s0 s \<Longrightarrow> typed_world (sv_world s)"
  using typed_served.runs typed_fresh stays_typed_def by blast

text \<open>
  C7. The texts that the database holds are of their types: from a migrated database, whatever the running server
  does, every miner, worker and job has one of the listed statuses, every miner an engine that can run and every
  worker one of two kinds; a worker has the status \<open>revoked\<close> exactly when it has a time of revocation, and a job
  whose status is final has an end.
\<close>

theorem statuses_typed:
  assumes "fresh_db (wdb (sv_world s0))" and "(server_step E D lib B P)\<^sup>*\<^sup>* s0 s"
  shows "(\<forall>m \<in> set (miners (wdb (sv_world s))). m_status m \<in> {''created'', ''queued'', ''running'', ''stopped'', ''error''} \<and>
       m_engine m \<in> {''adapter'', ''simulated''}) \<and>
    (\<forall>k \<in> set (workers (wdb (sv_world s))). k_kind k \<in> {''native'', ''browser''} \<and>
       k_status k \<in> {''enrolled'', ''connected'', ''assigned'', ''mining'', ''offline'', ''revoked''} \<and>
       (k_revoked k \<noteq> None \<longleftrightarrow> k_status k = ''revoked'')) \<and>
    (\<forall>j \<in> set (jobs (wdb (sv_world s))). j_status j \<in> {''assigned'', ''ack'', ''ended'', ''error''} \<and>
       (j_status j \<in> {''ended'', ''error''} \<longrightarrow> j_ended j \<noteq> None))"
  using typed_reached [OF assms] unfolding typed_world_def typed_def typed_defs by blast

text \<open>The server starts on an empty database and seeds it.\<close>

definition seeding_api :: api_env where
  "seeding_api = demo_api\<lparr>ae_cfg := (ae_cfg demo_api)\<lparr>cf_seed_test_data := True\<rparr>\<rparr>"

definition empty_server :: "nat server" where
  "empty_server = NewServer (hub_idle\<lparr>wdb := sample_db\<rparr>) (sv_auth demo_server) 0"

theorem statuses_typed_witness:
  "filter (\<lambda>m. m_status m \<notin> {''created'', ''queued'', ''running'', ''stopped'', ''error''})
     (miners (wdb (sv_world (boot (ae_cfg seeding_api) ''alice'' 0 (sv_world empty_server) :: nat server)))) = []"
proof -
  have "fresh_db (wdb (sv_world empty_server))"
    by (simp add: empty_server_def NewServer_def fresh_db_def sample_data)
  from statuses_typed [OF this r_into_rtranclp [of "server_step seeding_api demo_decoders demo_lib credit P", OF server_step.restarted], of "''alice''" 0]
  show ?thesis unfolding filter_empty_conv by blast
qed

end
