(* ===== verification/Routines.thy ===== *)
theory Routines
  imports Prelude
begin

text \<open>
  Goroutines. A routine is a program cut into turns: a turn runs undisturbed (one statement of the database, one
  critical section, one write), and between two turns any other routine may run. \<open>exec\<close> runs the turns of a
  routine one after the other, which is the program as the other theories have it. \<open>safe\<close> says that each turn of
  a routine keeps to a relation \<open>R\<close> whatever the others do in between, if they keep to \<open>R\<close> as well; the locale
  \<open>rely\<close> has the rules.
\<close>

datatype ('s, 'a) routine = Finished 'a | Turn "('s, ('s, 'a) routine) state"

primrec exec :: "('s, 'a) routine \<Rightarrow> ('s, 'a) state" where
  "exec (Finished a) = ret a"
| "exec (Turn m) = map_state exec m \<bind> id"

definition turn :: "('s, 'a) state \<Rightarrow> ('s, 'a) routine" where
  "turn m = Turn (map_state Finished m)"

primrec andthen :: "('s, 'a) routine \<Rightarrow> ('a \<Rightarrow> ('s, 'b) routine) \<Rightarrow> ('s, 'b) routine" where
  "andthen (Finished a) f = f a"
| "andthen (Turn m) f = Turn (map_state (\<lambda>t. andthen t f) m)"

primrec each_turn :: "'b list \<Rightarrow> ('b \<Rightarrow> ('s, unit) routine) \<Rightarrow> ('s, unit) routine" where
  "each_turn [] f = Finished ()"
| "each_turn (x # xs) f = andthen (f x) (\<lambda>_. each_turn xs f)"

lemma run_map_state: "run_state (map_state g m) s = (case run_state m s of (a, t) \<Rightarrow> (g a, t))"
  by (cases m) (simp add: map_prod_def)

lemma state_ext: "(\<And>s. run_state m s = run_state n s) \<Longrightarrow> m = n"
  by (cases m; cases n) (simp add: fun_eq_iff)

lemma in_set_state: "run_state m s = (a, t) \<Longrightarrow> a \<in> set_state m"
  by (cases m) (simp add: image_iff, rule exI [of _ s], simp)

lemma exec_turn [simp]: "exec (turn m) = m"
  by (rule state_ext) (simp add: turn_def run_map_state split: prod.splits)

lemma exec_andthen [simp]: "exec (andthen t f) = exec t \<bind> (\<lambda>a. exec (f a))"
proof (induction t)
  case (Turn m)
  show ?case
  proof (rule state_ext)
    fix s
    obtain t u where m: "run_state m s = (t, u)" by fastforce
    have "exec (andthen t f) = exec t \<bind> (\<lambda>a. exec (f a))"
      by (rule Turn.IH [OF in_set_state [OF m]])
    then show "run_state (exec (andthen (Turn m) f)) s = run_state (exec (Turn m) \<bind> (\<lambda>a. exec (f a))) s"
      by (simp add: run_map_state m split: prod.splits)
  qed
qed simp

lemma andthen_assoc: "andthen (andthen t f) g = andthen t (\<lambda>a. andthen (f a) g)"
proof (induction t)
  case (Turn m)
  have "map_state (\<lambda>t. andthen (andthen t f) g) m = map_state (\<lambda>t. andthen t (\<lambda>a. andthen (f a) g)) m"
    by (rule state.map_cong [OF refl]) (rule Turn.IH)
  then show ?case by (simp add: state.map_comp comp_def)
qed simp

lemma andthen_turn: "andthen (turn m) f = Turn (map_state f m)"
  by (simp add: turn_def state.map_comp comp_def)

lemma exec_each [simp]: "exec (each_turn xs f) = each xs (\<lambda>x. exec (f x))"
  by (induction xs) simp_all

text \<open>A step of a pool: one of the routines takes its next turn.\<close>

inductive turns :: "('s, 'a) routine list \<times> 's \<Rightarrow> ('s, 'a) routine list \<times> 's \<Rightarrow> bool" where
  takes: "i < length ts \<Longrightarrow> ts ! i = Turn m \<Longrightarrow> run_state m s = (t, s') \<Longrightarrow> turns (ts, s) (ts[i := t], s')"

lemma turns_turn:
  "i < length ts \<Longrightarrow> ts ! i = andthen (turn m) f \<Longrightarrow> turns (ts, s) (ts[i := f (fst (run_state m s))], snd (run_state m s))"
  by (rule takes [of _ _ "map_state f m"]) (simp_all add: andthen_turn run_map_state split_beta)

lemma turns_whole:
  "i < length ts \<Longrightarrow> turns\<^sup>*\<^sup>* (ts[i := t], s) (ts[i := Finished (fst (run_state (exec t) s))], snd (run_state (exec t) s))"
proof (induction t arbitrary: s)
  case (Turn m)
  obtain t v where m: "run_state m s = (t, v)" by fastforce
  have "turns (ts[i := Turn m], s) (ts[i := t], v)" using takes [of i "ts[i := Turn m]" m s t v] m Turn.prems by simp
  moreover note Turn.IH [OF in_set_state [OF m] Turn.prems, of v]
  ultimately show ?case using m by (simp add: run_map_state converse_rtranclp_into_rtranclp)
qed simp

subsection \<open>Relying on the others\<close>

primrec safe :: "('s \<Rightarrow> 's \<Rightarrow> bool) \<Rightarrow> ('a \<Rightarrow> 's \<Rightarrow> bool) \<Rightarrow> ('s, 'a) routine \<Rightarrow> 's \<Rightarrow> bool" where
  "safe R Q (Finished a) = (\<lambda>s. \<forall>s'. R s s' \<longrightarrow> Q a s')"
| "safe R Q (Turn m) = (\<lambda>s. \<forall>s'. R s s' \<longrightarrow>
     R s' (snd (run_state m s')) \<and> fst (run_state (map_state (safe R Q) m) s') (snd (run_state m s')))"

lemma safe_Turn: "safe R Q (Turn m) s \<longleftrightarrow>
    (\<forall>s'. R s s' \<longrightarrow> R s' (snd (run_state m s')) \<and> safe R Q (fst (run_state m s')) (snd (run_state m s')))"
  by (simp add: run_map_state split_beta)

declare safe.simps(2) [simp del]

locale rely =
  fixes R :: "'s \<Rightarrow> 's \<Rightarrow> bool" and good :: "'s \<Rightarrow> bool"
  assumes refl: "reflp R" and trans: "transp R" and good: "good s \<Longrightarrow> R s s' \<Longrightarrow> good s'"
begin

lemma safe_others: "safe R Q t s \<Longrightarrow> R s s' \<Longrightarrow> safe R Q t s'"
  by (cases t) (auto simp: safe_Turn intro: transpD [OF trans])

lemma safe_turn: "safe R Q (Turn m) s \<Longrightarrow>
    R s (snd (run_state m s)) \<and> safe R Q (fst (run_state m s)) (snd (run_state m s))"
  unfolding safe_Turn using reflpD [OF refl] by blast

lemma safe_finished: "(\<And>s'. R s s' \<Longrightarrow> Q a s') \<Longrightarrow> safe R Q (Finished a) s"
  by simp

lemma safe_single:
  assumes "\<And>u. R s u \<Longrightarrow> R u (snd (run_state m u))"
    and "\<And>u s'. R s u \<Longrightarrow> R (snd (run_state m u)) s' \<Longrightarrow> Q (fst (run_state m u)) s'"
  shows "safe R Q (turn m) s"
  using assms by (simp add: turn_def safe_Turn run_map_state split_beta)

lemma safe_andthen:
  assumes "safe R Q t s" and "\<And>a s'. R s s' \<Longrightarrow> Q a s' \<Longrightarrow> safe R Q' (f a) s'"
  shows "safe R Q' (andthen t f) s"
  using assms
proof (induction t arbitrary: s)
  case (Finished a)
  then show ?case using reflpD [OF refl] by simp
next
  case (Turn m)
  show ?case
    unfolding andthen.simps safe_Turn
  proof (intro allI impI)
    fix u assume u: "R s u"
    obtain t v where m: "run_state m u = (t, v)" by fastforce
    have "R u v \<and> safe R Q t v" using Turn.prems(1) u m unfolding safe_Turn by fastforce
    moreover have "safe R Q' (andthen t f) v"
      using calculation Turn.prems(2) transpD [OF trans u]
      by (intro Turn.IH [OF in_set_state [OF m]]) (blast intro: transpD [OF trans])+
    ultimately show "R u (snd (run_state (map_state (\<lambda>t. andthen t f) m) u)) \<and>
        safe R Q' (fst (run_state (map_state (\<lambda>t. andthen t f) m) u)) (snd (run_state (map_state (\<lambda>t. andthen t f) m) u))"
      by (simp add: run_map_state m)
  qed
qed

text \<open>Routines that keep to \<open>R\<close> from every good state.\<close>

definition steady :: "('s, 'a) routine \<Rightarrow> bool" where
  "steady t \<longleftrightarrow> (\<forall>s. good s \<longrightarrow> safe R (\<lambda>_ _. True) t s)"

lemma steady_finished: "steady (Finished a)"
  by (simp add: steady_def)

lemma steady_turn: "relates R m \<Longrightarrow> steady (turn m)"
  by (auto simp: steady_def intro: safe_single relatesD)

lemma steady_andthen: "steady t \<Longrightarrow> (\<And>a. steady (f a)) \<Longrightarrow> steady (andthen t f)"
  unfolding steady_def by (blast intro: safe_andthen good)

lemma steady_if: "(b \<Longrightarrow> steady t) \<Longrightarrow> (\<not> b \<Longrightarrow> steady u) \<Longrightarrow> steady (if b then t else u)"
  by simp

lemma steady_case_sum: "(\<And>e. x = Inl e \<Longrightarrow> steady (f e)) \<Longrightarrow> (\<And>a. x = Inr a \<Longrightarrow> steady (g a)) \<Longrightarrow>
   steady (case x of Inl e \<Rightarrow> f e | Inr a \<Rightarrow> g a)"
  by (simp split: sum.splits)

lemma steady_case_option: "(x = None \<Longrightarrow> steady t) \<Longrightarrow> (\<And>a. x = Some a \<Longrightarrow> steady (g a)) \<Longrightarrow>
   steady (case x of None \<Rightarrow> t | Some a \<Rightarrow> g a)"
  by (simp split: option.splits)

lemma steady_case_prod: "(\<And>a b. x = (a, b) \<Longrightarrow> steady (f a b)) \<Longrightarrow> steady (case x of (a, b) \<Rightarrow> f a b)"
  by (simp split: prod.splits)

lemma steady_each: "(\<And>x. x \<in> set xs \<Longrightarrow> steady (f x)) \<Longrightarrow> steady (each_turn xs f)"
  by (induction xs) (simp_all add: steady_finished steady_andthen)

lemmas steady_intros = steady_finished steady_turn steady_andthen steady_if steady_case_sum steady_case_option
  steady_case_prod steady_each

text \<open>A pool of routines stays safe when one of them takes a turn, and when something else keeps to \<open>R\<close>.\<close>

definition pool_safe :: "('s, 'a) routine list \<Rightarrow> 's \<Rightarrow> bool" where
  "pool_safe ts s \<longleftrightarrow> good s \<and> (\<forall>t \<in> set ts. safe R (\<lambda>_ _. True) t s)"

lemma pool_others: "pool_safe ts s \<Longrightarrow> R s s' \<Longrightarrow> pool_safe ts s'"
  using good by (auto simp: pool_safe_def intro: safe_others)

lemma pool_turn: "turns p p' \<Longrightarrow> pool_safe (fst p) (snd p) \<Longrightarrow> pool_safe (fst p') (snd p')"
proof (induction rule: turns.induct)
  case (takes i ts m s t s')
  have "safe R (\<lambda>_ _. True) (Turn m) s" using takes(1,2,4) nth_mem by (fastforce simp: pool_safe_def)
  then have t: "R s s'" "safe R (\<lambda>_ _. True) t s'" using safe_turn takes(3) by fastforce+
  then show ?case
    using takes(4) pool_others [of ts s s'] set_update_subset_insert [of ts i t] by (auto simp: pool_safe_def)
qed

lemma pool_spawn: "pool_safe ts s \<Longrightarrow> steady t \<Longrightarrow> pool_safe (t # ts) s"
  by (simp add: pool_safe_def steady_def)

end

end
