(* ===== verification/HubIds.thy ===== *)
theory HubIds
  imports HubInv
begin

text \<open>
  The keys of miners and workers over time. An id that the database hands out is the one of its statement counter,
  which only grows: so a key that is new between two states was never used before the first (\<open>since\<close>), and what a
  routine has read of the owner of a key stays true while other routines run.
\<close>

definition stmt_since :: "db \<Rightarrow> db \<Rightarrow> bool" where
  "stmt_since s t \<longleftrightarrow> env t = env s \<and> tick t = tick s \<and>
     (\<forall>k a. (k, a) \<in> miner_owners t \<longrightarrow> (k, a) \<in> miner_owners s \<or> k = new_uuid s) \<and>
     (\<forall>k a. (k, a) \<in> worker_owners t \<longrightarrow> (k, a) \<in> worker_owners s \<or> k = new_uuid s)"

definition issued :: "db \<Rightarrow> nat \<Rightarrow> nat \<Rightarrow> string \<Rightarrow> bool" where
  "issued d n n' k \<longleftrightarrow> (\<exists>i. n \<le> i \<and> i < n' \<and> k = fresh_uuid (env d) i)"

definition since :: "db \<Rightarrow> db \<Rightarrow> bool" where
  "since s t \<longleftrightarrow> env t = env s \<and> tick s \<le> tick t \<and>
     (\<forall>k a. (k, a) \<in> miner_owners t \<longrightarrow> (k, a) \<in> miner_owners s \<or> issued s (tick s) (tick t) k) \<and>
     (\<forall>k a. (k, a) \<in> worker_owners t \<longrightarrow> (k, a) \<in> worker_owners s \<or> issued s (tick s) (tick t) k)"

lemma issued_mono: "issued d n m k \<Longrightarrow> n' \<le> n \<Longrightarrow> m \<le> m' \<Longrightarrow> env d' = env d \<Longrightarrow> issued d' n' m' k"
  unfolding issued_def by (metis order_trans less_le_trans)

lemma since_reflp [simp, relates_intros]: "reflp since"
  by (simp add: reflp_def since_def)

lemma since_transp [simp, relates_intros]: "transp since"
proof (rule transpI)
  fix s t u assume st: "since s t" and tu: "since t u"
  then have e: "env t = env s" "env u = env t" "tick s \<le> tick t" "tick t \<le> tick u" by (simp_all add: since_def)
  have i: "issued s (tick s) (tick u) k" if "issued s (tick s) (tick t) k \<or> issued t (tick t) (tick u) k" for k
    using that e by (elim disjE) (erule issued_mono, simp_all)+
  show "since s u"
    unfolding since_def
  proof (intro conjI allI impI)
    fix k a
    { assume "(k, a) \<in> miner_owners u"
      then show "(k, a) \<in> miner_owners s \<or> issued s (tick s) (tick u) k" using st tu i unfolding since_def by blast }
    { assume "(k, a) \<in> worker_owners u"
      then show "(k, a) \<in> worker_owners s \<or> issued s (tick s) (tick u) k" using st tu i unfolding since_def by blast }
  qed (use e in simp_all)
qed

lemma since_refl [simp]: "since s s"
  by (simp add: since_def)

lemma since_bump: "stmt_since s t \<Longrightarrow> since s (bump t)"
  unfolding stmt_since_def since_def by (auto simp: issued_def new_uuid_def intro!: exI [of _ "tick s"])

lemma since_later: "tick s \<le> n \<Longrightarrow> since s (s\<lparr>tick := n\<rparr>)"
  by (simp add: since_def)

lemma since_sql [relates_intros]:
  assumes "\<And>s a t. f s = Inr (a, t) \<Longrightarrow> stmt_since s t"
  shows "relates since (sql f)"
  by (auto simp: relates_def run_sql since_bump assms since_later split: sum.splits)

lemma since_query [relates_intros]: "relates since (query f)"
  by (auto simp: relates_def run_query since_later)

lemma since_affected [relates_intros]: "relates since m \<Longrightarrow> relates since (affected m)"
  unfolding affected_def by (intro relates_intros)

lemma stmt_same [simp]: "env t = env s \<Longrightarrow> tick t = tick s \<Longrightarrow> miners t = miners s \<Longrightarrow> workers t = workers s \<Longrightarrow> stmt_since s t"
  by (simp add: stmt_since_def owner_defs)

lemma stmt_shrinks: "shrinks s t \<Longrightarrow> env t = env s \<Longrightarrow> tick t = tick s \<Longrightarrow> stmt_since s t"
  unfolding stmt_since_def shrinks_def by blast

lemma since_sql_shrinks:
  assumes "\<And>s a t. f s = Inr (a, t) \<Longrightarrow> shrinks s t \<and> env t = env s \<and> tick t = tick s"
  shows "relates since (sql f)"
  by (rule since_sql) (use assms stmt_shrinks in blast)

subsection \<open>Every method\<close>

lemma since_wallets: "relates since (CreateWallet a b c d e)" "relates since (DeleteWallet a b)"
  unfolding CreateWallet_def DeleteWallet_def
  by (intro relates_intros; auto simp: insert_wallet_def delete_wallet_def stmt_simps Let_def)+

lemma since_runs: "relates since (OpenRun a)" "relates since (CloseRun a b c d e)"
  "relates since (InsertMetricSample a k h m n)" "relates since RollupOnce"
  unfolding OpenRun_def CloseRun_def InsertMetricSample_def RollupOnce_def
  by (intro relates_intros; auto simp: stmt_simps rollup_stmt_def prune_stmt_def split: option.splits)+

lemma since_settings: "relates since (PutSetting a b val)" "relates since (PutCurrencySetting a b u on ad)"
  "relates since (PutExchangeSetting a b cs ak pk)" "relates since (InsertPayout a b c d e f g h i)"
  unfolding PutSetting_def PutCurrencySetting_def PutExchangeSetting_def InsertPayout_def Let_def
  by (intro relates_intros; auto simp: insert_payout_def with_new_id_Inr Let_def split: list.splits if_splits)+

lemma since_codes: "relates since (Codes_Create rt a)" "relates since (Codes_Revoke a b)"
  unfolding Codes_Create_def Codes_Revoke_def
  by (intro relates_intros; auto simp: insert_code_def delete_code_def stmt_simps Let_def)+

lemma since_jobs: "relates since (CreateSwarmJob a b)" "relates since (SetSwarmJobStatus a b)"
  unfolding CreateSwarmJob_def SetSwarmJobStatus_def
  by (intro relates_intros; auto simp: stmt_simps)+

lemma since_update_miner: "update_miner o1 u g bad s = Inr (x, t) \<Longrightarrow>
  (\<And>m. m_id (g s m) = m_id m \<and> m_owner (g s m) = m_owner m) \<Longrightarrow> stmt_since s t"
  using shrinks_update_miner [of o1 u g bad s x t]
  by (intro stmt_shrinks) (auto simp: update_miner_def stmt_simps split: option.splits prod.splits)

lemma since_PatchMiner: "relates since (PatchMiner a b c d e)"
  unfolding PatchMiner_def
  by (intro relates_intros)
    (elim with_uuid_ex [elim_format] with_uuid_opt_ex [elim_format] exE, erule since_update_miner, simp add: patch_row_def)

lemma since_SetMinerAllocation: "relates since (SetMinerAllocation a b m n)"
  unfolding SetMinerAllocation_def
  by (intro relates_intros) (auto simp: with_uuid_Inr require_Inr elim!: since_update_miner)

lemma since_miners: "relates since (SetMinerStatus a b)" "relates since (DeleteMiner a b)"
  unfolding SetMinerStatus_def DeleteMiner_def Let_def
  by (intro relates_intros; auto simp: with_uuid_Inr drop_miners_def Let_def stmt_since_def owner_defs set_upd_where)+

lemma since_workers: "relates since (SetWorkerStatus a b)" "relates since (UpdateWorkerCaps a caps)"
  "relates since (RevokeWorker a b)" "relates since (DeleteWorker a b)"
  unfolding SetWorkerStatus_def UpdateWorkerCaps_def RevokeWorker_def revoke_worker_def end_jobs_of_worker_def DeleteWorker_def Let_def
  by (intro relates_intros; auto simp: with_uuid_Inr drop_workers_def Let_def stmt_since_def owner_defs set_upd_where)+

lemma since_CreateMiner: "relates since (CreateMiner p)"
  unfolding CreateMiner_def GetMiner_def
  by (intro relates_intros) (auto simp: insert_miner_def stmt_simps stmt_since_def owner_defs split: option.splits)

lemma since_transaction:
  assumes "\<And>now. relates since (body now)"
  shows "relates since (transaction body)"
proof (rule relatesI)
  fix s
  obtain r t where run: "run_state (body (db_now s)) (bump s) = (r, t)" by fastforce
  have t: "since s t" using relatesD [OF assms, of "bump s" "db_now s"] run transpD [OF since_transp since_later [of s "Suc (tick s)"]] by simp
  then have "since s (bump t)" by (rule transpD [OF since_transp _ since_later]) simp
  moreover have "since s (rollback_to s t)" "since s (bump (rollback_to s t))"
    using t by (simp_all add: rollback_to_def since_later since_def)
  ultimately show "since s (snd (run_state (transaction body) s))"
    using run t by (auto simp: transaction_def since_later split: sum.splits)
qed

lemma since_enroll_tx: "relates since (enroll_tx c n hw h)"
  unfolding enroll_tx_def
  by (intro since_transaction relates_intros) (auto simp: insert_worker_def consume_code_def stmt_simps Let_def stmt_since_def owner_defs)

lemma since_Enroll: "relates since (Enroll rt code n hw)"
  unfolding Enroll_def enroll_match_def Let_def find_code_def code_candidates_def
  by (intro relates_intros since_enroll_tx)

lemmas since_calls = since_wallets since_runs since_settings since_codes since_jobs since_PatchMiner since_SetMinerAllocation since_miners since_workers
  since_CreateMiner since_enroll_tx since_Enroll

lemma db_call_since: "db_call d s t \<Longrightarrow> since s t"
  by (induction rule: db_call.induct) (simp_all add: since_later since_calls [THEN relatesD])

end
