(* ===== verification/HubRoutines.thy ===== *)
theory HubRoutines
  imports Routines HubIds
begin

text \<open>
  The operations of the hub as goroutines, in turns: a statement of the database, a section under the mutex of the
  hub, a write to a connection, or a call of the event bus. Run without interruption they are the operations of
  \<open>Hub\<close> (\<open>exec_\<dots>\<close>). \<open>pool_step\<close> interleaves any number of them with each other and with everything else.
\<close>

subsection \<open>The turns of the operations\<close>

abbreviation on_store :: "(db, 'a) state \<Rightarrow> (world, 'a) routine" where
  "on_store m \<equiv> turn (on_db m)"

abbreviation store_do :: "(db, 'a) state \<Rightarrow> (world, unit) routine" where
  "store_do m \<equiv> turn (ignore (on_db m))"

definition go_handleAck :: "string \<Rightarrow> string \<Rightarrow> string \<Rightarrow> string \<Rightarrow> string \<Rightarrow> (world, unit) routine" where
  "go_handleAck workerID owner jobID status errMsg =
     andthen (on_store (ActiveJobForWorker jobID workerID)) (\<lambda>r. case r of
       Inl _ \<Rightarrow> Finished ()
     | Inr job \<Rightarrow>
         if status = ''ok'' then
           andthen (store_do (SetSwarmJobStatus jobID ''ack'')) (\<lambda>_.
           andthen (store_do (SetMinerStatus (sj_miner job) ''running'')) (\<lambda>_.
           andthen (store_do (SetWorkerStatus workerID ''mining'')) (\<lambda>_.
           andthen (turn (modify (\<lambda>w. (set_live workerID (\<lambda>l. l\<lparr>lw_jobs := aput jobID (sj_miner job) (lw_jobs l)\<rparr>) w)
             \<lparr>jstates := aput jobID \<lparr>js_miner = sj_miner job, js_owner = owner, js_last_acc = 0, js_last_rej = 0,
                js_tot_acc = 0, js_tot_rej = 0\<rparr> (jstates w)\<rparr>))) (\<lambda>_.
           turn (publish owner ''miner_status'' [(''miner_id'', EStr (sj_miner job)), (''status'', EStr ''running'')])))))
         else
           andthen (store_do (SetSwarmJobStatus jobID ''error'')) (\<lambda>_.
           andthen (store_do (SetMinerStatus (sj_miner job) ''error'')) (\<lambda>_.
           turn (publish owner ''miner_status'' [(''miner_id'', EStr (sj_miner job)), (''status'', EStr ''error''),
             (''error'', EStr errMsg)]))))"

text \<open>The section under the mutex returns the differences, which go into the sample.\<close>

definition book_report :: "string \<Rightarrow> string \<Rightarrow> string \<Rightarrow> string \<Rightarrow> rat \<Rightarrow> i64 \<Rightarrow> i64 \<Rightarrow> (world, i64 \<times> i64) state" where
  "book_report workerID owner jobID miner hashrate acc rej = do {
     found \<leftarrow> gets (\<lambda>w. map_of (jstates w) jobID);
     let js = (case found of Some js \<Rightarrow> js
       | None \<Rightarrow> \<lparr>js_miner = miner, js_owner = owner, js_last_acc = acc, js_last_rej = rej, js_tot_acc = 0, js_tot_rej = 0\<rparr>);
     modify (\<lambda>w. (set_live workerID (\<lambda>l. l\<lparr>lw_rate := hashrate\<rparr>) w)
       \<lparr>jstates := aput jobID (count_report acc rej js) (jstates w)\<rparr>);
     ret (delta acc (js_last_acc js), delta rej (js_last_rej js))
   }"

definition go_handleMetrics :: "string \<Rightarrow> string \<Rightarrow> string \<Rightarrow> rat \<Rightarrow> i64 \<Rightarrow> i64 \<Rightarrow> (world, unit) routine" where
  "go_handleMetrics workerID owner jobID hashrate acc rej =
     andthen (on_store (ActiveJobForWorker jobID workerID)) (\<lambda>r. case r of
       Inl _ \<Rightarrow> Finished ()
     | Inr job \<Rightarrow>
         andthen (turn (book_report workerID owner jobID (sj_miner job) hashrate acc rej)) (\<lambda>d.
         store_do (InsertMetricSample (sj_miner job) (Some workerID) hashrate (sint (fst d)) (sint (snd d)))))"

definition go_handleMessage :: "(int \<Rightarrow> string) \<Rightarrow> string \<Rightarrow> string \<Rightarrow> inbound \<Rightarrow> (world, unit) routine" where
  "go_handleMessage stamp workerID owner m = (case m of
       InAck jobID status err \<Rightarrow> if jobID = [] then Finished () else go_handleAck workerID owner jobID status err
     | InMetrics jobID h acc rej \<Rightarrow> if jobID = [] then Finished () else go_handleMetrics workerID owner jobID h acc rej
     | _ \<Rightarrow> turn (handleMessage stamp workerID owner m))"

text \<open>\<open>Assign\<close> in three parts: the message to the worker, the job for the target, and the choice of the target.\<close>

definition go_send_job :: "live_worker \<Rightarrow> nat \<Rightarrow> string \<Rightarrow> assign_payload \<Rightarrow> (world, bool) routine" where
  "go_send_job target targetConn jobID payload =
     andthen (turn (send targetConn (JobAssign payload))) (\<lambda>ok.
     if ok then andthen (store_do (SetWorkerStatus (lw_id target) ''assigned'')) (\<lambda>_. Finished True)
     else andthen (store_do (SetSwarmJobStatus jobID ''error'')) (\<lambda>_. Finished False))"

definition go_place :: "miner \<Rightarrow> currency \<Rightarrow> string \<Rightarrow> live_worker \<Rightarrow> nat \<Rightarrow> (world, bool) routine" where
  "go_place m cur walletAddr target targetConn =
     andthen (on_store (minerOwner (mn_id m))) (\<lambda>owner.
     andthen (on_store (GetWorker owner (lw_id target))) (\<lambda>rk. case rk of
       Inl _ \<Rightarrow> Finished False
     | Inr k \<Rightarrow>
         andthen (on_store (CreateSwarmJob (mn_id m) (lw_id target))) (\<lambda>rj. case rj of
           Inl _ \<Rightarrow> Finished False
         | Inr jobID \<Rightarrow> go_send_job target targetConn jobID (engine_payload jobID m cur walletAddr k (lw_id target)))))"

definition go_Assign :: "miner \<Rightarrow> currency \<Rightarrow> string \<Rightarrow> (world, bool) routine" where
  "go_Assign m cur walletAddr =
     andthen (turn (do { entries \<leftarrow> gets (\<lambda>w. map_range w (live w)); pick_target (mn_id m) entries None })) (\<lambda>best.
     case best of
       None \<Rightarrow> Finished False
     | Some (target, targetConn) \<Rightarrow> go_place m cur walletAddr target targetConn)"

definition go_AssignQueued :: "string \<Rightarrow> (world, unit) routine" where
  "go_AssignQueued owner =
     andthen (on_store (QueuedMinersForOwner owner)) (\<lambda>r. case r of
       Inl _ \<Rightarrow> Finished ()
     | Inr ms \<Rightarrow> each_turn ms (\<lambda>m.
         andthen (on_store (GetCurrency (mn_currency m))) (\<lambda>rc. case rc of
           Inl _ \<Rightarrow> Finished ()
         | Inr cur \<Rightarrow>
             andthen (turn (wallet_of owner (mn_wallet m))) (\<lambda>addr.
             andthen (go_Assign m cur addr) (\<lambda>_. Finished ())))))"

text \<open>The section of \<open>CancelMiner\<close> under the mutex: the connection and the counters of the job, which is forgotten.\<close>

definition forget_job :: "swarm_job \<Rightarrow> (world, nat option \<times> job_state option) state" where
  "forget_job j = do {
     wc \<leftarrow> gets (\<lambda>w. map_of (conns w) (sj_worker j));
     js \<leftarrow> gets (\<lambda>w. map_of (jstates w) (sj_job j));
     modify (\<lambda>w. (set_live (sj_worker j) (\<lambda>l. l\<lparr>lw_jobs := adel (sj_job j) (lw_jobs l), lw_rate := 0\<rparr>) w)
       \<lparr>jstates := adel (sj_job j) (jstates w)\<rparr>);
     ret (wc, js)
   }"

definition go_cancel_job :: "string \<Rightarrow> string \<Rightarrow> swarm_job \<Rightarrow> (world, unit) routine" where
  "go_cancel_job minerID reason j =
     andthen (turn (forget_job j)) (\<lambda>x.
     andthen (case fst x of None \<Rightarrow> Finished () | Some c \<Rightarrow> turn (ignore (send c (JobCancel (sj_job j))))) (\<lambda>_.
     andthen (store_do (SetSwarmJobStatus (sj_job j) ''ended'')) (\<lambda>_.
     andthen (on_store (runAvgHashrate minerID)) (\<lambda>avg.
     store_do (CloseRun minerID reason avg
       (case snd x of None \<Rightarrow> 0 | Some js \<Rightarrow> js_tot_acc js) (case snd x of None \<Rightarrow> 0 | Some js \<Rightarrow> js_tot_rej js))))))"

definition go_CancelMiner :: "string \<Rightarrow> string \<Rightarrow> (world, unit) routine" where
  "go_CancelMiner minerID reason =
     andthen (on_store (ActiveJobsForMiner minerID)) (\<lambda>r. case r of
       Inl _ \<Rightarrow> Finished () | Inr js \<Rightarrow> each_turn js (go_cancel_job minerID reason))"

definition go_AllocationUpdate :: "string \<Rightarrow> int \<Rightarrow> int \<Rightarrow> (world, unit) routine" where
  "go_AllocationUpdate minerID cpuPct gpuPct =
     andthen (on_store (ActiveJobsForMiner minerID)) (\<lambda>r. case r of
       Inl _ \<Rightarrow> Finished ()
     | Inr js \<Rightarrow> each_turn js (\<lambda>j.
         andthen (turn (gets (\<lambda>w. map_of (conns w) (sj_worker j)))) (\<lambda>wc. case wc of
           None \<Rightarrow> Finished ()
         | Some c \<Rightarrow> turn (ignore (send c (AllocationUpdateMsg (sj_job j) cpuPct gpuPct))))))"

definition go_RevokeWorker :: "string \<Rightarrow> (world, unit) routine" where
  "go_RevokeWorker workerID =
     andthen (turn (gets (\<lambda>w. map_of (conns w) workerID))) (\<lambda>wc. case wc of
       None \<Rightarrow> Finished ()
     | Some c \<Rightarrow> andthen (turn (ignore (send c WorkerRevokeMsg))) (\<lambda>_. turn (shut_conn c)))"

definition go_supervise :: "string \<Rightarrow> nat \<Rightarrow> bool \<Rightarrow> (world, bool) routine" where
  "go_supervise workerID c pong =
     andthen (turn (gets (\<lambda>w. (map_of (live w) workerID, wall w)))) (\<lambda>x. case fst x of
       None \<Rightarrow> Finished True
     | Some l \<Rightarrow>
         if snd x - lw_last l \<le> HeartbeatWindow then Finished False
         else if pong then Finished False
         else andthen (turn (shut_conn c)) (\<lambda>_. Finished True))"

subsection \<open>A connection\<close>

definition go_unregister :: "string \<Rightarrow> (world, unit) routine" where
  "go_unregister workerID =
     andthen (turn (do { lw \<leftarrow> gets (\<lambda>w. map_of (live w) workerID);
       modify (\<lambda>w. w\<lparr>conns := adel workerID (conns w), live := adel workerID (live w)\<rparr>); ret lw })) (\<lambda>lw.
     andthen (store_do (SetWorkerStatus workerID ''offline'')) (\<lambda>_. case lw of
       None \<Rightarrow> Finished ()
     | Some l \<Rightarrow> turn (publish (lw_owner l) ''worker_left'' [(''id'', EStr workerID)])))"

definition go_ws_open :: "runtime \<Rightarrow> string \<Rightarrow> bool \<Rightarrow> nat \<Rightarrow> (world, (string \<times> string) option) routine" where
  "go_ws_open rt header accept c = (let token = bearer_token header in
     if token = [] then Finished None
     else
       andthen (turn (do { now \<leftarrow> gets wall; on_db (AuthenticateWorker rt now token) })) (\<lambda>r. case r of
         Inl _ \<Rightarrow> Finished None
       | Inr (workerID, owner, kind) \<Rightarrow>
           if \<not> accept then Finished None
           else
             andthen (turn (register workerID owner kind c)) (\<lambda>_.
             andthen (store_do (SetWorkerStatus workerID ''connected'')) (\<lambda>_.
             andthen (turn (publish owner ''worker_joined'' [(''id'', EStr workerID), (''kind'', EStr kind)])) (\<lambda>_.
             andthen (go_AssignQueued owner) (\<lambda>_. Finished (Some (workerID, owner))))))))"

definition go_ws_message :: "(int \<Rightarrow> string) \<Rightarrow> string \<Rightarrow> string \<Rightarrow> inbound \<Rightarrow> (world, unit) routine" where
  "go_ws_message stamp workerID owner m = andthen (turn (touch workerID)) (\<lambda>_. go_handleMessage stamp workerID owner m)"

definition go_ws_end :: "string \<Rightarrow> nat \<Rightarrow> (world, unit) routine" where
  "go_ws_end workerID c = andthen (turn (shut_conn c)) (\<lambda>_. go_unregister workerID)"

text \<open>\<open>HandleWS\<close> as a whole, for a connection on which the messages \<open>ms\<close> arrive before the read fails.\<close>

definition HandleWS :: "runtime \<Rightarrow> string \<Rightarrow> bool \<Rightarrow> nat \<Rightarrow> (int \<Rightarrow> string) \<Rightarrow> inbound list \<Rightarrow> (world, unit) state" where
  "HandleWS rt header accept c stamp ms = do {
     r \<leftarrow> ws_open rt header accept c;
     case r of
       None \<Rightarrow> ret ()
     | Some (workerID, owner) \<Rightarrow> do { each ms (ws_message stamp workerID owner); ws_end workerID c }
   }"

definition go_HandleWS :: "runtime \<Rightarrow> string \<Rightarrow> bool \<Rightarrow> nat \<Rightarrow> (int \<Rightarrow> string) \<Rightarrow> inbound list \<Rightarrow> (world, unit) routine" where
  "go_HandleWS rt header accept c stamp ms = andthen (go_ws_open rt header accept c) (\<lambda>r. case r of
     None \<Rightarrow> Finished ()
   | Some (workerID, owner) \<Rightarrow>
       andthen (each_turn ms (go_ws_message stamp workerID owner)) (\<lambda>_. go_ws_end workerID c))"

subsection \<open>Without interruption\<close>

lemma exec_case [simp]:
  "exec (case x of Inl e \<Rightarrow> f e | Inr a \<Rightarrow> g a) = (case x of Inl e \<Rightarrow> exec (f e) | Inr a \<Rightarrow> exec (g a))"
  "exec (case y of None \<Rightarrow> t | Some b \<Rightarrow> h b) = (case y of None \<Rightarrow> exec t | Some b \<Rightarrow> exec (h b))"
  "exec (case z of (c, d) \<Rightarrow> k c d) = (case z of (c, d) \<Rightarrow> exec (k c d))"
  "exec (if q then t else u) = (if q then exec t else exec u)"
  by (simp_all split: sum.splits option.splits prod.splits)

lemma exec_handleAck [simp]: "exec (go_handleAck a b c d e) = handleAck a b c d e"
  by (simp add: go_handleAck_def handleAck_def cong: sum.case_cong if_cong)

lemma exec_handleMetrics [simp]: "exec (go_handleMetrics a b c d e f) = handleMetrics a b c d e f"
  by (simp add: go_handleMetrics_def handleMetrics_def book_report_def Let_def bind_assoc cong: sum.case_cong)

lemma exec_handleMessage [simp]: "exec (go_handleMessage f a b m) = handleMessage f a b m"
  by (cases m) (simp_all add: go_handleMessage_def handleMessage_def)

lemma exec_Assign [simp]: "exec (go_Assign m cur addr) = Assign m cur addr"
  by (simp add: go_Assign_def go_place_def go_send_job_def Assign_def cong: sum.case_cong if_cong option.case_cong prod.case_cong)

lemma exec_AssignQueued [simp]: "exec (go_AssignQueued a) = AssignQueued a"
  by (simp add: go_AssignQueued_def AssignQueued_def ignore_def cong: sum.case_cong)

lemma exec_cancel_job [simp]: "exec (go_cancel_job a b j) = cancel_job a b j"
  by (simp add: go_cancel_job_def cancel_job_def forget_job_def cong: option.case_cong)

lemma exec_CancelMiner [simp]: "exec (go_CancelMiner a b) = CancelMiner a b"
  by (simp add: go_CancelMiner_def CancelMiner_def cong: sum.case_cong)

lemma exec_AllocationUpdate [simp]: "exec (go_AllocationUpdate a b c) = AllocationUpdate a b c"
  by (simp add: go_AllocationUpdate_def AllocationUpdate_def cong: sum.case_cong option.case_cong)

lemma exec_RevokeWorker [simp]: "exec (go_RevokeWorker a) = Hub_RevokeWorker a"
  by (simp add: go_RevokeWorker_def Hub_RevokeWorker_def cong: option.case_cong)

lemma exec_supervise [simp]: "exec (go_supervise a b c) = supervise a b c"
  by (rule state_ext) (auto simp: go_supervise_def supervise_def split: option.splits)

lemma exec_unregister [simp]: "exec (go_unregister a) = unregister a"
  by (simp add: go_unregister_def unregister_def cong: option.case_cong)

lemma exec_ws_open [simp]: "exec (go_ws_open rt header accept c) = ws_open rt header accept c"
  by (simp add: go_ws_open_def ws_open_def Let_def cong: sum.case_cong if_cong prod.case_cong)

lemma exec_ws_message [simp]: "exec (go_ws_message f a b m) = ws_message f a b m"
  by (simp add: go_ws_message_def ws_message_def)

lemma exec_ws_end [simp]: "exec (go_ws_end a c) = ws_end a c"
  by (simp add: go_ws_end_def ws_end_def)

lemma exec_HandleWS [simp]: "exec (go_HandleWS rt header accept c stamp ms) = HandleWS rt header accept c stamp ms"
  by (simp add: go_HandleWS_def HandleWS_def cong: option.case_cong prod.case_cong)

subsection \<open>What a routine may rely on\<close>

definition ids_old :: "db \<Rightarrow> bool" where
  "ids_old d \<longleftrightarrow> inj (fresh_uuid (env d)) \<and> (\<forall>k \<in> fst ` miner_owners d \<union> fst ` worker_owners d. issued d 0 (tick d) k)"

lemma ids_old_since: "ids_old s \<Longrightarrow> since s t \<Longrightarrow> ids_old t"
  unfolding ids_old_def
proof (intro conjI ballI)
  fix k assume s: "inj (fresh_uuid (env s)) \<and> (\<forall>k \<in> fst ` miner_owners s \<union> fst ` worker_owners s. issued s 0 (tick s) k)"
    and st: "since s t" and k: "k \<in> fst ` miner_owners t \<union> fst ` worker_owners t"
  from k obtain a where "(k, a) \<in> miner_owners t \<or> (k, a) \<in> worker_owners t" by force
  then have "(k, a) \<in> miner_owners s \<or> (k, a) \<in> worker_owners s \<or> issued s (tick s) (tick t) k"
    using st unfolding since_def by blast
  then have "issued s 0 (tick s) k \<or> issued s (tick s) (tick t) k" using s by force
  then show "issued t 0 (tick t) k" using st by (elim disjE) (erule issued_mono, auto simp: since_def)+
qed (simp add: since_def)

text \<open>The good states of the interleaving, and the steps that any routine may take: they keep to good states and only
  issue ids that were never used.\<close>

definition settled :: "world \<Rightarrow> bool" where
  "settled w \<longleftrightarrow> hub_good w \<and> ids_old (wdb w)"

definition aged :: "world \<Rightarrow> world \<Rightarrow> bool" where
  "aged w w' \<longleftrightarrow> since (wdb w) (wdb w')"

definition moves :: "world \<Rightarrow> world \<Rightarrow> bool" where
  "moves w w' \<longleftrightarrow> (settled w \<longrightarrow> settled w' \<and> aged w w')"

lemma aged_order [simp, relates_intros]: "reflp aged" "transp aged"
  using transpD [OF since_transp] by (auto simp: aged_def intro!: reflpI transpI)

lemma aged_on_db [relates_intros]: "relates since m \<Longrightarrow> relates aged (on_db m)"
  by (simp add: relates_def aged_def)

lemma aged_same [relates_intros]: "(\<And>w. wdb (f w) = wdb w) \<Longrightarrow> relates aged (modify f)"
  by (simp add: relates_def aged_def)

lemma aged_prims [relates_intros]:
  "relates aged (publish a b c)" "relates aged (send n msg)" "relates aged (shut_conn n)"
  by (simp_all add: relates_def aged_def run_send)

lemma moves_order: "reflp moves" "transp moves"
proof -
  show "reflp moves" by (auto simp: moves_def intro!: reflpI reflpD [OF aged_order(1)])
  show "transp moves" by (rule transpI) (auto simp: moves_def dest: transpD [OF aged_order(2)])
qed

interpretation hub_routines: rely moves settled
  by unfold_locales (simp_all add: moves_order moves_def)

lemma steady_kept:
  assumes "keeps hub_ok m" and "keeps owned m" and "relates aged m"
  shows "hub_routines.steady (turn m)"
proof (intro hub_routines.steady_turn relatesI)
  fix w
  have "aged w (snd (run_state m w))" by (rule relatesD [OF assms(3)])
  then show "moves w (snd (run_state m w))"
    using hub_good_keeps [OF assms(1,2)] ids_old_since by (auto simp: moves_def settled_def aged_def)
qed

lemmas steady_intros = hub_routines.steady_finished hub_routines.steady_andthen hub_routines.steady_if hub_routines.steady_case_sum
  hub_routines.steady_case_option hub_routines.steady_case_prod hub_routines.steady_each steady_kept

lemma since_reads [relates_intros]:
  "relates since (ActiveJobForWorker a b)" "relates since (ActiveJobsForMiner a)" "relates since (GetCurrency a)"
  "relates since (WalletAddress a b)" "relates since (QueuedMinersForOwner a)" "relates since (GetWorker a b)"
  "relates since (minerOwner a)" "relates since (runAvgHashrate a)" "relates since (AuthenticateWorker rt now tok)"
  unfolding ActiveJobForWorker_def ActiveJobsForMiner_def GetCurrency_def WalletAddress_def QueuedMinersForOwner_def
    GetWorker_def minerOwner_def runAvgHashrate_def AuthenticateWorker_def
  by (intro relates_intros)+

lemmas turn_keeps = keeps_on_db keeps_ignore keeps_return keeps_gets keeps_modify keeps_bind
  hub_ok_publish hub_ok_shut hub_ok_send hub_ok_register hub_ok_touch hub_ok_pick hub_ok_appendLog
  owned_writes owned_reads owned_minerOwner owned_runAvg owned_Authenticate owned_pick owned_publish owned_shut owned_send
  owned_register owned_touch
  relates_ignore relates_return relates_gets relates_bind aged_on_db aged_same aged_prims aged_order since_reads since_calls

lemma steady_handleAck: "hub_routines.steady (go_handleAck a b c d e)"
  unfolding go_handleAck_def by (intro steady_intros turn_keeps; simp add: hub_ok_set_live)

lemma keeps_book_report: "keeps hub_ok (book_report a b c d e f g)" "keeps owned (book_report a b c d e f g)"
  "relates aged (book_report a b c d e f g)"
  unfolding book_report_def Let_def by (intro turn_keeps; simp add: hub_ok_set_live)+

lemma keeps_forget_job: "keeps hub_ok (forget_job j)" "keeps owned (forget_job j)" "relates aged (forget_job j)"
  unfolding forget_job_def by (intro turn_keeps; simp add: hub_ok_set_live)+

lemma aged_register: "relates aged (register a b c n)"
  unfolding register_def by (intro turn_keeps relates_case_option; simp)

lemma aged_pick: "relates aged (pick_target m xs b)"
  by (induction xs arbitrary: b) (auto intro!: turn_keeps)

lemma aged_touch: "relates aged (touch a)"
  unfolding touch_def by (intro turn_keeps) simp

lemma keeps_wallet_of: "keeps hub_ok (wallet_of a b)" "keeps owned (wallet_of a b)" "relates aged (wallet_of a b)"
  unfolding wallet_of_def by (intro keeps_case_option relates_case_option turn_keeps)+

lemma aged_message: "relates aged (handleMessage f a b m)" if "\<nexists>x y z. m = InAck x y z" "\<nexists>x y z u. m = InMetrics x y z u"
  using that unfolding handleMessage_def appendLog_def
  by (cases m) (auto intro!: turn_keeps split: option.splits)

lemma steady_handleMetrics: "hub_routines.steady (go_handleMetrics a b c d e f)"
  unfolding go_handleMetrics_def by (intro steady_intros keeps_book_report turn_keeps)

lemma steady_handleMessage: "hub_routines.steady (go_handleMessage f a b m)"
  unfolding go_handleMessage_def
  by (cases m) (auto intro!: steady_handleAck steady_handleMetrics steady_kept hub_ok_handleMessage owned_handleMessage
      aged_message hub_routines.steady_finished)

lemma steady_CancelMiner: "hub_routines.steady (go_CancelMiner a b)"
  unfolding go_CancelMiner_def go_cancel_job_def by (intro steady_intros keeps_forget_job turn_keeps)

lemma steady_AllocationUpdate: "hub_routines.steady (go_AllocationUpdate a b c)"
  unfolding go_AllocationUpdate_def by (intro steady_intros turn_keeps)

lemma steady_RevokeWorker: "hub_routines.steady (go_RevokeWorker a)"
  unfolding go_RevokeWorker_def by (intro steady_intros turn_keeps)

lemma steady_supervise: "hub_routines.steady (go_supervise a b c)"
  unfolding go_supervise_def by (intro steady_intros turn_keeps)

lemma unregister_section:
  "keeps hub_ok (do { lw \<leftarrow> gets (\<lambda>w. map_of (live w) i); modify (\<lambda>w. w\<lparr>conns := adel i (conns w), live := adel i (live w)\<rparr>); ret lw })"
  by (intro turn_keeps) (auto simp: hub_ok_def WorkerLogs_def intro: keys_adel split: if_splits)

lemma steady_ws_end: "hub_routines.steady (go_ws_end a c)"
  unfolding go_ws_end_def go_unregister_def
  by (intro steady_intros unregister_section turn_keeps; simp)

lemma steady_ws_message: "hub_routines.steady (go_ws_message f a b m)"
  unfolding go_ws_message_def by (intro steady_intros steady_handleMessage aged_touch turn_keeps)

subsection \<open>Assignment, interleaved\<close>

text \<open>The owner of a key, as far as rows with that key exist: what was read stays true, since keys do not come back.\<close>

definition fixed_owner :: "(db \<Rightarrow> (string \<times> string) set) \<Rightarrow> string \<Rightarrow> string \<Rightarrow> db \<Rightarrow> bool" where
  "fixed_owner owners k a d \<longleftrightarrow> issued d 0 (tick d) k \<and> (\<forall>b. (k, b) \<in> owners d \<longrightarrow> b = a)"

lemma issued_once: "inj (fresh_uuid (env d)) \<Longrightarrow> issued d 0 (tick d) k \<Longrightarrow> \<not> issued d (tick d) n k"
  unfolding issued_def by (metis injD leD)

lemma fixed_owner_stable:
  assumes "ids_old d" and "since d d'"
  shows "fixed_owner miner_owners k a d \<Longrightarrow> fixed_owner miner_owners k a d'"
    "fixed_owner worker_owners k a d \<Longrightarrow> fixed_owner worker_owners k a d'"
proof -
  have old: "issued d' 0 (tick d') k \<and> \<not> issued d (tick d) (tick d') k" if "issued d 0 (tick d) k"
    using assms that issued_once by (auto simp: ids_old_def since_def elim: issued_mono)
  show "fixed_owner miner_owners k a d \<Longrightarrow> fixed_owner miner_owners k a d'"
    "fixed_owner worker_owners k a d \<Longrightarrow> fixed_owner worker_owners k a d'"
    using old assms(2) unfolding fixed_owner_def since_def by blast+
qed

definition asked :: "string \<Rightarrow> string \<Rightarrow> db \<Rightarrow> bool" where
  "asked mid a d \<longleftrightarrow> a = [] \<or> (\<exists>u. uuid_of (env d) mid = Some u \<and> fixed_owner miner_owners u a d)"

definition linked :: "string \<Rightarrow> string \<Rightarrow> db \<Rightarrow> bool" where
  "linked mid wid d \<longleftrightarrow> (\<exists>a. a \<noteq> [] \<and> asked mid a d \<and> (\<exists>v. uuid_of (env d) wid = Some v \<and> fixed_owner worker_owners v a d))"

lemma since_env: "since s t \<Longrightarrow> env t = env s"
  by (simp add: since_def)

lemma asked_stable: "ids_old d \<Longrightarrow> since d d' \<Longrightarrow> asked mid a d \<Longrightarrow> asked mid a d'"
  unfolding asked_def using fixed_owner_stable(1) by (auto simp: since_env)

lemma linked_stable: "ids_old d \<Longrightarrow> since d d' \<Longrightarrow> linked mid wid d \<Longrightarrow> linked mid wid d'"
  unfolding linked_def using asked_stable fixed_owner_stable(2) by (fastforce simp: since_env)

lemma linked_matched: "linked mid wid d \<Longrightarrow> matched mid wid d"
  by (auto simp: linked_def asked_def matched_def fixed_owner_def)

lemma settledD:
  assumes "settled w"
  shows "tenant_ok (wdb w)" and "db_ok (wdb w)" and "ids_old (wdb w)" and "signed_in (wdb w)"
  using assms by (simp_all add: settled_def hub_good_def owned_def tenant_ok_def)

lemma settled_miner: "settled w \<Longrightarrow> (u, a) \<in> miner_owners (wdb w) \<Longrightarrow> fixed_owner miner_owners u a (wdb w)"
  using miner_owner_unique [OF settledD(2)] settledD(3) by (force simp: fixed_owner_def ids_old_def)

lemma settled_worker: "settled w \<Longrightarrow> (v, a) \<in> worker_owners (wdb w) \<Longrightarrow> fixed_owner worker_owners v a (wdb w)"
  using worker_owner_unique [OF settledD(2)] settledD(3) by (force simp: fixed_owner_def ids_old_def)

lemma minerOwner_asked: "settled w \<Longrightarrow> asked mid (fst (run_state (minerOwner mid) (wdb w))) (wdb w)"
  using minerOwner_row [OF HOL.refl, of mid "wdb w"] settled_miner unfolding asked_def by blast

lemma GetWorker_linked:
  assumes "settled w" and "asked mid a (wdb w)" and "fst (run_state (GetWorker a wid) (wdb w)) = Inr k"
  shows "linked mid wid (wdb w)"
proof -
  from assms(3) obtain r where r: "r \<in> set (workers (wdb w))" "k_owner r = a" "uuid_of (env (wdb w)) wid = Some (k_id r)"
    by (rule GetWorker_row)
  then have o: "(k_id r, a) \<in> worker_owners (wdb w)" by (auto simp: worker_owners_def)
  then have "fixed_owner worker_owners (k_id r) a (wdb w)" by (rule settled_worker [OF assms(1)])
  moreover have "a \<noteq> []" using o settledD(4) [OF assms(1)] by (force simp: signed_in_def)
  ultimately show ?thesis using assms(2) r(3) unfolding linked_def by blast
qed

lemma movesD:
  assumes "moves w w'" and "settled w"
  shows "settled w'" and "ids_old (wdb w)" and "since (wdb w) (wdb w')"
  using assms by (simp_all add: moves_def aged_def settled_def)

lemma steady_safe: "hub_routines.steady t \<Longrightarrow> settled w \<Longrightarrow> safe moves (\<lambda>_ _. True) t w"
  by (simp add: hub_routines.steady_def)

lemma moves_on_db: "relates since m \<Longrightarrow> (settled w \<Longrightarrow> tenant_ok (snd (run_state m (wdb w)))) \<Longrightarrow> moves w (snd (run_state (on_db m) w))"
  using relatesD [of since m "wdb w"] ids_old_since [of "wdb w"]
  by (auto simp: moves_def aged_def settled_def hub_good_def owned_def)

text \<open>A read keeps to \<open>moves\<close>; what it relies on and what it finds stay true while others run.\<close>

definition lasting :: "(db \<Rightarrow> bool) \<Rightarrow> bool" where
  "lasting P \<longleftrightarrow> (\<forall>d d'. ids_old d \<longrightarrow> since d d' \<longrightarrow> P d \<longrightarrow> P d')"

lemma lastingD: "lasting P \<Longrightarrow> P (wdb w) \<Longrightarrow> moves w u \<Longrightarrow> settled w \<Longrightarrow> P (wdb u)"
  using movesD unfolding lasting_def by blast

lemma safe_statement:
  assumes "relates since m" and "settled w" and "lasting P" and "P (wdb w)"
    and tenant: "\<And>u. settled u \<Longrightarrow> P (wdb u) \<Longrightarrow> tenant_ok (snd (run_state m (wdb u)))"
    and found: "\<And>u. settled u \<Longrightarrow> P (wdb u) \<Longrightarrow> Q (fst (run_state m (wdb u))) (snd (run_state m (wdb u)))"
    and "\<And>r. lasting (Q r)"
  shows "safe moves (\<lambda>r u. settled u \<and> Q r (wdb u)) (on_store m) w"
proof (rule hub_routines.safe_single)
  fix u assume u: "moves w u"
  have c: "settled u" "P (wdb u)" using movesD [OF u assms(2)] lastingD [OF assms(3,4) u assms(2)] by simp_all
  then show step: "moves u (snd (run_state (on_db m) u))"
    using assms(1) by (intro moves_on_db tenant)
  fix u' assume u': "moves (snd (run_state (on_db m) u)) u'"
  have "settled (snd (run_state (on_db m) u))" using movesD [OF step c(1)] by simp
  from movesD [OF u' this] lastingD [OF assms(7) _ u' this] found [OF c]
  show "settled u' \<and> Q (fst (run_state (on_db m) u)) (wdb u')" by simp
qed

lemma lasting_asked: "lasting (asked mid a)" and lasting_linked: "lasting (\<lambda>d. p \<longrightarrow> linked mid wid d)"
  and lasting_True: "lasting (\<lambda>_. True)"
  using asked_stable linked_stable by (auto simp: lasting_def)

lemma reads_tenant: "snd (run_state m (wdb u)) = bump (wdb u) \<Longrightarrow> settled u \<Longrightarrow> tenant_ok (snd (run_state m (wdb u)))"
  using settledD(1) shrinks_tenant [of "wdb u" "bump (wdb u)"] settledD(2) by simp

lemma lasting_bump: "lasting P \<Longrightarrow> settled u \<Longrightarrow> P (wdb u) \<Longrightarrow> P (bump (wdb u))"
  by (rule lasting_def [THEN iffD1, rule_format]) (simp_all add: settledD(3) since_later)

lemma safe_minerOwner: 
  assumes "settled w"
  shows "safe moves (\<lambda>a u. settled u \<and> asked mid a (wdb u)) (on_store (minerOwner mid)) w"
proof (rule safe_statement [OF since_reads(7) assms lasting_True TrueI _ _ lasting_asked])
  fix u assume u: "settled u"
  then show "tenant_ok (snd (run_state (minerOwner mid) (wdb u)))" by (intro reads_tenant) simp_all
  show "asked mid (fst (run_state (minerOwner mid) (wdb u))) (snd (run_state (minerOwner mid) (wdb u)))"
    using lasting_bump [OF lasting_asked u minerOwner_asked [OF u]] by simp
qed

lemma safe_GetWorker:
  assumes "settled w" and "asked mid a (wdb w)"
  shows "safe moves (\<lambda>r u. settled u \<and> (r \<in> range Inr \<longrightarrow> linked mid wid (wdb u))) (on_store (GetWorker a wid)) w"
proof (rule safe_statement [OF since_reads(6) assms(1) lasting_asked assms(2) _ _ lasting_linked])
  fix u assume u: "settled u" "asked mid a (wdb u)"
  show "tenant_ok (snd (run_state (GetWorker a wid) (wdb u)))" using u(1) by (intro reads_tenant) simp_all
  have "linked mid wid (bump (wdb u))" if "fst (run_state (GetWorker a wid) (wdb u)) = Inr k" for k
    by (rule lasting_bump [OF lasting_linked [of True, simplified] u(1)]) (rule GetWorker_linked [OF u that])
  then show "fst (run_state (GetWorker a wid) (wdb u)) \<in> range Inr \<longrightarrow>
      linked mid wid (snd (run_state (GetWorker a wid) (wdb u)))" by auto
qed

lemma safe_CreateSwarmJob:
  assumes "settled w" and "linked mid wid (wdb w)"
  shows "safe moves (\<lambda>_ u. settled u \<and> True) (on_store (CreateSwarmJob mid wid)) w"
proof (rule safe_statement [OF since_jobs(1) assms(1) lasting_linked [of True, simplified] assms(2) _ _ lasting_True])
  fix u assume "settled u" and "linked mid wid (wdb u)"
  then show "tenant_ok (snd (run_state (CreateSwarmJob mid wid) (wdb u)))"
    by (intro CreateSwarmJob_tenant settledD(1) linked_matched)
qed simp

lemma steady_send_job: "hub_routines.steady (go_send_job t c j p)"
  unfolding go_send_job_def by (intro steady_intros turn_keeps)

lemma steady_place: "hub_routines.steady (go_place m cur addr target c)"
  unfolding hub_routines.steady_def go_place_def
proof (intro allI impI hub_routines.safe_andthen [OF safe_minerOwner] hub_routines.safe_andthen [OF safe_GetWorker])
  fix u and rk :: "store_err + worker"
  assume u: "settled u \<and> (rk \<in> range Inr \<longrightarrow> linked (mn_id m) (lw_id target) (wdb u))"
  show "safe moves (\<lambda>_ _. True) (case rk of Inl _ \<Rightarrow> Finished False
    | Inr k \<Rightarrow> andthen (on_store (CreateSwarmJob (mn_id m) (lw_id target))) (\<lambda>rj. case rj of Inl _ \<Rightarrow> Finished False
      | Inr jobID \<Rightarrow> go_send_job target c jobID (engine_payload jobID m cur addr k (lw_id target)))) u"
    using u by (cases rk) (auto split: sum.splits intro!: hub_routines.safe_andthen [OF safe_CreateSwarmJob]
        steady_safe [OF steady_send_job])
qed auto

lemma steady_Assign: "hub_routines.steady (go_Assign m cur addr)"
  unfolding go_Assign_def by (intro steady_intros steady_place turn_keeps aged_pick)

lemma steady_AssignQueued: "hub_routines.steady (go_AssignQueued a)"
  unfolding go_AssignQueued_def by (intro steady_intros steady_Assign keeps_wallet_of turn_keeps)

lemma steady_ws_open: "hub_routines.steady (go_ws_open rt h acc c)"
  unfolding go_ws_open_def Let_def by (intro steady_intros steady_AssignQueued aged_register turn_keeps)

lemma steady_HandleWS: "hub_routines.steady (go_HandleWS rt h acc c f ms)"
  unfolding go_HandleWS_def by (intro steady_intros steady_ws_open steady_ws_message steady_ws_end)

end
