(* ===== verification/Pool.thy ===== *)
theory Pool
  imports HubRoutines HubControl HubProps StoreProps
begin

text \<open>
  All goroutines together. A state is the list of the goroutines that run and the world. \<open>pool_step\<close> starts a
  goroutine, lets any of them take its next turn, or lets something else happen: a call of the store by another part
  of the program, the clock, the event bus, a restart. The steps of the hub as whole operations are such runs
  (\<open>hub_step_pool\<close>); the invariant of the hub holds in all of them.
\<close>

type_synonym goroutine = "(world, unit) routine"

definition go :: "(world, 'a) routine \<Rightarrow> goroutine" where
  "go t = andthen t (\<lambda>_. Finished ())"

inductive hub_goroutine :: "goroutine \<Rightarrow> bool" where
  connects: "hub_goroutine (go (go_ws_open rt header accept c))"
| says: "hub_goroutine (go_ws_message stamp workerID owner m)"
| leaves: "hub_goroutine (go_ws_end workerID c)"
| supervises: "hub_goroutine (go (go_supervise workerID c pong))"
| assigns: "hub_goroutine (go (go_Assign mn cur addr))"
| assigns_queue: "hub_goroutine (go_AssignQueued owner)"
| cancels: "hub_goroutine (go_CancelMiner minerID reason)"
| reallocates: "hub_goroutine (go_AllocationUpdate minerID cpu gpu)"
| revokes: "hub_goroutine (go_RevokeWorker workerID)"
| handles: "hub_goroutine (go_HandleWS rt header accept c stamp ms)"

inductive pool_step :: "goroutine list \<times> world \<Rightarrow> goroutine list \<times> world \<Rightarrow> bool" where
  starts: "hub_goroutine t \<Longrightarrow> pool_step (ts, w) (t # ts, w)"
| takes_turn: "turns (ts, w) p \<Longrightarrow> pool_step (ts, w) p"
| ends: "pool_step (Finished () # ts, w) (ts, w)"
| store_call: "db_call True (wdb w) d \<Longrightarrow> job_pairs d \<subseteq> job_pairs (wdb w) \<Longrightarrow> signed_in d \<Longrightarrow>
    pool_step (ts, w) (ts, w\<lparr>wdb := d\<rparr>)"
| time_passes: "wall w \<le> t \<Longrightarrow> pool_step (ts, w) (ts, w\<lparr>wall := t\<rparr>)"
| broker_moves: "pool_step (ts, w) (ts, w\<lparr>evb := b\<rparr>)"
| restarts: "pool_step (ts, w) ([], NewHub w)"

inductive_simps hub_goroutine_simps: "hub_goroutine t"

subsection \<open>The invariant\<close>

lemma steady_go: "hub_routines.steady t \<Longrightarrow> hub_routines.steady (go t)"
  unfolding go_def by (intro steady_intros)

lemma goroutine_steady: "hub_goroutine t \<Longrightarrow> hub_routines.steady t"
  by (induction rule: hub_goroutine.induct)
    (intro steady_go steady_ws_open steady_ws_message steady_ws_end steady_supervise steady_Assign steady_AssignQueued
      steady_CancelMiner steady_AllocationUpdate steady_RevokeWorker steady_HandleWS)+

definition pool_good :: "goroutine list \<times> world \<Rightarrow> bool" where
  "pool_good p \<longleftrightarrow> hub_routines.pool_safe (fst p) (snd p)"

lemma pool_step_good: "pool_step p p' \<Longrightarrow> pool_good p \<Longrightarrow> pool_good p'"
proof (induction rule: pool_step.induct)
  case (starts t ts w)
  then show ?case by (simp add: pool_good_def hub_routines.pool_spawn goroutine_steady)
next
  case (takes_turn ts w p)
  then show ?case using hub_routines.pool_turn [OF takes_turn(1)] by (simp add: pool_good_def)
next
  case (ends ts w)
  then show ?case by (simp add: pool_good_def hub_routines.pool_safe_def)
next
  case (store_call w d ts)
  then have "moves w (w\<lparr>wdb := d\<rparr>)"
    using db_call_since ids_old_since
    by (auto simp: moves_def settled_def aged_def hub_good_def owned_def db_call_tenant)
  with store_call show ?case by (auto simp: pool_good_def intro: hub_routines.pool_others)
next
  case (time_passes w t ts)
  have "moves w (w\<lparr>wall := t\<rparr>)" by (simp add: moves_def settled_def aged_def hub_good_def)
  with time_passes show ?case by (auto simp: pool_good_def intro: hub_routines.pool_others)
next
  case (broker_moves ts w b)
  have "moves w (w\<lparr>evb := b\<rparr>)" by (simp add: moves_def settled_def aged_def hub_good_def)
  with broker_moves show ?case by (auto simp: pool_good_def intro: hub_routines.pool_others)
next
  case (restarts ts w)
  then show ?case
    by (simp add: pool_good_def hub_routines.pool_safe_def settled_def hub_good_def NewHub_def hub_ok_def WorkerLogs_def)
qed

definition pool_start :: "goroutine list \<times> world \<Rightarrow> bool" where
  "pool_start p \<longleftrightarrow> fst p = [] \<and> hub_start (snd p) \<and> ids_old (wdb (snd p))"

lemma pool_start_good: "pool_start p \<Longrightarrow> pool_good p"
  by (simp add: pool_start_def pool_good_def hub_routines.pool_safe_def settled_def hub_start_good)

interpretation pool: transition_system pool_start pool_step pool_good
  by unfold_locales (erule pool_start_good, erule (1) pool_step_good [rotated])

subsection \<open>Whole operations\<close>

lemma turns_pool: "turns\<^sup>*\<^sup>* p p' \<Longrightarrow> pool_step\<^sup>*\<^sup>* p p'"
  by (erule rtranclp_mono [THEN predicate2D, rotated]) (auto intro: takes_turn)

lemma pool_runs: "pool_step\<^sup>*\<^sup>* (t # ts, w) (Finished (fst (run_state (exec t) w)) # ts, snd (run_state (exec t) w))"
  using turns_pool [OF turns_whole [of 0 "t # ts" t w]] by simp

lemma pool_whole:
  fixes t :: goroutine
  assumes "hub_goroutine t"
  shows "pool_step\<^sup>*\<^sup>* (ts, w) (ts, snd (run_state (exec t) w))"
  using starts [OF assms, of ts w] pool_runs [of t ts w] ends [of ts] 
  by (metis (full_types) converse_rtranclp_into_rtranclp old.unit.exhaust rtranclp.rtrancl_into_rtrancl)

lemma exec_go: "snd (run_state (exec (go t)) w) = snd (run_state (exec t) w)"
  by (simp add: go_def split: prod.splits)

lemma hub_step_pool: "hub_step w w' \<Longrightarrow> pool_step\<^sup>*\<^sup>* ([], w) ([], w')"
proof (induction rule: hub_step.induct)
  case (time_passes w t)
  then show ?case by (intro r_into_rtranclp pool_step.time_passes)
next
  case (restart w)
  then show ?case by (intro r_into_rtranclp pool_step.restarts)
next
  case (store_call w d)
  then show ?case by (intro r_into_rtranclp pool_step.store_call)
next
  case (broker_moves w b)
  then show ?case by (intro r_into_rtranclp pool_step.broker_moves)
qed (rule pool_whole [OF hub_goroutine.intros(1), of "[]", unfolded exec_go exec_ws_open]
    pool_whole [OF hub_goroutine.intros(2), of "[]", unfolded exec_ws_message]
    pool_whole [OF hub_goroutine.intros(3), of "[]", unfolded exec_ws_end]
    pool_whole [OF hub_goroutine.intros(4), of "[]", unfolded exec_go exec_supervise]
    pool_whole [OF hub_goroutine.intros(5), of "[]", unfolded exec_go exec_Assign]
    pool_whole [OF hub_goroutine.intros(6), of "[]", unfolded exec_AssignQueued]
    pool_whole [OF hub_goroutine.intros(7), of "[]", unfolded exec_CancelMiner]
    pool_whole [OF hub_goroutine.intros(8), of "[]", unfolded exec_AllocationUpdate]
    pool_whole [OF hub_goroutine.intros(9), of "[]", unfolded exec_RevokeWorker])+

subsection \<open>A connection after its authentication\<close>

text \<open>What it leaves alone once it is registered.\<close>

definition stays :: "world \<Rightarrow> world \<Rightarrow> bool" where
  "stays w w' \<longleftrightarrow> workers_kept (wdb w) (wdb w') \<and> conns w' = conns w \<and> shut w' = shut w"

lemma stays_order [simp, relates_intros]: "reflp stays" "transp stays"
proof -
  show "reflp stays" using continued_reflp [OF same_worker_refl, of workers] by (simp add: stays_def reflp_def)
  show "transp stays"
    using transpD [OF continued_transp [OF same_worker_trans]] by (intro transpI) (auto simp: stays_def)
qed

lemma stays_on_db: "relates workers_kept m \<Longrightarrow> relates stays (on_db m)"
  by (simp add: relates_def stays_def)

lemma stays_read: "relates (only {}) m \<Longrightarrow> relates stays (on_db m)"
  by (intro stays_on_db workers_kept_frame [of "{}"]) simp_all

lemma stays_prims:
  "relates stays (publish a b c)" "relates stays (send n msg)"
  by (simp_all add: relates_def stays_def run_send continued_refl)

lemma stays_statements:
  "relates stays (on_db (SetWorkerStatus a b))" "relates stays (on_db (CreateSwarmJob a b))"
  "relates stays (on_db (SetSwarmJobStatus a b))"
  by (intro stays_on_db kept_SetWorkerStatus workers_kept_frame [OF frame_CreateSwarmJob]
      workers_kept_frame [OF frame_SetSwarmJobStatus]; simp)+

lemma stays_reads:
  "relates stays (on_db (QueuedMinersForOwner a))" "relates stays (on_db (GetCurrency b))"
  "relates stays (on_db (WalletAddress a b))" "relates stays (on_db (GetWorker a b))" "relates stays (on_db (minerOwner a))"
  unfolding QueuedMinersForOwner_def GetCurrency_def WalletAddress_def GetWorker_def minerOwner_def
  by (intro stays_read relates_intros frame_query; simp)+

lemmas stays_intros = relates_ignore relates_return relates_gets relates_bind relates_if relates_case_sum relates_case_option
  relates_case_prod relates_each stays_order stays_prims stays_statements stays_reads

lemma stays_pick: "relates stays (pick_target m xs b)"
  by (induction xs arbitrary: b) (auto intro!: stays_intros)

lemma stays_AssignQueued: "relates stays (AssignQueued a)"
  unfolding AssignQueued_def Assign_def wallet_of_def by (intro stays_intros stays_pick)

lemma stays_online: "stays w w' \<Longrightarrow> Online i w' = Online i w"
  by (simp add: stays_def Online_def)

text \<open>The turns of a connection after the authentication.\<close>

definition go_connected :: "string \<Rightarrow> string \<Rightarrow> string \<Rightarrow> nat \<Rightarrow> (world, unit) routine" where
  "go_connected workerID owner kind c =
     andthen (turn (register workerID owner kind c)) (\<lambda>_.
     andthen (store_do (SetWorkerStatus workerID ''connected'')) (\<lambda>_.
     andthen (turn (publish owner ''worker_joined'' [(''id'', EStr workerID), (''kind'', EStr kind)])) (\<lambda>_.
     andthen (go_AssignQueued owner) (\<lambda>_. Finished ()))))"

lemma go_ws_open_turns:
  "bearer_token header \<noteq> [] \<Longrightarrow> go (go_ws_open rt header True c) =
    andthen (turn (do { now \<leftarrow> gets wall; on_db (AuthenticateWorker rt now (bearer_token header)) })) (\<lambda>r. case r of
      Inl _ \<Rightarrow> Finished () | Inr (workerID, owner, kind) \<Rightarrow> go_connected workerID owner kind c)"
  by (auto simp: go_def go_ws_open_def go_connected_def Let_def andthen_assoc fun_eq_iff
      intro!: arg_cong2 [of _ _ _ _ andthen] split: sum.splits prod.splits)

lemma register_online:
  "Online i (snd (run_state (register i a k c) w)) \<and> wdb (snd (run_state (register i a k c) w)) = wdb w \<and>
   (\<not> Online i w \<longrightarrow> shut (snd (run_state (register i a k c) w)) = shut w)"
  by (simp add: register_def Online_def split: option.splits)

lemma connected_stays:
  defines "w' w i a k c \<equiv> snd (run_state (exec (go_connected i a k c)) w)"
  shows "Online i (w' w i a k c) \<and> workers_kept (wdb w) (wdb (w' w i a k c)) \<and>
    (\<not> Online i w \<longrightarrow> shut (w' w i a k c) = shut w)"
proof -
  let ?m = "ignore (on_db (SetWorkerStatus i ''connected'')) \<bind> (\<lambda>_.
    publish a ''worker_joined'' [(''id'', EStr i), (''kind'', EStr k)] \<bind> (\<lambda>_. AssignQueued a))"
  let ?v = "snd (run_state (register i a k c) w)"
  define z where "z = snd (run_state ?m ?v)"
  have "relates stays ?m" by (intro stays_intros stays_AssignQueued)
  then have st: "stays ?v z" unfolding z_def by (rule relatesD)
  have "w' w i a k c = z"
    by (simp add: w'_def go_connected_def z_def split: prod.splits)
  then show ?thesis using register_online [of i a k c w] stays_online [OF st] st by (simp add: stays_def)
qed

text \<open>A server on which the ids are the ones that its database generates: a worker \<open>u\<close> and a queued miner \<open>uu\<close>.\<close>

definition pool_world :: world where
  "pool_world = hub_idle\<lparr>wdb := sample_db\<lparr>tick := 3, workers := [(sample_worker ''u'' ''a'')\<lparr>k_token := ''79''\<rparr>],
     miners := [sample_miner ''uu'' ''a'' ''queued'']\<rparr>\<rparr>"

lemma pool_world_start: "hub_start pool_world"
  by (simp add: hub_start_def pool_world_def hub_idle_def NewHub_def hub_world_def signed_in_def owner_defs)
    (simp add: db_ok_defs sample_data with_txid_def pct_ok_def)

lemma pool_world_ids: "ids_old (wdb pool_world)"
proof -
  have "inj (\<lambda>n. replicate (Suc n) CHR ''u'')" by (rule injI) (metis length_replicate nat.inject)
  moreover have "issued (wdb pool_world) 0 3 ''u''" "issued (wdb pool_world) 0 3 ''uu''"
    unfolding issued_def by (rule exI [of _ 0], simp add: pool_world_def sample_data)
      (rule exI [of _ 1], simp add: pool_world_def sample_data)
  ultimately show ?thesis
    by (simp add: ids_old_def miner_owners_def worker_owners_def) (simp add: pool_world_def sample_data)
qed

lemma pool_auth:
  "bearer_token ''Bearer y'' = ''y''"
  "run_state (AuthenticateWorker sample_rt (wall pool_world) ''y'') (wdb pool_world) =
     (Inr (''u'', ''a'', ''native''), bump (wdb pool_world))"
  by (simp add: bearer_token_def trim_prefix_def has_prefix_def TrimSpace_printable printable_def)
    (simp add: AuthenticateWorker_def run_simps auth_tokens pool_world_def sample_data one_row_def)

text \<open>
  C6. Goroutines: in every state that the program reaches when the goroutines of the hub run interleaved in any way,
  statement by statement, with each other and with the rest of the server, a worker is in the map of connections
  exactly when it is in the live map, once; its log has at most 20 lines; and every job pairs a miner with a worker
  of the same owner. Ids are never generated twice.
\<close>

theorem interleaved_hub_good:
  assumes "hub_start w0" and "ids_old (wdb w0)" and "pool_step\<^sup>*\<^sup>* ([], w0) (ts, w)"
  shows "map fst (conns w) = map fst (live w) \<and> distinct (map fst (live w)) \<and>
     (\<forall>i. length (WorkerLogs i w) \<le> 20) \<and>
     (\<forall>j \<in> set (jobs (wdb w)). \<forall>m \<in> set (miners (wdb w)). \<forall>k \<in> set (workers (wdb w)).
        m_id m = j_miner j \<longrightarrow> k_id k = j_worker j \<longrightarrow> m_owner m = k_owner k)"
proof -
  have "pool_good (ts, w)"
    by (rule pool.reachable_good [OF _ assms(3)]) (simp add: pool_start_def assms(1,2))
  then have good: "hub_good w" by (simp add: pool_good_def hub_routines.pool_safe_def settled_def)
  then have "map fst (conns w) = map fst (live w) \<and> distinct (map fst (live w)) \<and> (\<forall>i. length (WorkerLogs i w) \<le> 20)"
    by (simp add: hub_good_def hub_ok_def)
  then show ?thesis using same_owner [OF good] by blast
qed

text \<open>A connection starts, the miner is cancelled after its first turn, and it goes on.\<close>

theorem interleaved_hub_good_witness:
  "\<exists>w. pool_step\<^sup>*\<^sup>* ([], pool_world) ([Finished (), Finished ()], w) \<and> map_of (conns w) ''u'' \<noteq> None \<and>
     map fst (conns w) = map fst (live w) \<and> distinct (map fst (live w))"
proof -
  let ?A = "go (go_ws_open sample_rt ''Bearer y'' True 3)" and ?B = "go_CancelMiner ''uu'' ''user''"
  let ?t = "go_connected ''u'' ''a'' ''native'' 3"
  let ?m = "do { now \<leftarrow> gets wall; on_db (AuthenticateWorker sample_rt now ''y'') }"
  let ?f = "\<lambda>r :: codes_err + string \<times> string \<times> string. case r of Inl _ \<Rightarrow> Finished () | Inr (workerID, owner, kind) \<Rightarrow> go_connected workerID owner kind 3"
  define w1 where "w1 = pool_world\<lparr>wdb := bump (wdb pool_world)\<rparr>"
  define w2 where "w2 = snd (run_state (exec ?B) w1)"
  define w3 where "w3 = snd (run_state (exec ?t) w2)"
  have t1: "turns ([?B, andthen (turn ?m) ?f], pool_world) ([?B, ?t], w1)"
    using turns_turn [of 1 "[?B, andthen (turn ?m) ?f]" ?m ?f pool_world] by (simp add: w1_def pool_auth)
  have t2: "turns\<^sup>*\<^sup>* ([?B, ?t], w1) ([Finished (), ?t], w2)"
    using turns_whole [of 0 "[?B, ?t]" ?B w1] by (simp add: w2_def)
  have t3: "turns\<^sup>*\<^sup>* ([Finished (), ?t], w2) ([Finished (), Finished ()], w3)"
    using turns_whole [of 1 "[Finished (), ?t]" ?t w2] by (simp add: w3_def)
  have "?A = andthen (turn ?m) ?f" using go_ws_open_turns [of "''Bearer y''" sample_rt 3] pool_auth(1) by simp
  then have "turns\<^sup>*\<^sup>* ([?B, ?A], pool_world) ([Finished (), Finished ()], w3)"
    using rtranclp_trans [OF converse_rtranclp_into_rtranclp [of turns, OF t1 t2] t3] by (simp only:)
  then have "pool_step\<^sup>*\<^sup>* ([?B, ?A], pool_world) ([Finished (), Finished ()], w3)" by (rule turns_pool)
  moreover have s: "pool_step ([], pool_world) ([?A], pool_world)" "pool_step ([?A], pool_world) ([?B, ?A], pool_world)"
    by (intro starts hub_goroutine.intros)+
  ultimately have run: "pool_step\<^sup>*\<^sup>* ([], pool_world) ([Finished (), Finished ()], w3)"
    by (intro converse_rtranclp_into_rtranclp [of pool_step, OF s(1)] converse_rtranclp_into_rtranclp [of pool_step, OF s(2)])
  from interleaved_hub_good [OF pool_world_start pool_world_ids run]
  have "map fst (conns w3) = map fst (live w3) \<and> distinct (map fst (live w3))" by blast
  moreover have "Online ''u'' w3" using connected_stays by (simp add: w3_def)
  ultimately show ?thesis using run by (intro exI [of _ w3]) (simp add: Online_def)
qed

end
