(* ===== verification/Races.thy ===== *)
theory Races
  imports Pool Api EndToEnd StoreProps
begin

text \<open>
  Orders of turns in which the program does what it should not. Each theorem is a run of exactly two goroutines,
  from their start to their end, in a state with the properties that it names: a connection and the handler that
  revokes its worker, and an acknowledgement and the handler that stops its miner. When one of the two ends before
  the other starts, the outcome is as intended: \<open>StoreProps\<close> shows it for the token, \<open>HubControl\<close> for the job.
  The last part is about two assignments in a row.
\<close>

subsection \<open>Two handlers in turns\<close>

definition go_stored :: "string \<Rightarrow> (db, store_err + 'a) state \<Rightarrow> ('a \<Rightarrow> (world, 'b reply) routine) \<Rightarrow> (world, 'b reply) routine" where
  "go_stored conflictCode m k = andthen (on_store m) (\<lambda>r. case r of
     Inl e \<Rightarrow> Finished (storeErr conflictCode e) | Inr a \<Rightarrow> k a)"

definition go_handleRevokeWorker :: "string \<Rightarrow> string \<Rightarrow> (world, worker option reply) routine" where
  "go_handleRevokeWorker owner i = go_stored [] (RevokeWorker owner i) (\<lambda>_.
     andthen (go_RevokeWorker i) (\<lambda>_.
     andthen (on_store (GetWorker owner i)) (\<lambda>k.
     andthen (turn (publish owner ''worker_left'' [(''id'', EStr i), (''revoked'', EBool True)])) (\<lambda>_.
     Finished (Reply 200 (case k of Inl _ \<Rightarrow> None | Inr k \<Rightarrow> Some k))))))"

definition go_handleStopMiner :: "string \<Rightarrow> string \<Rightarrow> (world, miner reply) routine" where
  "go_handleStopMiner owner i = go_stored [] (GetMiner owner i) (\<lambda>m.
     andthen (go_CancelMiner i ''user'') (\<lambda>_.
     andthen (store_do (SetMinerStatus i ''stopped'')) (\<lambda>_.
     andthen (turn (publish owner ''miner_status'' [(''miner_id'', EStr i), (''status'', EStr ''stopped'')])) (\<lambda>_.
     Finished (Reply 202 (m\<lparr>mn_status := ''stopped''\<rparr>))))))"

lemma exec_handlers [simp]:
  "exec (go_handleRevokeWorker a i) = handleRevokeWorker a i"
  "exec (go_handleStopMiner a i) = handleStopMiner a i"
  by (simp_all add: go_handleRevokeWorker_def handleRevokeWorker_def go_handleStopMiner_def handleStopMiner_def
      go_stored_def stored_def cong: sum.case_cong)

subsection \<open>Revoked while connecting\<close>

lemma kept_revoked:
  assumes "workers_kept s t" and "\<exists>k \<in> set (workers s). k_id k = u \<and> k_revoked k \<noteq> None \<and> k_status k = ''revoked''"
  shows "\<exists>k \<in> set (workers t). k_id k = u \<and> k_revoked k \<noteq> None"
proof -
  obtain k where k: "k \<in> set (workers s)" "k_id k = u" "k_revoked k \<noteq> None" "k_status k = ''revoked''" using assms(2) by blast
  then obtain k' where "k' \<in> set (workers t)" "same_worker k k'" using assms(1) unfolding continued_def by blast
  with k show ?thesis by (intro bexI [of _ k']) (simp_all add: same_worker_def)
qed

text \<open>What the handler does after the revocation, when the worker is not connected.\<close>

lemma revocation_stays:
  assumes rev: "run_state (RevokeWorker a i) (wdb w) = (Inr (), d)" and off: "\<not> Online i w"
  shows "stays (w\<lparr>wdb := d\<rparr>) (snd (run_state (handleRevokeWorker a i) w))"
proof -
  let ?m = "on_db (GetWorker a i) \<bind> (\<lambda>_. publish a ''worker_left'' [(''id'', EStr i), (''revoked'', EBool True)])"
  have st: "relates stays ?m" by (intro stays_intros)
  have eq: "snd (run_state (handleRevokeWorker a i) w) = snd (run_state ?m (w\<lparr>wdb := d\<rparr>))"
    using off by (simp add: handleRevokeWorker_def stored_def rev Hub_RevokeWorker_def Online_def split_beta)
  show ?thesis unfolding eq by (rule relatesD [OF st])
qed

text \<open>
  C20. A worker that is revoked while it connects stays connected. The connection checks the token before it
  registers itself; when the handler that revokes the worker runs in between, it finds no connection to close. Both
  run to their end; then the row says revoked, and the worker is on line with an open connection.
\<close>

theorem revoked_while_connecting:
  assumes "bearer_token header \<noteq> []"
    and auth: "run_state (AuthenticateWorker rt (wall w) (bearer_token header)) (wdb w) = (Inr (i, a, kind), d)"
    and rev: "run_state (RevokeWorker a i) d = (Inr (), d')" and id: "uuid_of (env d) i = Some i"
    and "\<not> Online i w" and "c \<notin> set (shut w)"
  shows "\<exists>w'. turns\<^sup>*\<^sup>* ([go (go_ws_open rt header True c), go (go_handleRevokeWorker a i)], w) ([Finished (), Finished ()], w') \<and>
    map_of (conns w') i \<noteq> None \<and> c \<notin> set (shut w') \<and> (\<exists>k \<in> set (workers (wdb w')). k_id k = i \<and> k_revoked k \<noteq> None)"
proof -
  let ?t = "go_connected i a kind c" and ?h = "go (go_handleRevokeWorker a i)"
  let ?m = "do { now \<leftarrow> gets wall; on_db (AuthenticateWorker rt now (bearer_token header)) }"
  let ?f = "\<lambda>r :: codes_err + string \<times> string \<times> string. case r of Inl _ \<Rightarrow> Finished () | Inr (workerID, owner, kind) \<Rightarrow> go_connected workerID owner kind c"
  define w1 where "w1 = w\<lparr>wdb := d\<rparr>"
  define w2 where "w2 = snd (run_state (exec ?h) w1)"
  define w3 where "w3 = snd (run_state (exec ?t) w2)"
  have off: "\<not> Online i w1" "run_state (RevokeWorker a i) (wdb w1) = (Inr (), d')"
    using assms(5) rev by (simp_all add: w1_def Online_def)
  have st: "stays (w1\<lparr>wdb := d'\<rparr>) w2"
    using revocation_stays [OF off(2,1)] by (simp add: w2_def exec_go)
  have "turns ([andthen (turn ?m) ?f, ?h], w) ([?t, ?h], w1)"
    using turns_turn [of 0 "[andthen (turn ?m) ?f, ?h]" ?m ?f w] auth by (simp add: w1_def)
  moreover have "turns\<^sup>*\<^sup>* ([?t, ?h], w1) ([?t, Finished ()], w2)"
    using turns_whole [of 1 "[?t, ?h]" ?h w1] by (simp add: w2_def)
  moreover have "turns\<^sup>*\<^sup>* ([?t, Finished ()], w2) ([Finished (), Finished ()], w3)"
    using turns_whole [of 0 "[?t, Finished ()]" ?t w2] by (simp add: w3_def)
  ultimately have "turns\<^sup>*\<^sup>* ([go (go_ws_open rt header True c), ?h], w) ([Finished (), Finished ()], w3)"
    unfolding go_ws_open_turns [OF assms(1)] by simp
  moreover have "Online i w3 \<and> shut w3 = shut w"
    using connected_stays [of i a kind c w2] st off(1) stays_online [OF st] by (simp add: w3_def stays_def w1_def Online_def)
  moreover have "\<exists>k \<in> set (workers (wdb w3)). k_id k = i \<and> k_revoked k \<noteq> None"
  proof (rule kept_revoked [of d'])
    show "workers_kept d' (wdb w3)"
      using st connected_stays [of i a kind c w2] transpD [OF continued_transp [OF same_worker_trans]]
      by (fastforce simp: stays_def w3_def)
    show "\<exists>k \<in> set (workers d'). k_id k = i \<and> k_revoked k \<noteq> None \<and> k_status k = ''revoked''"
      using RevokeWorker_Inr [OF rev id] by blast
  qed
  ultimately show ?thesis using assms(6) by (intro exI [of _ w3]) (simp add: Online_def)
qed

theorem revoked_while_connecting_witness:
  "\<exists>w'. turns\<^sup>*\<^sup>* ([go (go_ws_open sample_rt ''Bearer y'' True 3), go (go_handleRevokeWorker ''alice'' ''w1'')],
      hub_idle\<lparr>wdb := two_worker_db\<rparr>) ([Finished (), Finished ()], w') \<and>
    map_of (conns w') ''w1'' \<noteq> None \<and> 3 \<notin> set (shut w') \<and>
    (\<exists>k \<in> set (workers (wdb w')). k_id k = ''w1'' \<and> k_revoked k \<noteq> None)"
proof -
  let ?w = "hub_idle\<lparr>wdb := two_worker_db\<rparr>"
  have auth: "run_state (AuthenticateWorker sample_rt (wall ?w) (bearer_token ''Bearer y'')) (wdb ?w) =
      (Inr (''w1'', ''alice'', ''native''), bump two_worker_db)"
    by (simp add: pool_auth(1) AuthenticateWorker_def run_simps auth_tokens two_worker_db_def sample_data one_row_def)
  obtain d where rev: "run_state (RevokeWorker ''alice'' ''w1'') (bump two_worker_db) = (Inr (), d)"
    by (simp add: RevokeWorker_def affected_def run_simps revoke_worker_def end_jobs_of_worker_def with_uuid_def
        Let_def upd_where_def two_worker_db_def sample_data)
  show ?thesis
    by (rule revoked_while_connecting [OF _ auth rev])
      (simp_all add: pool_auth(1) two_worker_db_def sample_data hub_idle_def NewHub_def Online_def hub_world_def)
qed

subsection \<open>An acknowledgement that crosses a stop\<close>

text \<open>The turns of an acknowledgement after it has found its job.\<close>

definition go_acknowledged :: "string \<Rightarrow> string \<Rightarrow> string \<Rightarrow> swarm_job \<Rightarrow> (world, unit) routine" where
  "go_acknowledged workerID owner jobID job =
     andthen (store_do (SetSwarmJobStatus jobID ''ack'')) (\<lambda>_.
     andthen (store_do (SetMinerStatus (sj_miner job) ''running'')) (\<lambda>_.
     andthen (store_do (SetWorkerStatus workerID ''mining'')) (\<lambda>_.
     andthen (turn (modify (\<lambda>w. (set_live workerID (\<lambda>l. l\<lparr>lw_jobs := aput jobID (sj_miner job) (lw_jobs l)\<rparr>) w)
       \<lparr>jstates := aput jobID \<lparr>js_miner = sj_miner job, js_owner = owner, js_last_acc = 0, js_last_rej = 0,
          js_tot_acc = 0, js_tot_rej = 0\<rparr> (jstates w)\<rparr>))) (\<lambda>_.
     turn (publish owner ''miner_status'' [(''miner_id'', EStr (sj_miner job)), (''status'', EStr ''running'')])))))"

lemma go_ack_turns:
  assumes "jobID \<noteq> []"
  shows "go_ws_message stamp workerID owner (InAck jobID ''ok'' err) =
    andthen (turn (touch workerID)) (\<lambda>_. andthen (on_store (ActiveJobForWorker jobID workerID)) (\<lambda>r. case r of
      Inl _ \<Rightarrow> Finished () | Inr job \<Rightarrow> go_acknowledged workerID owner jobID job))"
  using assms by (simp add: go_ws_message_def go_handleMessage_def go_handleAck_def go_acknowledged_def cong: sum.case_cong)

text \<open>Whatever has happened meanwhile, the miner is running afterwards, and no job is open that was not.\<close>

lemma acknowledged_runs:
  fixes i a :: string
  assumes nf: "\<forall>n. \<not> fault (env (wdb w)) n" and u: "uuid_of (env (wdb w)) jobID = Some v" "uuid_of (env (wdb w)) (sj_miner job) = Some (sj_miner job)"
  defines "w' \<equiv> snd (run_state (exec (go_acknowledged i a jobID job)) w)"
  shows "miners (wdb w') = upd_where (\<lambda>m. m_id m = sj_miner job) (\<lambda>m. m\<lparr>m_status := ''running'', m_updated := db_now (bump (wdb w))\<rparr>) (miners (wdb w)) \<and>
    jobs (wdb w') = upd_where (\<lambda>j. j_id j = v) (\<lambda>j. j\<lparr>j_status := ''ack''\<rparr>) (jobs (wdb w))"
proof -
  have "only {Workers} (snd (run_state (SetMinerStatus (sj_miner job) ''running'') (snd (run_state (SetSwarmJobStatus jobID ''ack'') (wdb w))))) (wdb w')"
    using relatesD [OF frame_SetWorkerStatus] by (simp add: w'_def go_acknowledged_def split: prod.splits)
  then show ?thesis
    by (simp add: only_def ack_job_run(1) [OF nf u(1)] SetMinerStatus_run nf u(2) db_now_def)
qed

definition zombie :: "string \<Rightarrow> db \<Rightarrow> bool" where
  "zombie mid d \<longleftrightarrow> (\<forall>j \<in> set (jobs d). j_miner j = mid \<longrightarrow> j_ended j \<noteq> None) \<and>
     (\<exists>m \<in> set (miners d). m_id m = mid \<and> m_status m = ''running'')"

lemma acknowledged_zombie:
  assumes "\<forall>n. \<not> fault (env (wdb w)) n" and "uuid_of (env (wdb w)) jobID = Some v"
    and "uuid_of (env (wdb w)) (sj_miner job) = Some (sj_miner job)"
    and "\<forall>j \<in> set (jobs (wdb w)). j_miner j = sj_miner job \<longrightarrow> j_ended j \<noteq> None"
    and "sj_miner job \<in> m_id ` set (miners (wdb w))"
  shows "zombie (sj_miner job) (wdb (snd (run_state (exec (go_acknowledged i a jobID job)) w)))"
proof -
  note runs = acknowledged_runs [OF assms(1-3), of i a]
  obtain m where m: "m \<in> set (miners (wdb w))" "m_id m = sj_miner job" using assms(5) by auto
  let ?g = "\<lambda>m. m\<lparr>m_status := ''running'', m_updated := db_now (bump (wdb w))\<rparr>"
  have "?g m \<in> set (upd_where (\<lambda>m. m_id m = sj_miner job) ?g (miners (wdb w)))"
    using m by (auto simp: set_upd_where simp del: if_image_distrib intro!: image_eqI [of _ _ m])
  then have "\<exists>x \<in> set (miners (wdb (snd (run_state (exec (go_acknowledged i a jobID job)) w)))). m_id x = sj_miner job \<and> m_status x = ''running''"
    using runs m(2) by (intro bexI [of _ "?g m"]) simp_all
  moreover have "\<forall>j \<in> set (jobs (wdb (snd (run_state (exec (go_acknowledged i a jobID job)) w)))). j_miner j = sj_miner job \<longrightarrow> j_ended j \<noteq> None"
    using runs assms(4) by (auto simp: set_upd_where)
  ultimately show ?thesis by (simp add: zombie_def)
qed

lemma GetMiner_found:
  assumes "\<forall>n. \<not> fault (env d) n" and "db_ok d" and "r \<in> set (miners d)" and "uuid_of (env d) i = Some (m_id r)"
  shows "\<exists>m. run_state (GetMiner (m_owner r) i) d = (Inr m, bump d)"
proof -
  have "m_currency r \<in> cur_id ` set (currencies d)" using db_ok_refs(2) [OF assms(2)] assms(3) by (blast intro: imageI)
  then obtain c where "c \<in> set (currencies d)" "cur_id c = m_currency r" by (metis imageE)
  then have found: "(r, c) \<in> set (miner_rows (m_owner r) (m_id r) d)" using assms(3) by (simp add: miner_rows_in)
  show ?thesis
  proof (cases "miner_rows (m_owner r) (m_id r) d")
    case Nil
    with found show ?thesis by simp
  next
    case (Cons x xs)
    then show ?thesis
      by (intro exI [of _ "scanMiner (fst x) (snd x)"])
        (simp add: GetMiner_def run_simps with_uuid_def one_row_def split_beta assms(1,4))
  qed
qed

lemma stopped_jobs:
  assumes "calm (wdb w)" and "db_ok (wdb w)" and r: "r \<in> set (miners (wdb w))" and u: "uuid_of (env (wdb w)) (m_id r) = Some (m_id r)"
  defines "w' \<equiv> snd (run_state (handleStopMiner (m_owner r) (m_id r)) w)"
  shows "env (wdb w') = env (wdb w) \<and> m_id r \<in> m_id ` set (miners (wdb w')) \<and>
    (\<forall>j \<in> set (jobs (wdb w')). j_miner j = m_id r \<longrightarrow> j_ended j \<noteq> None)"
proof -
  have nf: "\<forall>n. \<not> fault (env (wdb w)) n" using assms(1) by (simp add: calm_def)
  define w2 where "w2 = w\<lparr>wdb := bump (wdb w)\<rparr>"
  define w3 where "w3 = snd (run_state (CancelMiner (m_id r) ''user'') w2)"
  obtain m where "run_state (GetMiner (m_owner r) (m_id r)) (wdb w) = (Inr m, bump (wdb w))"
    using GetMiner_found [OF nf assms(2) r u] by blast
  then have w': "wdb w' = snd (run_state (SetMinerStatus (m_id r) ''stopped'') (wdb w3))"
    by (simp add: w'_def w3_def w2_def handleStopMiner_def stored_def split_beta)
  have "only {Jobs, Runs} (wdb w2) (wdb w3)"
    using relatesD [OF CancelMiner_frame, of w2] by (simp add: jobs_runs_only_def w3_def)
  then have frame: "env (wdb w3) = env (wdb w)" "miners (wdb w3) = miners (wdb w)" by (simp_all add: only_def w2_def)
  have "calm (wdb w2)" "db_ok (wdb w2)" "uuid_of (env (wdb w2)) (m_id r) = Some (m_id r)"
    using assms(1,2) u by (simp_all add: w2_def calm_def)
  from CancelMiner_effect [OF this, of "''user''" "()" w3]
  have "\<forall>j \<in> set (jobs (wdb w3)). j_miner j = m_id r \<longrightarrow> j_ended j \<noteq> None" by (simp add: w3_def prod_eq_iff)
  then show ?thesis using r by (simp add: w' SetMinerStatus_run frame nf u upd_where_image_same)
qed

text \<open>
  C21. A stop that crosses an acknowledgement is lost. When \<open>handleAck\<close> has found its job, the handler that stops
  the miner runs and ends the job; the rest of \<open>handleAck\<close> then sets the miner to running again. Both run to their
  end; the miner says running, and has no open job.
\<close>

theorem stop_overtaken_by_ack:
  assumes "db_ok (wdb w)" and "calm (wdb w)" and "jobID \<noteq> []"
    and job: "fst (run_state (ActiveJobForWorker jobID workerID) (wdb w)) = Inr job"
    and r: "r \<in> set (miners (wdb w))" "m_id r = sj_miner job" and u: "uuid_of (env (wdb w)) (m_id r) = Some (m_id r)"
  shows "\<exists>w'. turns\<^sup>*\<^sup>* ([go_ws_message stamp workerID owner (InAck jobID ''ok'' err), go (go_handleStopMiner (m_owner r) (m_id r))], w)
      ([Finished (), Finished ()], w') \<and>
    (\<forall>j \<in> set (jobs (wdb w')). j_miner j = m_id r \<longrightarrow> j_ended j \<noteq> None) \<and>
    (\<exists>m \<in> set (miners (wdb w')). m_id m = m_id r \<and> m_status m = ''running'')"
proof -
  let ?t = "go_acknowledged workerID owner jobID job" and ?h = "go (go_handleStopMiner (m_owner r) (m_id r))"
  let ?f = "\<lambda>r :: store_err + swarm_job. case r of Inl _ \<Rightarrow> Finished () | Inr job \<Rightarrow> go_acknowledged workerID owner jobID job"
  let ?g = "\<lambda>_ :: unit. andthen (on_store (ActiveJobForWorker jobID workerID)) ?f"
  define w1 where "w1 = snd (run_state (touch workerID) w)"
  define w2 where "w2 = w1\<lparr>wdb := bump (wdb w)\<rparr>"
  define w3 where "w3 = snd (run_state (exec ?h) w2)"
  define w4 where "w4 = snd (run_state (exec ?t) w3)"
  obtain j :: job_row where j: "uuid_of (env (wdb w)) jobID = Some (j_id j)"
    by (rule ActiveJob_row [OF job])
  have w1: "wdb w1 = wdb w" by (simp add: w1_def touch_def)
  have "turns ([andthen (turn (touch workerID)) ?g, ?h], w) ([andthen (on_store (ActiveJobForWorker jobID workerID)) ?f, ?h], w1)"
    using turns_turn [of 0 "[andthen (turn (touch workerID)) ?g, ?h]" "touch workerID" ?g w] by (simp add: w1_def)
  moreover have "turns ([andthen (on_store (ActiveJobForWorker jobID workerID)) ?f, ?h], w1) ([?t, ?h], w2)"
    using turns_turn [of 0 "[andthen (on_store (ActiveJobForWorker jobID workerID)) ?f, ?h]" "on_db (ActiveJobForWorker jobID workerID)" ?f w1]
    by (simp add: w1 w2_def job split_beta)
  moreover have "turns\<^sup>*\<^sup>* ([?t, ?h], w2) ([?t, Finished ()], w3)"
    using turns_whole [of 1 "[?t, ?h]" ?h w2] by (simp add: w3_def)
  moreover have "turns\<^sup>*\<^sup>* ([?t, Finished ()], w3) ([Finished (), Finished ()], w4)"
    using turns_whole [of 0 "[?t, Finished ()]" ?t w3] by (simp add: w4_def)
  ultimately have "turns\<^sup>*\<^sup>* ([andthen (turn (touch workerID)) ?g, ?h], w) ([Finished (), Finished ()], w4)" by simp
  moreover have "zombie (sj_miner job) (wdb w4)"
  proof -
    have "calm (wdb w2)" "db_ok (wdb w2)" "r \<in> set (miners (wdb w2))" "uuid_of (env (wdb w2)) (m_id r) = Some (m_id r)"
      using assms(1,2) r u by (simp_all add: w2_def calm_def)
    note stopped = stopped_jobs [OF this]
    have "wdb w3 = wdb (snd (run_state (handleStopMiner (m_owner r) (m_id r)) w2))" by (simp add: w3_def exec_go)
    then show ?thesis
      unfolding w4_def using stopped assms(2) u j r(2)
      by (intro acknowledged_zombie [of w3 jobID "j_id j" job]) (simp_all add: w2_def calm_def)
  qed
  ultimately show ?thesis unfolding go_ack_turns [OF assms(3)] zombie_def r(2) by blast
qed

theorem stop_overtaken_by_ack_witness:
  "\<exists>w'. turns\<^sup>*\<^sup>* ([go_ws_message (\<lambda>_. []) ''k'' ''a'' (InAck ''j'' ''ok'' []), go (go_handleStopMiner ''a'' ''m'')], hub_world)
      ([Finished (), Finished ()], w') \<and>
    filter (\<lambda>j. j_miner j = ''m'' \<and> j_ended j = None) (jobs (wdb w')) = [] \<and>
    ''running'' \<in> m_status ` set (filter (\<lambda>m. m_id m = ''m'') (miners (wdb w')))"
proof -
  have "db_ok (wdb hub_world)" using hub_db_ok(1) by (simp add: hub_world_def)
  moreover have "fst (run_state (ActiveJobForWorker ''j'' ''k'') (wdb hub_world)) = Inr (scanJob sample_job)"
    by (simp add: ActiveJobForWorker_def run_simps hub_data with_uuid_def one_row_def)
  ultimately obtain w' where "turns\<^sup>*\<^sup>* ([go_ws_message (\<lambda>_. []) ''k'' ''a'' (InAck ''j'' ''ok'' []), go (go_handleStopMiner ''a'' ''m'')], hub_world)
      ([Finished (), Finished ()], w')" "\<forall>j \<in> set (jobs (wdb w')). j_miner j = ''m'' \<longrightarrow> j_ended j \<noteq> None"
    "\<exists>m \<in> set (miners (wdb w')). m_id m = ''m'' \<and> m_status m = ''running''"
    using stop_overtaken_by_ack [OF _ hub_world_calm, of "''j''" "''k''" "scanJob sample_job" "sample_miner ''m'' ''a'' ''running''" "\<lambda>_. []" "''a''" "[]"]
    by (auto simp: hub_data scanJob_def)
  then show ?thesis by (intro exI [of _ w']) (auto simp: filter_empty_conv image_iff)
qed

subsection \<open>Assigned twice\<close>

definition places :: "world \<Rightarrow> world \<Rightarrow> bool" where
  "places w w' \<longleftrightarrow> only {Jobs, Workers} (wdb w) (wdb w')"

lemma places_order [simp]: "reflp places" "transp places"
  by (auto simp: places_def reflp_def transp_def intro: reflpD [OF only_reflp] transpD [OF only_transp])

lemma places_on_db: "relates (only T) m \<Longrightarrow> T \<subseteq> {Jobs, Workers} \<Longrightarrow> relates places (on_db m)"
  by (auto simp: relates_def places_def intro: only_mono)

lemma places_reads: "relates places (on_db (GetWorker a b))" "relates places (on_db (minerOwner a))"
  unfolding GetWorker_def minerOwner_def by (intro places_on_db [of "{}"] relates_intros; simp)+

lemma places_send: "relates places (send n msg)"
  by (simp add: relates_def places_def run_send reflpD [OF only_reflp])

lemmas places_intros = relates_ignore relates_return relates_gets relates_bind relates_if relates_case_sum relates_case_option
  relates_case_prod places_order places_reads places_send places_on_db [OF frame_SetWorkerStatus]
  places_on_db [OF frame_CreateSwarmJob] places_on_db [OF frame_SetSwarmJobStatus]

lemma places_pick: "relates places (pick_target m xs b)"
  by (induction xs arbitrary: b) (auto intro!: places_intros)

lemma places_Assign: "relates places (Assign mn cur addr)"
  unfolding Assign_def by (intro places_intros places_pick; simp)

text \<open>
  A miner that has been assigned stays queued until the acknowledgement, so that the next connection of its owner, or
  a second start, assigns it again: it then has two open jobs.
\<close>

theorem assigned_twice:
  assumes "hub_good w" and "faultless (wdb w)" and r: "r \<in> set (miners (wdb w))" and u: "uuid_of (env (wdb w)) (mn_id mn) = Some (m_id r)"
    and one: "run_state (Assign mn cur addr) w = (True, w')" and two: "run_state (Assign mn cur addr') w' = (True, w'')"
  shows "r \<in> set (miners (wdb w')) \<and> 2 \<le> length (filter (\<lambda>j. j_miner j = m_id r \<and> j_ended j = None) (jobs (wdb w'')))"
proof -
  have "places w w'" using relatesD [OF places_Assign, of w] one by (metis snd_conv)
  then have frame: "env (wdb w') = env (wdb w)" "miners (wdb w') = miners (wdb w)" by (simp_all add: places_def only_def)
  have own: "owned w" "owned w'"
    using assms(1) keepsD [OF owned_Assign, of w mn cur addr] one by (simp_all add: hub_good_def)
  then have ok: "db_ok (wdb w)" "db_ok (wdb w')" by (simp_all add: owned_def tenant_ok_def)
  have "faultless (wdb w')" using assms(2) by (simp add: faultless_def frame)
  then obtain i k n where "jobs (wdb w'') = jobs (wdb w') @ [new_job i (m_id r) k n]"
    using Assign_runs [OF _ ok(2) _ _ two, of r] r u frame by (metis (no_types))
  moreover obtain i' k' n' where "jobs (wdb w') = jobs (wdb w) @ [new_job i' (m_id r) k' n']"
    using Assign_runs [OF assms(2) ok(1) r u one] by (metis (no_types))
  ultimately show ?thesis using r by (simp add: frame new_job_def)
qed

end
