(* ===== verification/Connections.thy ===== *)
theory Connections
  imports Pool
begin

text \<open>
  A connection from its start to its end (\<open>HandleWS\<close>): what it leaves in the maps of the hub.
\<close>

text \<open>The maps of the hub, but for one worker.\<close>

definition apart :: "string \<Rightarrow> world \<Rightarrow> world \<Rightarrow> bool" where
  "apart i w w' \<longleftrightarrow> (\<forall>k. k \<noteq> i \<longrightarrow> map_of (conns w') k = map_of (conns w) k \<and> map_of (live w') k = map_of (live w) k)"

lemma apart_order [simp]: "reflp (apart i)" "transp (apart i)"
  by (simp_all add: apart_def reflp_def transp_def)

lemma apart_turns:
  "relates (apart i) (on_db m)" "relates (apart i) (publish a b c)" "relates (apart i) (send n msg)"
  "relates (apart i) (shut_conn n)" "relates (apart i) (appendLog f i' lv line)"
  by (simp_all add: relates_def apart_def run_send appendLog_def)

lemma apart_modify: "(\<And>w. apart i w (f w)) \<Longrightarrow> relates (apart i) (modify f)"
  by (simp add: relates_def)

lemma apart_set_live: "apart i w (set_live i g w)" "apart i w (set_live i g w\<lparr>jstates := js\<rparr>)"
  by (simp_all add: apart_def set_live_def split: option.splits)

lemmas apart_intros = relates_ignore relates_return relates_gets relates_bind relates_if relates_case_sum relates_case_option
  relates_case_prod relates_each apart_order apart_turns apart_modify apart_set_live

lemma apart_touch: "relates (apart i) (touch i)"
  unfolding touch_def by (intro apart_intros)

lemma apart_handleAck: "relates (apart i) (handleAck i a j st err)"
  unfolding handleAck_def by (intro apart_intros)

lemma apart_handleMetrics: "relates (apart i) (handleMetrics i a j h acc rej)"
  unfolding handleMetrics_def Let_def by (intro apart_intros)

lemma apart_message: "relates (apart i) (ws_message stamp i a m)"
  unfolding ws_message_def handleMessage_def
  by (intro relates_bind apart_order apart_touch)
    (cases m; auto intro!: apart_intros apart_handleAck apart_handleMetrics split: option.splits)

lemma apart_pick: "relates (apart i) (pick_target mid xs b)"
  by (induction xs arbitrary: b) (auto intro!: apart_intros)

lemma apart_AssignQueued: "relates (apart i) (AssignQueued a)"
  unfolding AssignQueued_def Assign_def wallet_of_def by (intro apart_intros apart_pick)

lemma apart_register: "relates (apart i) (register i a k c)"
  unfolding register_def by (intro apart_intros) (simp add: apart_def)

lemma apart_unregister: "relates (apart i) (unregister i)"
  unfolding unregister_def by (intro apart_intros) (simp add: apart_def)

lemma opened_apart:
  assumes "run_state (ws_open rt header accept c) w = (r, w')"
  shows "case r of None \<Rightarrow> conns w' = conns w \<and> live w' = live w | Some (i, a) \<Rightarrow> apart i w w'"
proof -
  let ?opening = "\<lambda>i a k. do { register i a k c; ignore (on_db (SetWorkerStatus i ''connected''));
    publish a ''worker_joined'' [(''id'', EStr i), (''kind'', EStr k)]; AssignQueued a }"
  obtain x d where auth: "run_state (AuthenticateWorker rt (wall w) (bearer_token header)) (wdb w) = (x, d)" by fastforce
  show ?thesis
  proof (cases "bearer_token header = [] \<or> \<not> accept \<or> (\<exists>e. x = Inl e)")
    case True
    then show ?thesis using assms auth by (auto simp: ws_open_def Let_def split: if_splits sum.splits)
  next
    case False
    then obtain i a k where x: "x = Inr (i, a, k)" by (cases x) auto
    have "relates (apart i) (?opening i a k)" by (intro apart_intros apart_register apart_AssignQueued)
    from relatesD [OF this, of "w\<lparr>wdb := d\<rparr>"] have "apart i w (snd (run_state (?opening i a k) (w\<lparr>wdb := d\<rparr>)))"
      by (simp add: apart_def)
    then show ?thesis using assms auth False x by (auto simp: ws_open_def Let_def split: prod.splits)
  qed
qed

lemma run_unregister:
  "conns (snd (run_state (unregister i) w)) = adel i (conns w) \<and> live (snd (run_state (unregister i) w)) = adel i (live w) \<and>
   shut (snd (run_state (unregister i) w)) = shut w"
  by (simp add: unregister_def split: option.splits)

text \<open>
  A connection that nothing disturbs leaves no trace in the maps of the hub: whatever its worker says, when
  \<open>HandleWS\<close> returns, the worker is in neither map and the connection is closed, and every other worker is in the
  maps as before. A handshake that is refused changes neither map.
\<close>

theorem connection_leaves_no_trace:
  assumes "run_state (ws_open rt header accept c) w = (r, v)" and "run_state (HandleWS rt header accept c stamp ms) w = (u, w')"
  shows "case r of
      None \<Rightarrow> conns w' = conns w \<and> live w' = live w
    | Some (i, a) \<Rightarrow> map_of (conns w') = (map_of (conns w))(i := None) \<and> map_of (live w') = (map_of (live w))(i := None) \<and>
        c \<in> set (shut w')"
proof (cases r)
  case None
  with assms opened_apart [OF assms(1)] show ?thesis by (simp add: HandleWS_def)
next
  case (Some x)
  then obtain i a where r: "r = Some (i, a)" by (cases x) auto
  let ?m = "each ms (ws_message stamp i a)"
  define z where "z = snd (run_state (shut_conn c) (snd (run_state ?m v)))"
  have "relates (apart i) ?m" by (intro apart_intros apart_message)
  from relatesD [OF this, of v] opened_apart [OF assms(1)] r have "apart i w z"
    by (simp add: apart_def z_def)
  moreover have "w' = snd (run_state (unregister i) z)"
    using assms r by (simp add: HandleWS_def ws_end_def z_def split: prod.splits)
  moreover have "c \<in> set (shut z)" by (simp add: z_def shut_conn_def)
  ultimately show ?thesis using run_unregister [of i z] r by (auto simp: apart_def)
qed

theorem connection_leaves_no_trace_witness:
  "map_of (conns (snd (run_state (HandleWS sample_rt ''Bearer y'' True 3 (\<lambda>_. []) [InPong, InLog ''info'' ''up'']) pool_world))) = Map.empty"
proof -
  have "fst (run_state (ws_open sample_rt ''Bearer y'' True 3) pool_world) = Some (''u'', ''a'')"
    by (simp add: ws_open_def Let_def pool_auth split: prod.splits)
  then obtain v where "run_state (ws_open sample_rt ''Bearer y'' True 3) pool_world = (Some (''u'', ''a''), v)"
    by (metis prod.collapse)
  from connection_leaves_no_trace [OF this prod.collapse [symmetric], of "\<lambda>_. []" "[InPong, InLog ''info'' ''up'']"]
  show ?thesis by (simp add: pool_world_def hub_idle_def NewHub_def)
qed

end
