(* ===== verification/Spec2Isabelle.thy ===== *)
theory Spec2Isabelle
  imports Wallet Events StoreProps Tenancy MetricProps HubProps HubCounters HubControl WorkerProps
    ApiProps PayoutProps Stratum RateLimit Config EndToEnd Joining Statuses Races Connections
begin

text \<open>
  A model of money-miner, the Go programs of \<open>money-miner-backend\<close>, and what makes them correct.

  \<^bold>\<open>The program.\<close> Owners (the subjects of the tokens of an identity provider) keep wallets and miners on a
  server. Machines enroll as workers with a one-time join code and stay connected by a websocket. The server
  assigns a miner as a job to a worker, the worker runs a mining engine and reports rates and shares, and the
  server keeps samples and hourly rollups, streams events to browsers, and polls the pools for payouts.

  \<^item> \<open>cmd/server\<close> starts the parts below and serves HTTP (\<open>internal/api\<close>) behind authentication
    (\<open>internal/auth\<close>) and rate limits (\<open>internal/ratelimit\<close>), configured by \<open>internal/config\<close>.
  \<^item> \<open>internal/store\<close> is the database; \<open>internal/swarm\<close> the join codes, the worker tokens and the hub of the
    connected workers; \<open>internal/events\<close> the bus of the event streams; \<open>internal/metrics\<close> and
    \<open>internal/payouts\<close> are background loops; \<open>internal/wallet\<close> checks payout addresses.
  \<^item> \<open>cmd/worker\<close> is the worker, on the engines of \<open>internal/engine\<close>; \<open>internal/stratum\<close> is a pool client.

  \<^bold>\<open>How it is modelled.\<close> Stateful code is a program of the library's state monad: over \<open>db\<close> (the tables of
  the first migration as lists of records) for the store, over \<open>world\<close> (database, connections, live workers, job
  counters, logs, broker, sent messages) for hub and handlers, over \<open>server\<close> (the world with the key cache and
  the limiters) for requests, and over \<open>node\<close> for the worker. Errors are values of sum types. Counters of shares
  are 64-bit words; times are integers, in nanoseconds. What the program does not determine is a parameter:
  which statements and writes fail, clocks, random bytes, fresh uuids, the order of rows without an \<open>ORDER BY\<close>
  and of Go's maps, files and processes of the worker's machine, DNS, HTTP answers, JSON texts, and the
  libraries pgx, bcrypt, golang-jwt, x/time/rate and websocket. Definitions have the names of the source.

  \<^bold>\<open>The theories.\<close>
  \<^item> \<open>Prelude\<close>: three predicates over programs (\<open>keeps\<close>: an invariant, \<open>relates\<close>: a relation of the states
    before and after, \<open>triple\<close>: pre- and postcondition) with a collection of rules each, so that a property of a
    composed operation follows from its parts by \<open>intro\<close>; the locales \<open>upsert_table\<close> (insert or update by key),
    \<open>bounded_tail\<close> (the last entries of a stream) and \<open>transition_system\<close> (invariants of reachable states).
    \<open>GoStrings\<close>, \<open>Net\<close>, \<open>Url\<close>: what is used of \<open>strings\<close>, \<open>strconv\<close>, \<open>net\<close> and \<open>net/url\<close>.
  \<^item> \<open>Tables\<close>, \<open>Store\<close>, \<open>Codes\<close>: rows, statements, and the methods of \<open>store.go\<close> and \<open>codes.go\<close>.
    \<open>Integrity\<close>: keys, references and checks hold after every call (\<open>db_ok\<close>, \<open>db_call\<close>). \<open>Frames\<close>: which tables a
    method writes, and which rows persist. \<open>StoreProps\<close>, \<open>Tenancy\<close>, \<open>MetricProps\<close>: enrollment and revocation,
    what one owner's call leaves alone, rollups and payouts.
  \<^item> \<open>Hub\<close>: \<open>hub.go\<close>. \<open>HubInv\<close>: the steps of the hub (\<open>hub_step\<close>) and their invariant. \<open>HubProps\<close>: what a worker's
    message can reach, and placement. \<open>HubCounters\<close>: shares across restarts of an engine. \<open>HubControl\<close>:
    cancelling, ended jobs, statistics, reconnecting.
  \<^item> \<open>Routines\<close>: programs in turns (\<open>routine\<close>), a step of a pool of them (\<open>turns\<close>), and the locale \<open>rely\<close>: what
    each turn keeps to, whatever the others do in between. \<open>HubRoutines\<close>: the operations of the hub in turns
    (\<open>go_\<dots>\<close>), equal to those of \<open>Hub\<close> when nothing comes between (\<open>exec_\<dots>\<close>). \<open>HubIds\<close>: keys do not come back,
    so that an owner, once read, stays right. \<open>Pool\<close>: all goroutines together (\<open>pool_step\<close>), their invariant, and that
    the steps of the hub are runs of the pool. \<open>Races\<close>: orders of turns with an unwanted outcome.
    \<open>Connections\<close>: a connection from its start to its end.
  \<^item> \<open>Events\<close>: the bus and the frames of server-sent events.
  \<^item> \<open>Engine\<close>, \<open>EngineProps\<close>: the external, native and simulated engine under one contract (the locale
    \<open>mining_engine\<close>), binaries with pinned hashes, rendered arguments. \<open>Worker\<close>, \<open>WorkerProps\<close>: \<open>cmd/worker\<close>; its
    processes, answers and pauses.
  \<^item> \<open>Auth\<close>, \<open>RateLimit\<close>, \<open>Config\<close>, \<open>Wallet\<close>, \<open>Stratum\<close>, \<open>Payouts\<close> with \<open>PayoutProps\<close>: the parts with these names.
  \<^item> \<open>Api\<close>: one definition per handler. \<open>ApiProps\<close>: who reaches a handler, pool URLs, creation of miners, pages.
    \<open>Routes\<close>, \<open>RouteProps\<close>: the router and whole requests. \<open>Isolation\<close>: requests of one tenant against another's rows.
  \<^item> \<open>EndToEnd\<close>: an assignment from the hub to a worker and the answer back. \<open>Joining\<close>: the
    command line of the worker, and a machine from its enrollment to its first connection. \<open>Server\<close>: the whole server, whose
    steps refine those of the hub, and the locale \<open>served\<close>: what holds across the operations that the server
    composes holds across its runs. \<open>Statuses\<close>: the statuses, kinds and engines that the running server stores.

  \<^bold>\<open>What is shown.\<close> Invariants of all reachable states (database, hub, its interleaved goroutines, bus, stratum client, server); safety
  (tenants are isolated, revoked workers stay out, codes are used once, tokens and budgets are enforced, pinned
  binaries, public pools, no process left behind); the functional behaviour of the operations, also on errors;
  equivalence with references (share counters, rendered arguments); refinements (the output tail, the worker's
  answer and the hub's tables, the server and the hub); bounds; termination; round trips. Known limitations of
  the code are theorems too: each says so in its text.

  \<^bold>\<open>Bounds and fuel.\<close> Where the source loops forever, the model runs over a list of what happens
  (\<open>read_loop\<close>, \<open>run_loop\<close>) or for a number of ticks (\<open>poll_ticks\<close>), for every such list or number. Loops on
  texts and numbers are structural or have a termination proof; the loop of \<open>time.ParseDuration\<close> is a
  \<open>partial_function\<close>, and is shown to return for every text.

  \<^bold>\<open>Interleaving.\<close> A method of the store is one step of \<open>db_call\<close>, and \<open>hub_step\<close> interleaves store calls and hub
  operations; \<open>Server\<close> shows that requests and loops are sequences of such steps. In \<open>Pool\<close> the operations of the
  hub interleave too, statement by statement: a call of the store, a section under the mutex of the hub, a write to a
  connection and a call of the bus are one turn each. (\<open>Assign\<close> holds the mutex while it
  reads the owner of the miner, once per live worker; its choice of a worker is modelled as one turn, without store
  calls of others between these reads.) In \<open>Events\<close> and \<open>Stratum\<close> the critical sections are separate steps.

  \<^bold>\<open>Not modelled.\<close> The texts of messages and logs, HTTP headers except those that decide, JSON encoding (values
  are modelled after decoding), sockets, TLS, signals and shutdown, the regular-expression engine (address
  patterns are modelled as what they match), the websocket library, the data races of the worker between its
  reporting goroutine and its read loop, \<open>cmd/browserhash\<close> (constants of a JavaScript object), the rows of the
  catalog, the frontend, and the deployment.
\<close>

end
